theory Spec2Isabelle
  imports Complex_Main "HOL-Library.Word"
begin

section \<open>Python exceptions\<close>

text \<open>Every \<^verbatim>\<open>raise\<close>, failed \<^verbatim>\<open>assert\<close> and failing built-in operation of the
  modelled code is a value of this type; a function that can raise returns
  \<open>error + 'a\<close> with \<open>Inl\<close> for the exception. The last constructor is no Python
  exception: it marks the one place where the code goes on with two objects sharing one
  dictionary, which the value representation of the objects cannot follow.\<close>

datatype error =
    NotImplementedError
  | ZeroDivisionError
  | AttributeError
  | KeyError
  | TypeError
  | AssertionError
  | RuntimeError
  | ValueError
  | ShapeMismatchError
  | SharedDictionary

text \<open>Sequencing of computations that may raise.\<close>

definition ebind :: "error + 'a \<Rightarrow> ('a \<Rightarrow> error + 'b) \<Rightarrow> error + 'b" where
  "ebind m f = (case m of Inl e \<Rightarrow> Inl e | Inr x \<Rightarrow> f x)"

section \<open>Segmentation arrays and ordered dictionaries\<close>

text \<open>A segmentation texture is a two-dimensional array of unsigned 32-bit ids
  (\<^verbatim>\<open>TEXTURE_DTYPE["Segmentation"] = "uint32"\<close>); the agent's \<^verbatim>\<open>robot_link_ids\<close> is a
  list of Python integers.\<close>

type_synonym seg = "32 word list list"

text \<open>\<^verbatim>\<open>np.isin(actor_seg, ids)\<close>: the boolean array of the same shape that says, per
  element, whether its value occurs in \<open>ids\<close>.\<close>

definition isin :: "seg \<Rightarrow> int list \<Rightarrow> bool list list" where
  "isin actor_seg ids = map (map (\<lambda>x. uint x \<in> set ids)) actor_seg"

text \<open>\<^verbatim>\<open>actor_seg * mask\<close>: the element-wise product of a uint32 array with a boolean
  array of the same shape (\<open>True\<close> counts as 1, \<open>False\<close> as 0).\<close>

definition mul_mask :: "seg \<Rightarrow> bool list list \<Rightarrow> seg" where
  "mul_mask a m = map (\<lambda>(row, mrow). map (\<lambda>(x, b). x * of_bool b) (zip row mrow)) (zip a m)"

text \<open>\<^verbatim>\<open>BaseEnv._get_robot_seg\<close>:
  \<^verbatim>\<open>mask = np.isin(actor_seg, self.agent.robot_link_ids); return actor_seg * mask\<close>.\<close>

definition get_robot_seg :: "int list \<Rightarrow> seg \<Rightarrow> seg" where
  "get_robot_seg robot_link_ids actor_seg = mul_mask actor_seg (isin actor_seg robot_link_ids)"

text \<open>The shape of a two-dimensional array: the length of every row, in order.\<close>

definition shape :: "'a list list \<Rightarrow> nat list" where
  "shape a = map length a"

subsection \<open>Ordered dictionaries\<close>

text \<open>A Python dictionary keeps insertion order: \<^verbatim>\<open>d[k] = v\<close> overwrites the value in
  place when \<open>k\<close> is present and appends the pair otherwise.\<close>

fun dict_set :: "'k \<Rightarrow> 'v \<Rightarrow> ('k \<times> 'v) list \<Rightarrow> ('k \<times> 'v) list" where
  "dict_set k v [] = [(k, v)]"
| "dict_set k v ((k', v') # d) = (if k' = k then (k, v) # d else (k', v') # dict_set k v d)"

text \<open>\<^verbatim>\<open>d.update(d')\<close>: every pair of \<open>d'\<close>, in order.\<close>

fun dict_update :: "('k \<times> 'v) list \<Rightarrow> ('k \<times> 'v) list \<Rightarrow> ('k \<times> 'v) list" where
  "dict_update d [] = d"
| "dict_update d ((k, v) # d') = dict_update (dict_set k v d) d'"

section \<open>The engine's scene\<close>

text \<open>Actors, links and articulations are engine objects; Python code holds references
  to them. A handle is such a reference, and the scene maps every handle to the object's
  current state. \<^verbatim>\<open>get_all_actors()\<close> and \<^verbatim>\<open>get_all_articulations()\<close> enumerate the
  handles that are in the scene now.\<close>

type_synonym handle = nat
type_synonym vec3 = "real \<times> real \<times> real"
type_synonym quat = "real \<times> real \<times> real \<times> real"

record actor_body =
  actor_name :: string
  actor_type :: string
  pose_p :: vec3
  pose_q :: quat
  velocity :: vec3
  angular_velocity :: vec3

text \<open>An articulation has one joint position and one joint velocity per degree of
  freedom, so its joints are a list of such pairs and \<open>dof\<close> is its length.\<close>

record articulation_body =
  articulation_name :: string
  links :: "handle list"
  root_pose_p :: vec3
  root_pose_q :: quat
  root_velocity :: vec3
  root_angular_velocity :: vec3
  joints :: "(real \<times> real) list"

definition dof :: "articulation_body \<Rightarrow> nat" where
  "dof a = length (joints a)"

definition qpos :: "articulation_body \<Rightarrow> real list" where
  "qpos a = map fst (joints a)"

definition qvel :: "articulation_body \<Rightarrow> real list" where
  "qvel a = map snd (joints a)"

section \<open>Camera configuration and cameras (sensors/camera.py)\<close>

subsection \<open>Python values and attribute dictionaries\<close>

datatype pyval =
    PNone
  | PInt int
  | PFloat real
  | PStr string
  | PList "pyval list"
  | PDict "(string \<times> pyval) list"

text \<open>A \<^verbatim>\<open>CameraConfig\<close> object is its instance dictionary \<^verbatim>\<open>__dict__\<close>. Distinct
  entries of a configuration set are distinct objects.\<close>

type_synonym camera_config = "(string \<times> pyval) list"

text \<open>\<^verbatim>\<open>CameraConfig.__init__\<close> stores its eleven arguments, in this order.\<close>

definition CameraConfig ::
  "pyval \<Rightarrow> pyval \<Rightarrow> pyval \<Rightarrow> pyval \<Rightarrow> pyval \<Rightarrow> pyval \<Rightarrow> pyval \<Rightarrow> pyval \<Rightarrow> pyval \<Rightarrow> pyval \<Rightarrow> pyval
     \<Rightarrow> camera_config" where
  "CameraConfig uuid p q width height fov near far articulation_uuid actor_uuid texture_names =
     [(''uuid'', uuid), (''p'', p), (''q'', q), (''width'', width), (''height'', height),
      (''fov'', fov), (''near'', near), (''far'', far),
      (''articulation_uuid'', articulation_uuid), (''actor_uuid'', actor_uuid),
      (''texture_names'', texture_names)]"

text \<open>The names the class body itself defines: the read-only property \<^verbatim>\<open>pose\<close> and the
  methods \<^verbatim>\<open>__init__\<close> and \<^verbatim>\<open>__repr__\<close>.\<close>

definition class_attributes :: "string list" where
  "class_attributes = [''pose'', ''__init__'', ''__repr__'']"

text \<open>The names every instance of a class without \<^verbatim>\<open>__slots__\<close> has besides: those
  inherited from \<^verbatim>\<open>object\<close>, and \<^verbatim>\<open>__dict__\<close>, \<^verbatim>\<open>__module__\<close> and \<^verbatim>\<open>__weakref__\<close>
  (\<^verbatim>\<open>dir\<close> of such an instance in Python 3.7 to 3.10; Python 3.11 adds
  \<^verbatim>\<open>__getstate__\<close>).\<close>

definition object_attributes :: "string list" where
  "object_attributes =
     [''__class__'', ''__delattr__'', ''__dict__'', ''__dir__'', ''__doc__'', ''__eq__'',
      ''__format__'', ''__ge__'', ''__getattribute__'', ''__gt__'', ''__hash__'', ''__init__'',
      ''__init_subclass__'', ''__le__'', ''__lt__'', ''__module__'', ''__ne__'', ''__new__'',
      ''__reduce__'', ''__reduce_ex__'', ''__repr__'', ''__setattr__'', ''__sizeof__'',
      ''__str__'', ''__subclasshook__'', ''__weakref__'']"

text \<open>\<^verbatim>\<open>hasattr(cfg, k)\<close>: the name is in the instance dictionary, or the class or
  \<^verbatim>\<open>object\<close> provides it. (For \<^verbatim>\<open>pose\<close> the property is evaluated; \<^verbatim>\<open>sapien.Pose\<close> is
  taken to return.)\<close>

definition hasattr :: "camera_config \<Rightarrow> string \<Rightarrow> bool" where
  "hasattr cfg k =
     (k \<in> set (map fst cfg) \<or> k \<in> set class_attributes \<or> k \<in> set object_attributes)"

text \<open>\<^verbatim>\<open>getattr(cfg, k)\<close> for an instance attribute.\<close>

definition getattr :: "camera_config \<Rightarrow> string \<Rightarrow> error + pyval" where
  "getattr cfg k = (case map_of cfg k of None \<Rightarrow> Inl AttributeError | Some v \<Rightarrow> Inr v)"

text \<open>\<^verbatim>\<open>setattr(cfg, k, v)\<close>. The property \<^verbatim>\<open>pose\<close> has no setter and \<^verbatim>\<open>__weakref__\<close> is
  not writable (\<^verbatim>\<open>AttributeError\<close>); \<^verbatim>\<open>__class__\<close> accepts only a class and \<^verbatim>\<open>__dict__\<close>
  only a dictionary (\<^verbatim>\<open>TypeError\<close>; no value of \<open>pyval\<close> is a class). Assigning a
  dictionary to \<^verbatim>\<open>__dict__\<close> makes that very dictionary the instance dictionary, so that
  all cameras it is assigned to share it from then on; configurations are values here,
  and that step is \<open>SharedDictionary\<close>. Every other name, a method name or \<^verbatim>\<open>__doc__\<close>
  included, is stored in the instance dictionary.\<close>

definition setattr :: "camera_config \<Rightarrow> string \<Rightarrow> pyval \<Rightarrow> error + camera_config" where
  "setattr cfg k v =
     (if k = ''pose'' \<or> k = ''__weakref__'' then Inl AttributeError
      else if k = ''__class__'' then Inl TypeError
      else if k = ''__dict__''
        then (case v of PDict d \<Rightarrow> Inl SharedDictionary | _ \<Rightarrow> Inl TypeError)
      else Inr (dict_set k v cfg))"

subsection \<open>Merging overrides\<close>

text \<open>The inner loop of the first pass of \<^verbatim>\<open>update_camera_cfgs_from_dict\<close>:
  \<^verbatim>\<open>for cfg in camera_cfgs.values(): assert hasattr(cfg, k); setattr(cfg, k, v)\<close>.
  The configurations are mutated in place, so the caller sees every assignment made
  before an exception: the result is the configuration set as it is left, and the
  exception if one was raised.\<close>

fun apply_to_all ::
  "string \<Rightarrow> pyval \<Rightarrow> (string \<times> camera_config) list
     \<Rightarrow> (string \<times> camera_config) list \<times> error option" where
  "apply_to_all k v [] = ([], None)"
| "apply_to_all k v ((name, cfg) # rest) =
     (if \<not> hasattr cfg k then ((name, cfg) # rest, Some AssertionError)
      else case setattr cfg k v of
             Inl e \<Rightarrow> ((name, cfg) # rest, Some e)
           | Inr cfg' \<Rightarrow>
               (case apply_to_all k v rest of (rest', r) \<Rightarrow> ((name, cfg') # rest', r)))"

text \<open>The first pass: every key of \<open>cfg_dict\<close> that is not a camera name is applied to
  all cameras.\<close>

fun apply_global ::
  "(string \<times> pyval) list \<Rightarrow> (string \<times> camera_config) list
     \<Rightarrow> (string \<times> camera_config) list \<times> error option" where
  "apply_global [] camera_cfgs = (camera_cfgs, None)"
| "apply_global ((k, v) # items) camera_cfgs =
     (if k \<in> set (map fst camera_cfgs) then apply_global items camera_cfgs
      else case apply_to_all k v camera_cfgs of
             (camera_cfgs', Some e) \<Rightarrow> (camera_cfgs', Some e)
           | (camera_cfgs', None) \<Rightarrow> apply_global items camera_cfgs')"

text \<open>\<^verbatim>\<open>for kk in v\<close>: a dictionary is iterated by its keys, a list or tuple by its
  elements, a string by its characters; \<^verbatim>\<open>None\<close> and numbers are not iterable.\<close>

definition iterate :: "pyval \<Rightarrow> error + pyval list" where
  "iterate v =
     (case v of
        PDict d \<Rightarrow> Inr (map (PStr \<circ> fst) d)
      | PList xs \<Rightarrow> Inr xs
      | PStr s \<Rightarrow> Inr (map (\<lambda>c. PStr [c]) s)
      | _ \<Rightarrow> Inl TypeError)"

text \<open>The loop \<^verbatim>\<open>for kk in v: assert hasattr(cfg, kk)\<close>: \<^verbatim>\<open>hasattr\<close> raises
  \<^verbatim>\<open>TypeError\<close> for a name that is not a string. When the loop ends normally every
  element was a string, and the result is the list of these names.\<close>

fun check_names :: "camera_config \<Rightarrow> pyval list \<Rightarrow> error + string list" where
  "check_names cfg [] = Inr []"
| "check_names cfg (kk # rest) =
     (case kk of
        PStr n \<Rightarrow>
          (if hasattr cfg n then map_sum id ((#) n) (check_names cfg rest)
           else Inl AssertionError)
      | _ \<Rightarrow> Inl TypeError)"

text \<open>\<^verbatim>\<open>d.update(seq)\<close> for a sequence of strings: every element has to be a sequence of
  length two, its first item the key and its second the value, so a string of two
  characters sets the first character to the second; an element of another length raises
  \<^verbatim>\<open>ValueError\<close>, and the pairs before it stay set.\<close>

fun update_pairs :: "camera_config \<Rightarrow> string list \<Rightarrow> camera_config \<times> error option" where
  "update_pairs cfg [] = (cfg, None)"
| "update_pairs cfg (n # rest) =
     (case n of
        [a, b] \<Rightarrow> update_pairs (dict_set [a] (PStr [b]) cfg) rest
      | _ \<Rightarrow> (cfg, Some ValueError))"

text \<open>\<^verbatim>\<open>cfg.__dict__.update(v)\<close>, for a value \<open>v\<close> whose elements are the names \<open>names\<close>:
  a dictionary is laid over the instance dictionary; a list or a string is a sequence of
  pairs.\<close>

definition dict_update_from :: "camera_config \<Rightarrow> pyval \<Rightarrow> string list \<Rightarrow> camera_config \<times> error option" where
  "dict_update_from cfg v names =
     (case v of PDict d \<Rightarrow> (dict_update cfg d, None) | _ \<Rightarrow> update_pairs cfg names)"

text \<open>The second pass: for every key that is a camera name,
  \<^verbatim>\<open>for kk in v: assert hasattr(cfg, kk)\<close> and then \<^verbatim>\<open>cfg.__dict__.update(v)\<close>.\<close>

fun apply_specific ::
  "(string \<times> pyval) list \<Rightarrow> (string \<times> camera_config) list
     \<Rightarrow> (string \<times> camera_config) list \<times> error option" where
  "apply_specific [] camera_cfgs = (camera_cfgs, None)"
| "apply_specific ((name, v) # items) camera_cfgs =
     (case map_of camera_cfgs name of
        None \<Rightarrow> apply_specific items camera_cfgs
      | Some cfg \<Rightarrow>
          (case ebind (iterate v) (check_names cfg) of
             Inl e \<Rightarrow> (camera_cfgs, Some e)
           | Inr names \<Rightarrow>
               (case dict_update_from cfg v names of
                  (cfg', Some e) \<Rightarrow> (dict_set name cfg' camera_cfgs, Some e)
                | (cfg', None) \<Rightarrow> apply_specific items (dict_set name cfg' camera_cfgs))))"

text \<open>\<^verbatim>\<open>update_camera_cfgs_from_dict(camera_cfgs, cfg_dict)\<close>.\<close>

definition update_camera_cfgs_from_dict ::
  "(string \<times> camera_config) list \<Rightarrow> (string \<times> pyval) list
     \<Rightarrow> (string \<times> camera_config) list \<times> error option" where
  "update_camera_cfgs_from_dict camera_cfgs cfg_dict =
     (case apply_global cfg_dict camera_cfgs of
        (camera_cfgs', Some e) \<Rightarrow> (camera_cfgs', Some e)
      | (camera_cfgs', None) \<Rightarrow> apply_specific cfg_dict camera_cfgs')"

text \<open>The overrides a successful merge lays over one camera: the global ones (keys of
  \<open>cfg_dict\<close> that name no camera), and the entries of the blocks keyed by that camera's
  name. The entries of a block that is a dictionary are its items; those of a block that
  is a list are the pairs its two-character strings stand for.\<close>

definition global_items :: "(string \<times> camera_config) list \<Rightarrow> (string \<times> pyval) list \<Rightarrow> (string \<times> pyval) list" where
  "global_items camera_cfgs cfg_dict = filter (\<lambda>(k, v). k \<notin> set (map fst camera_cfgs)) cfg_dict"

definition pair_of :: "string \<Rightarrow> (string \<times> pyval) list" where
  "pair_of n = (case n of [a, b] \<Rightarrow> [([a], PStr [b])] | _ \<Rightarrow> [])"

definition block_pairs :: "pyval \<Rightarrow> (string \<times> pyval) list" where
  "block_pairs v =
     (case v of
        PDict d \<Rightarrow> d
      | PList xs \<Rightarrow> concat (map (\<lambda>x. case x of PStr n \<Rightarrow> pair_of n | _ \<Rightarrow> []) xs)
      | _ \<Rightarrow> [])"

fun block_items :: "string \<Rightarrow> (string \<times> pyval) list \<Rightarrow> (string \<times> pyval) list" where
  "block_items name [] = []"
| "block_items name ((k, v) # items) =
     (if k = name then block_pairs v @ block_items name items else block_items name items)"

text \<open>An override dictionary names an unknown attribute when a global key is not an
  attribute of some configured camera, or when a key inside the block of a configured
  camera is not an attribute of that camera.\<close>

definition unknown_global :: "(string \<times> camera_config) list \<Rightarrow> (string \<times> pyval) list \<Rightarrow> bool" where
  "unknown_global camera_cfgs cfg_dict =
     list_ex (\<lambda>(k, v). k \<notin> set (map fst camera_cfgs)
                \<and> list_ex (\<lambda>(n, c). \<not> hasattr c k) camera_cfgs) cfg_dict"

definition unknown_specific :: "(string \<times> camera_config) list \<Rightarrow> (string \<times> pyval) list \<Rightarrow> bool" where
  "unknown_specific camera_cfgs cfg_dict =
     list_ex (\<lambda>(name, v).
        case (map_of camera_cfgs name, v) of
          (Some c, PDict d) \<Rightarrow> list_ex (\<lambda>kk. \<not> hasattr c kk) (map fst d)
        | _ \<Rightarrow> False) cfg_dict"

text \<open>An override dictionary re-seats the instance dictionaries when a global key
  \<^verbatim>\<open>__dict__\<close> carries a dictionary.\<close>

definition reseats :: "(string \<times> camera_config) list \<Rightarrow> (string \<times> pyval) list \<Rightarrow> bool" where
  "reseats camera_cfgs cfg_dict =
     list_ex (\<lambda>(k, v). k = ''__dict__'' \<and> k \<notin> set (map fst camera_cfgs)
                \<and> (case v of PDict d \<Rightarrow> True | _ \<Rightarrow> False)) cfg_dict"

text \<open>The camera names of a configuration set, each with the predicate that says which
  attribute names are valid for it.\<close>

definition signature :: "(string \<times> camera_config) list \<Rightarrow> (string \<times> (string \<Rightarrow> bool)) list" where
  "signature camera_cfgs = map (\<lambda>(n, c). (n, hasattr c)) camera_cfgs"

subsection \<open>A concrete configuration set\<close>

definition example_cfg :: "string \<Rightarrow> camera_config" where
  "example_cfg uuid =
     CameraConfig (PStr uuid) (PList [PFloat 0, PFloat 0, PFloat 1])
       (PList [PFloat 1, PFloat 0, PFloat 0, PFloat 0]) (PInt 128) (PInt 128) (PFloat 1)
       (PFloat 0.01) (PFloat 10) PNone PNone (PList [PStr ''Color'', PStr ''Position''])"

definition example_cfgs :: "(string \<times> camera_config) list" where
  "example_cfgs = [(''cam1'', example_cfg ''cam1''), (''cam2'', example_cfg ''cam2'')]"

subsection \<open>Cameras\<close>

text \<open>The scene: the handles it enumerates, the objects behind the handles, its cameras,
  its time step and its directional lights (each with its shadow flag). A camera entity
  is as the engine creates it: \<^verbatim>\<open>scene.add_camera\<close> gives a free camera
  (no mount; its local pose is then set), \<^verbatim>\<open>scene.add_mounted_camera\<close> one that is
  attached to an actor.\<close>

record camera_entity =
  ce_name :: pyval
  ce_mount :: "handle option"
  ce_pose :: "pyval \<times> pyval"
  ce_width :: pyval
  ce_height :: pyval
  ce_fov :: pyval
  ce_near :: pyval
  ce_far :: pyval

record scene =
  all_actors :: "handle list"
  all_articulations :: "handle list"
  actor_of :: "handle \<Rightarrow> actor_body"
  articulation_of :: "handle \<Rightarrow> articulation_body"
  scene_cameras :: "camera_entity list"
  timestep :: real
  lights :: "bool list"

text \<open>Modelled from the spec: \<^verbatim>\<open>mani_skill2.utils.sapien_utils.get_entity_by_name\<close> is not
  among the sources. It looks an entity up by its name; the caller's test
  \<^verbatim>\<open>if actor is None\<close> shows that a failed lookup returns \<^verbatim>\<open>None\<close>.\<close>

definition get_entity_by_name :: "(handle \<Rightarrow> string) \<Rightarrow> handle list \<Rightarrow> pyval \<Rightarrow> handle option" where
  "get_entity_by_name name_of entities name = find (\<lambda>h. PStr (name_of h) = name) entities"

text \<open>\<^verbatim>\<open>Camera.get_mount_actor(scene, articulation_uuid, actor_uuid)\<close>. In the branch with
  an articulation name, a missing articulation makes \<^verbatim>\<open>articulation.get_links()\<close> an
  attribute access on \<^verbatim>\<open>None\<close>, and a missing link raises \<^verbatim>\<open>RuntimeError\<close>; that
  \<^verbatim>\<open>raise\<close> is inside the \<^verbatim>\<open>else\<close> branch only.\<close>

definition get_mount_actor :: "scene \<Rightarrow> pyval \<Rightarrow> pyval \<Rightarrow> error + handle option" where
  "get_mount_actor sc articulation_uuid actor_uuid =
     (if actor_uuid \<noteq> PNone then
        (if articulation_uuid = PNone
         then Inr (get_entity_by_name (\<lambda>h. actor_name (actor_of sc h)) (all_actors sc) actor_uuid)
         else
           (case get_entity_by_name (\<lambda>h. articulation_name (articulation_of sc h))
                   (all_articulations sc) articulation_uuid of
              None \<Rightarrow> Inl AttributeError
            | Some articulation \<Rightarrow>
                (case get_entity_by_name (\<lambda>h. actor_name (actor_of sc h))
                        (links (articulation_of sc articulation)) actor_uuid of
                   None \<Rightarrow> Inl RuntimeError
                 | Some actor \<Rightarrow> Inr (Some actor))))
      else Inr None)"

text \<open>The \<^verbatim>\<open>Camera\<close> wrapper object.\<close>

record Camera =
  camera_cfg :: camera_config
  renderer_type :: string
  actor :: "handle option"
  camera :: camera_entity
  texture_names :: pyval

text \<open>\<^verbatim>\<open>tuple(x for x in texture_names if x in ["Color"])\<close>: a list or tuple is filtered, a
  dictionary is iterated by its keys, a string by its characters (none of which is
  \<^verbatim>\<open>"Color"\<close>); anything else is not iterable.\<close>

definition filter_color :: "pyval \<Rightarrow> error + pyval" where
  "filter_color names =
     (case names of
        PList xs \<Rightarrow> Inr (PList (filter (\<lambda>x. x = PStr ''Color'') xs))
      | PDict d \<Rightarrow> Inr (PList (filter (\<lambda>x. x = PStr ''Color'') (map (PStr \<circ> fst) d)))
      | PStr s \<Rightarrow> Inr (PList [])
      | _ \<Rightarrow> Inl TypeError)"

text \<open>\<^verbatim>\<open>Camera.__init__(camera_cfg, scene, renderer_type)\<close>: the mount is resolved, the
  engine camera is added to the scene (free when the mount is \<^verbatim>\<open>None\<close>, mounted
  otherwise), and the texture names are narrowed for the \<^verbatim>\<open>kuafu\<close> renderer. The result
  is the new object and the scene with the camera in it.\<close>

definition Camera_init :: "camera_config \<Rightarrow> scene \<Rightarrow> string \<Rightarrow> error + (Camera \<times> scene)" where
  "Camera_init cfg sc rtype =
     ebind (getattr cfg ''articulation_uuid'') (\<lambda>articulation_uuid.
     ebind (getattr cfg ''actor_uuid'') (\<lambda>actor_uuid.
     ebind (get_mount_actor sc articulation_uuid actor_uuid) (\<lambda>mount.
     ebind (getattr cfg ''uuid'') (\<lambda>uuid.
     ebind (getattr cfg ''width'') (\<lambda>width.
     ebind (getattr cfg ''height'') (\<lambda>height.
     ebind (getattr cfg ''fov'') (\<lambda>fov.
     ebind (getattr cfg ''near'') (\<lambda>near.
     ebind (getattr cfg ''far'') (\<lambda>far.
     ebind (getattr cfg ''p'') (\<lambda>p.
     ebind (getattr cfg ''q'') (\<lambda>q.
     ebind (getattr cfg ''texture_names'') (\<lambda>names.
     ebind (if rtype = ''kuafu'' then filter_color names else Inr names) (\<lambda>names'.
       (let entity = \<lparr>ce_name = uuid, ce_mount = mount, ce_pose = (p, q), ce_width = width,
                      ce_height = height, ce_fov = fov, ce_near = near, ce_far = far\<rparr>
        in Inr (\<lparr>camera_cfg = cfg, renderer_type = rtype, actor = mount, camera = entity,
                  texture_names = names'\<rparr>,
                sc\<lparr>scene_cameras := scene_cameras sc @ [entity]\<rparr>)))))))))))))))"

subsection \<open>A concrete scene\<close>

definition example_actor :: "string \<Rightarrow> actor_body" where
  "example_actor n =
     \<lparr>actor_name = n, actor_type = ''dynamic'', pose_p = (0, 0, 0), pose_q = (1, 0, 0, 0),
      velocity = (0, 0, 0), angular_velocity = (0, 0, 0)\<rparr>"

definition example_articulation :: articulation_body where
  "example_articulation =
     \<lparr>articulation_name = ''robot'', links = [10, 11],
      root_pose_p = (0, 0, 0), root_pose_q = (1, 0, 0, 0),
      root_velocity = (0, 0, 0), root_angular_velocity = (0, 0, 0),
      joints = [(0.5, 0), (0.25, 0)]\<rparr>"

text \<open>One free actor \<^verbatim>\<open>cube\<close> and one articulation \<^verbatim>\<open>robot\<close> with the links \<^verbatim>\<open>base\<close> and
  \<^verbatim>\<open>hand\<close>.\<close>

definition example_scene :: scene where
  "example_scene =
     \<lparr>all_actors = [1],
      all_articulations = [2],
      actor_of = (\<lambda>h. if h = 1 then example_actor ''cube''
                       else if h = 10 then example_actor ''base''
                       else if h = 11 then example_actor ''hand''
                       else example_actor ''''),
      articulation_of = (\<lambda>h. example_articulation),
      scene_cameras = [], timestep = 1 / 500, lights = []\<rparr>"

text \<open>A camera configuration that names the free actor \<open>mount\<close> (and no articulation) as
  its mount.\<close>

definition mounted_cfg :: "pyval \<Rightarrow> pyval \<Rightarrow> camera_config" where
  "mounted_cfg articulation_uuid actor_uuid =
     CameraConfig (PStr ''hand_camera'') (PList [PFloat 0, PFloat 0, PFloat 1])
       (PList [PFloat 1, PFloat 0, PFloat 0, PFloat 0]) (PInt 128) (PInt 128) (PFloat 1)
       (PFloat 0.01) (PFloat 10) articulation_uuid actor_uuid
       (PList [PStr ''Color'', PStr ''Position''])"

section \<open>Observations (envs/sapien\_env.py)\<close>

subsection \<open>Render options and observation dictionaries\<close>

text \<open>The keyword arguments the observation methods pass on; \<open>None\<close> is a keyword that
  was not given, so the callee's default applies.\<close>

record kwargs =
  kw_rgb :: "bool option"
  kw_depth :: "bool option"
  kw_visual_seg :: "bool option"
  kw_actor_seg :: "bool option"

definition no_kwargs :: kwargs where
  "no_kwargs = \<lparr>kw_rgb = None, kw_depth = None, kw_visual_seg = None, kw_actor_seg = None\<rparr>"

definition kw_default :: "bool \<Rightarrow> bool option \<Rightarrow> bool" where
  "kw_default d kw = (case kw of None \<Rightarrow> d | Some b \<Rightarrow> b)"

type_synonym farray = "real list list"

text \<open>The per-camera dictionary of an image observation; a field that is \<open>None\<close> is a
  key that is absent.\<close>

record camera_obs =
  rgb :: "farray option"
  depth :: "farray option"
  visual_seg :: "seg option"
  actor_seg :: "seg option"
  robot_seg :: "seg option"
  camera_intrinsic :: "farray option"
  camera_extrinsic :: "farray option"

text \<open>The fused or per-camera point cloud dictionary.\<close>

record pcd =
  xyzw :: farray
  pcd_rgb :: "farray option"
  pcd_visual_seg :: "seg option"
  pcd_actor_seg :: "seg option"
  pcd_robot_seg :: "seg option"

text \<open>Concatenation of an optional channel over all point sets: present when every
  point set has it.\<close>

fun concat_opt :: "'a list option list \<Rightarrow> 'a list option" where
  "concat_opt [] = Some []"
| "concat_opt (None # xs) = None"
| "concat_opt (Some x # xs) = (case concat_opt xs of None \<Rightarrow> None | Some r \<Rightarrow> Some (x @ r))"

text \<open>Modelled from the spec: \<^verbatim>\<open>mani_skill2.utils.common.merge_dicts\<close> is not among the
  sources. All per-sensor point sets are concatenated into one fused set, channel by
  channel.\<close>

definition merge_dicts :: "pcd list \<Rightarrow> pcd" where
  "merge_dicts ps =
     \<lparr>xyzw = concat (map xyzw ps),
      pcd_rgb = concat_opt (map pcd_rgb ps),
      pcd_visual_seg = concat_opt (map pcd_visual_seg ps),
      pcd_actor_seg = concat_opt (map pcd_actor_seg ps),
      pcd_robot_seg = concat_opt (map pcd_robot_seg ps)\<rparr>"

subsection \<open>What the observation methods read\<close>

text \<open>A nested state dictionary (\<^verbatim>\<open>OrderedDict\<close> of arrays and dictionaries), as the
  agent's proprioception and the task's extra observations are.\<close>

datatype state_dict = Arr "real list" | Dict "(string \<times> state_dict) list"

text \<open>The attributes and collaborators the observation methods of \<^verbatim>\<open>BaseEnv\<close> read.
  \<^verbatim>\<open>_enable_gt_seg\<close> and \<^verbatim>\<open>_enable_kuafu\<close> are attributes that no statement of
  \<^verbatim>\<open>sapien_env.py\<close> assigns: each is \<open>None\<close> as long as nothing has assigned it, and
  \<open>Some\<close> of its value afterwards. \<^verbatim>\<open>_cameras\<close> holds, in insertion order, the
  \<^verbatim>\<open>Camera\<close> wrappers that \<^verbatim>\<open>_setup_cameras\<close> has stored. The rest are the agent's and
  the task's answers (\<^verbatim>\<open>agent.get_camera_images\<close>, \<^verbatim>\<open>agent.get_camera_pcd\<close>,
  \<^verbatim>\<open>agent.robot_link_ids\<close>, \<^verbatim>\<open>agent.get_proprioception\<close>, \<^verbatim>\<open>_get_obs_extra\<close>).\<close>

record sensing =
  enable_gt_seg :: "bool option"
  enable_kuafu :: "bool option"
  cameras :: "(string \<times> Camera) list"
  agent_get_camera_images :: "bool \<Rightarrow> bool \<Rightarrow> bool \<Rightarrow> bool \<Rightarrow> (string \<times> camera_obs) list"
  agent_get_camera_pcd :: "kwargs \<Rightarrow> (string \<times> pcd) list"
  robot_link_ids :: "int list"
  get_proprioception :: state_dict
  get_obs_extra :: state_dict

text \<open>Reading an attribute of \<^verbatim>\<open>self\<close>: one that was never assigned raises
  \<^verbatim>\<open>AttributeError\<close>.\<close>

definition read_attribute :: "'a option \<Rightarrow> error + 'a" where
  "read_attribute a = (case a of None \<Rightarrow> Inl AttributeError | Some v \<Rightarrow> Inr v)"

subsection \<open>Image observations\<close>

text \<open>\<^verbatim>\<open>BaseEnv._get_camera_images(camera, **kwargs)\<close>:
  \<^verbatim>\<open>obs_dict = get_camera_images(camera, **kwargs)\<close> and then
  \<^verbatim>\<open>obs_dict.update(camera_intrinsic=camera.get_intrinsic_matrix(),
  camera_extrinsic=camera.get_extrinsic_matrix())\<close>. The method is written for an engine
  camera, but the objects of \<^verbatim>\<open>_cameras\<close> it is called with are \<^verbatim>\<open>Camera\<close> wrappers. That
  class defines \<^verbatim>\<open>take_picture\<close>, \<^verbatim>\<open>get_images\<close>, \<^verbatim>\<open>get_params\<close>, \<^verbatim>\<open>observation_space\<close>
  and \<^verbatim>\<open>get_mount_actor\<close> and has no \<^verbatim>\<open>__getattr__\<close>; it has no \<^verbatim>\<open>get_intrinsic_matrix\<close>,
  so the attribute lookup raises \<^verbatim>\<open>AttributeError\<close> whatever the images and the
  options are.\<close>

definition get_camera_images_params ::
  "Camera \<Rightarrow> bool \<Rightarrow> bool \<Rightarrow> bool \<Rightarrow> bool \<Rightarrow> error + camera_obs" where
  "get_camera_images_params cam rgb_f depth_f visual_seg_f actor_seg_f = Inl AttributeError"

text \<open>The loop \<^verbatim>\<open>for name, camera in self._cameras.items():
  obs_dict[name] = self._get_camera_images(camera, ...)\<close>.\<close>

fun scene_camera_images ::
  "(string \<times> Camera) list \<Rightarrow> bool \<Rightarrow> bool \<Rightarrow> bool \<Rightarrow> bool \<Rightarrow> (string \<times> camera_obs) list
     \<Rightarrow> error + (string \<times> camera_obs) list" where
  "scene_camera_images [] rgb_f depth_f visual_seg_f actor_seg_f obs_dict = Inr obs_dict"
| "scene_camera_images ((name, cam) # rest) rgb_f depth_f visual_seg_f actor_seg_f obs_dict =
     ebind (get_camera_images_params cam rgb_f depth_f visual_seg_f actor_seg_f)
       (\<lambda>im. scene_camera_images rest rgb_f depth_f visual_seg_f actor_seg_f
                (dict_set name im obs_dict))"

text \<open>\<^verbatim>\<open>BaseEnv._get_obs_images(rgb=True, depth=True, visual_seg=False, actor_seg=False)\<close>:
  the agent's camera images first, then one entry per scene camera, keyed by name.
  (Taking the pictures before, with \<^verbatim>\<open>Camera.take_picture\<close>, changes nothing here.)\<close>

definition get_obs_images :: "sensing \<Rightarrow> kwargs \<Rightarrow> error + (string \<times> camera_obs) list" where
  "get_obs_images s kw =
     (let rgb_f = kw_default True (kw_rgb kw);
          depth_f = kw_default True (kw_depth kw);
          visual_seg_f = kw_default False (kw_visual_seg kw);
          actor_seg_f = kw_default False (kw_actor_seg kw);
          obs_dict = agent_get_camera_images s rgb_f depth_f visual_seg_f actor_seg_f
      in scene_camera_images (cameras s) rgb_f depth_f visual_seg_f actor_seg_f obs_dict)"

record rgbd_obs =
  obs_image :: "(string \<times> camera_obs) list"
  obs_agent :: state_dict
  obs_extra :: state_dict

text \<open>\<^verbatim>\<open>BaseEnv._get_obs_rgbd(**kwargs)\<close>: \<^verbatim>\<open>self._enable_gt_seg\<close> is read, and ground-truth
  segmentation switches both segmentation channels on; \<^verbatim>\<open>self._enable_kuafu\<close> is read,
  and the KuaFu flag switches depth and both segmentation channels off; then the images
  are taken. The method has no \<^verbatim>\<open>raise\<close> of its own.\<close>

definition get_obs_rgbd :: "sensing \<Rightarrow> kwargs \<Rightarrow> error + rgbd_obs" where
  "get_obs_rgbd s kw =
     ebind (read_attribute (enable_gt_seg s)) (\<lambda>gt_seg.
     ebind (read_attribute (enable_kuafu s)) (\<lambda>kuafu.
       (let kw1 = (if gt_seg
                   then kw\<lparr>kw_visual_seg := Some True, kw_actor_seg := Some True\<rparr> else kw);
            kw2 = (if kuafu
                   then kw1\<lparr>kw_depth := Some False, kw_visual_seg := Some False,
                            kw_actor_seg := Some False\<rparr> else kw1)
        in ebind (get_obs_images s kw2) (\<lambda>images.
             Inr \<lparr>obs_image = images, obs_agent = get_proprioception s,
                  obs_extra = get_obs_extra s\<rparr>))))"

subsection \<open>Point cloud observations\<close>

record pointcloud_obs =
  pointcloud :: pcd
  pc_agent :: state_dict
  pc_extra :: state_dict

text \<open>The body of the loop over the scene cameras in \<^verbatim>\<open>_get_obs_pointcloud\<close>:
  \<^verbatim>\<open>pcd = get_camera_pcd(camera, **kwargs)\<close>, \<^verbatim>\<open>T = camera.get_model_matrix()\<close>,
  \<^verbatim>\<open>pcd["xyzw"] = pcd["xyzw"] @ T.T\<close>. The \<^verbatim>\<open>Camera\<close> wrapper has no
  \<^verbatim>\<open>get_model_matrix\<close> either.\<close>

definition get_camera_pcd_world :: "Camera \<Rightarrow> kwargs \<Rightarrow> error + pcd" where
  "get_camera_pcd_world cam kw = Inl AttributeError"

fun scene_camera_pcds ::
  "(string \<times> Camera) list \<Rightarrow> kwargs \<Rightarrow> (string \<times> pcd) list \<Rightarrow> error + (string \<times> pcd) list" where
  "scene_camera_pcds [] kw pcds = Inr pcds"
| "scene_camera_pcds ((name, cam) # rest) kw pcds =
     ebind (get_camera_pcd_world cam kw)
       (\<lambda>p. scene_camera_pcds rest kw (dict_set name p pcds))"

text \<open>\<^verbatim>\<open>BaseEnv._get_obs_pointcloud(**kwargs)\<close>: after the two flags are read, a set KuaFu
  flag raises \<^verbatim>\<open>NotImplementedError\<close> before anything is rendered; otherwise the agent's
  point sets and every scene camera's point set are fused.\<close>

definition get_obs_pointcloud :: "sensing \<Rightarrow> kwargs \<Rightarrow> error + pointcloud_obs" where
  "get_obs_pointcloud s kw =
     ebind (read_attribute (enable_gt_seg s)) (\<lambda>gt_seg.
     ebind (read_attribute (enable_kuafu s)) (\<lambda>kuafu.
       (let kw1 = (if gt_seg
                   then kw\<lparr>kw_visual_seg := Some True, kw_actor_seg := Some True\<rparr> else kw)
        in if kuafu then Inl NotImplementedError
           else ebind (scene_camera_pcds (cameras s) kw1 (agent_get_camera_pcd s kw1))
                  (\<lambda>pcds. Inr \<lparr>pointcloud = merge_dicts (map snd pcds),
                                pc_agent = get_proprioception s,
                                pc_extra = get_obs_extra s\<rparr>))))"

subsection \<open>Robot segmentation variants\<close>

text \<open>The loop of \<^verbatim>\<open>_get_obs_rgbd_robot_seg\<close>:
  \<^verbatim>\<open>image["robot_seg"] = self._get_robot_seg(image.pop("actor_seg"))\<close> for every image;
  \<^verbatim>\<open>pop\<close> raises \<^verbatim>\<open>KeyError\<close> when the key is absent.\<close>

fun robot_seg_images :: "int list \<Rightarrow> (string \<times> camera_obs) list \<Rightarrow> error + (string \<times> camera_obs) list" where
  "robot_seg_images ids [] = Inr []"
| "robot_seg_images ids ((name, im) # rest) =
     (case actor_seg im of
        None \<Rightarrow> Inl KeyError
      | Some a \<Rightarrow>
          (case robot_seg_images ids rest of
             Inl e \<Rightarrow> Inl e
           | Inr rest' \<Rightarrow>
               Inr ((name, im\<lparr>actor_seg := None, robot_seg := Some (get_robot_seg ids a)\<rparr>) # rest')))"

definition get_obs_rgbd_robot_seg :: "sensing \<Rightarrow> error + rgbd_obs" where
  "get_obs_rgbd_robot_seg s =
     (case get_obs_rgbd s (no_kwargs\<lparr>kw_actor_seg := Some True\<rparr>) of
        Inl e \<Rightarrow> Inl e
      | Inr obs \<Rightarrow>
          (case robot_seg_images (robot_link_ids s) (obs_image obs) of
             Inl e \<Rightarrow> Inl e
           | Inr images \<Rightarrow> Inr (obs\<lparr>obs_image := images\<rparr>)))"

definition get_obs_pointcloud_robot_seg :: "sensing \<Rightarrow> error + pointcloud_obs" where
  "get_obs_pointcloud_robot_seg s =
     (case get_obs_pointcloud s (no_kwargs\<lparr>kw_actor_seg := Some True\<rparr>) of
        Inl e \<Rightarrow> Inl e
      | Inr obs \<Rightarrow>
          (case pcd_actor_seg (pointcloud obs) of
             None \<Rightarrow> Inl KeyError
           | Some a \<Rightarrow>
               Inr (obs\<lparr>pointcloud := (pointcloud obs)
                      \<lparr>pcd_actor_seg := None,
                       pcd_robot_seg := Some (get_robot_seg (robot_link_ids s) a)\<rparr>\<rparr>)))"

subsection \<open>Dispatch on the observation mode\<close>

text \<open>Modelled from the spec: \<^verbatim>\<open>mani_skill2.utils.common.flatten_state_dict\<close> is not among
  the sources. The nested dictionary is flattened into one vector by visiting its keys
  in insertion order.\<close>

fun flatten_state_dict :: "state_dict \<Rightarrow> real list" where
  "flatten_state_dict (Arr xs) = xs"
| "flatten_state_dict (Dict kvs) = concat (map (\<lambda>(k, v). flatten_state_dict v) kvs)"

datatype observation =
    ObsEmpty
  | ObsState "real list"
  | ObsStateDict state_dict
  | ObsRGBD rgbd_obs
  | ObsPointcloud pointcloud_obs

text \<open>\<^verbatim>\<open>BaseEnv._get_obs_state_dict\<close>.\<close>

definition get_obs_state_dict :: "sensing \<Rightarrow> state_dict" where
  "get_obs_state_dict s = Dict [(''agent'', get_proprioception s), (''extra'', get_obs_extra s)]"

text \<open>\<^verbatim>\<open>BaseEnv.get_obs\<close>: the \<^verbatim>\<open>if\<close>/\<^verbatim>\<open>elif\<close> chain over \<^verbatim>\<open>self._obs_mode\<close>.\<close>

definition get_obs :: "string \<Rightarrow> sensing \<Rightarrow> error + observation" where
  "get_obs obs_mode s =
     (if obs_mode = ''none'' then Inr ObsEmpty
      else if obs_mode = ''state'' then Inr (ObsState (flatten_state_dict (get_obs_state_dict s)))
      else if obs_mode = ''state_dict'' then Inr (ObsStateDict (get_obs_state_dict s))
      else if obs_mode = ''rgbd'' then map_sum id ObsRGBD (get_obs_rgbd s no_kwargs)
      else if obs_mode = ''pointcloud'' then map_sum id ObsPointcloud (get_obs_pointcloud s no_kwargs)
      else if obs_mode = ''rgbd_robot_seg'' then map_sum id ObsRGBD (get_obs_rgbd_robot_seg s)
      else if obs_mode = ''pointcloud_robot_seg''
        then map_sum id ObsPointcloud (get_obs_pointcloud_robot_seg s)
      else Inl NotImplementedError)"

subsection \<open>A concrete sensor rig\<close>

text \<open>An agent whose links have the ids 1 and 2 and whose own camera \<^verbatim>\<open>hand_camera\<close> sees
  the actor ids 0, 1, 2 and 5; the agent answers with the channels it is asked for. No
  scene camera is configured, and both flags have been assigned.\<close>

definition example_sensing :: "bool \<Rightarrow> sensing" where
  "example_sensing kuafu =
     \<lparr>enable_gt_seg = Some False, enable_kuafu = Some kuafu,
      cameras = [],
      agent_get_camera_images = (\<lambda>rgb_f depth_f visual_seg_f actor_seg_f.
        [(''hand_camera'',
          \<lparr>rgb = (if rgb_f then Some [[1, 0]] else None),
           depth = (if depth_f then Some [[2, 3]] else None),
           visual_seg = (if visual_seg_f then Some [[7, 7], [7, 7]] else None),
           actor_seg = (if actor_seg_f then Some [[0, 1], [2, 5]] else None),
           robot_seg = None, camera_intrinsic = Some [[1]], camera_extrinsic = Some [[1]]\<rparr>)]),
      agent_get_camera_pcd = (\<lambda>kw.
        [(''hand_camera'',
          \<lparr>xyzw = [[4, 5], [6, 7], [8, 9], [1, 1]],
           pcd_rgb = (if kw_default True (kw_rgb kw) then Some [[0], [0], [0], [0]] else None),
           pcd_visual_seg = (if kw_default False (kw_visual_seg kw)
                             then Some [[7], [7], [7], [7]] else None),
           pcd_actor_seg = (if kw_default False (kw_actor_seg kw)
                            then Some [[0], [1], [2], [5]] else None),
           pcd_robot_seg = None\<rparr>)]),
      robot_link_ids = [1, 2],
      get_proprioception = Dict [(''qpos'', Arr [0])],
      get_obs_extra = Dict []\<rparr>"

text \<open>A \<^verbatim>\<open>Camera\<close> wrapper of the kind \<^verbatim>\<open>_setup_cameras\<close> stores, for the rig with one
  configured scene camera.\<close>

definition example_camera :: "string \<Rightarrow> Camera" where
  "example_camera rtype =
     \<lparr>camera_cfg = example_cfg ''base_camera'', renderer_type = rtype, actor = None,
      camera = \<lparr>ce_name = PStr ''base_camera'', ce_mount = None,
                ce_pose = (PList [PFloat 0, PFloat 0, PFloat 1],
                           PList [PFloat 1, PFloat 0, PFloat 0, PFloat 0]),
                ce_width = PInt 128, ce_height = PInt 128, ce_fov = PFloat 1,
                ce_near = PFloat 0.01, ce_far = PFloat 10\<rparr>,
      texture_names = (if rtype = ''kuafu'' then PList [PStr ''Color'']
                       else PList [PStr ''Color'', PStr ''Position''])\<rparr>"

section \<open>The environment (envs/sapien\_env.py)\<close>

subsection \<open>State, collaborators and extension hooks\<close>

datatype warning = OnlyRgbSupported | NotDivisible int int

text \<open>The attributes of a \<^verbatim>\<open>BaseEnv\<close> object (the leading underscore of a name is
  dropped). \<open>warnings\<close> is what was passed to \<^verbatim>\<open>logger.warning\<close>; \<open>task\<close> stands for
  everything the agent and the concrete task class own (the agent object, goals, the
  agent's configuration); \<open>viewer\<close> says whether a viewer is attached. The two flags
  \<^verbatim>\<open>_enable_gt_seg\<close> and \<^verbatim>\<open>_enable_kuafu\<close> are \<open>None\<close> while the object has no such
  attribute.\<close>

record ('r, 'x) env =
  env_renderer_type :: string
  sim_freq :: int
  control_freq :: int
  sim_steps_per_control :: int
  obs_mode :: string
  reward_mode :: string
  control_mode :: pyval
  env_camera_cfgs :: "(string \<times> camera_config) list"
  enable_shadow :: bool
  env_enable_gt_seg :: "bool option"
  env_enable_kuafu :: "bool option"
  warnings :: "warning list"
  main_seed :: int
  main_rng :: 'r
  episode_seed :: int
  episode_rng :: 'r
  elapsed_steps :: int
  the_scene :: scene
  env_cameras :: "(string \<times> Camera) list"
  viewer :: bool
  actors :: "handle list"
  articulations :: "handle list"
  task :: 'x

text \<open>What an extension hook or a collaborator can touch: the two random generators
  (by drawing from them), the scene and the task-owned state.\<close>

record ('r, 'x) world =
  w_main_rng :: 'r
  w_episode_rng :: 'r
  w_scene :: scene
  w_task :: 'x

text \<open>What the agent and the task answer when the observation methods ask them, in the
  current scene and task state.\<close>

record readings =
  r_camera_images :: "bool \<Rightarrow> bool \<Rightarrow> bool \<Rightarrow> bool \<Rightarrow> (string \<times> camera_obs) list"
  r_camera_pcd :: "kwargs \<Rightarrow> (string \<times> pcd) list"
  r_robot_link_ids :: "int list"
  r_proprioception :: state_dict
  r_obs_extra :: state_dict

text \<open>The collaborators of the controller: NumPy's generator (\<^verbatim>\<open>RandomState(seed)\<close> and
  \<^verbatim>\<open>randint(2**32)\<close>, which returns the draw and advances the generator), the methods a
  concrete task overrides (they are \<^verbatim>\<open>pass\<close> or \<^verbatim>\<open>raise NotImplementedError\<close> in
  \<^verbatim>\<open>BaseEnv\<close>), the agent, the engine's physics tick, and the sensor readings.\<close>

record ('r, 'x) hooks =
  RandomState :: "int \<Rightarrow> 'r"
  randint :: "'r \<Rightarrow> int \<times> 'r"
  set_agent_cfg :: 'x
  get_camera_cfgs :: "(string \<times> camera_config) list"
  unset_agent :: "'x \<Rightarrow> 'x"
  load_agent :: "('r, 'x) world \<Rightarrow> ('r, 'x) world"
  load_actors :: "('r, 'x) world \<Rightarrow> ('r, 'x) world"
  load_articulations :: "('r, 'x) world \<Rightarrow> ('r, 'x) world"
  initialize_actors :: "('r, 'x) world \<Rightarrow> ('r, 'x) world"
  initialize_articulations :: "('r, 'x) world \<Rightarrow> ('r, 'x) world"
  initialize_agent :: "('r, 'x) world \<Rightarrow> ('r, 'x) world"
  initialize_task :: "('r, 'x) world \<Rightarrow> ('r, 'x) world"
  agent_control_mode :: "'x \<Rightarrow> string"
  agent_set_control_mode :: "string \<Rightarrow> ('r, 'x) world \<Rightarrow> ('r, 'x) world"
  agent_set_action :: "real list \<Rightarrow> ('r, 'x) world \<Rightarrow> ('r, 'x) world"
  before_control_step :: "('r, 'x) world \<Rightarrow> ('r, 'x) world"
  agent_before_simulation_step :: "('r, 'x) world \<Rightarrow> ('r, 'x) world"
  scene_step :: "('r, 'x) world \<Rightarrow> ('r, 'x) world"
  after_simulation_step :: "('r, 'x) world \<Rightarrow> ('r, 'x) world"
  evaluate :: "scene \<Rightarrow> 'x \<Rightarrow> bool"
  compute_dense_reward :: "scene \<Rightarrow> 'x \<Rightarrow> real"
  sense :: "scene \<Rightarrow> 'x \<Rightarrow> readings"

text \<open>Calling a hook on the environment.\<close>

definition run :: "(('r, 'x) world \<Rightarrow> ('r, 'x) world) \<Rightarrow> ('r, 'x) env \<Rightarrow> ('r, 'x) env" where
  "run h e =
     (let w = h \<lparr>w_main_rng = main_rng e, w_episode_rng = episode_rng e,
                 w_scene = the_scene e, w_task = task e\<rparr>
      in e\<lparr>main_rng := w_main_rng w, episode_rng := w_episode_rng w,
           the_scene := w_scene w, task := w_task w\<rparr>)"

subsection \<open>Seeding\<close>

text \<open>\<^verbatim>\<open>BaseEnv.seed(seed=None)\<close>. Without a seed, one is drawn from a freshly created,
  unseeded generator; \<open>entropy\<close> is that draw. Seeds that NumPy would reject are not
  told apart here: the environment itself calls \<^verbatim>\<open>seed\<close> with 2022 only.\<close>

definition seed :: "('r, 'x) hooks \<Rightarrow> int \<Rightarrow> int option \<Rightarrow> ('r, 'x) env \<Rightarrow> ('r, 'x) env" where
  "seed H entropy s e =
     (let s' = (case s of None \<Rightarrow> entropy | Some v \<Rightarrow> v)
      in e\<lparr>main_seed := s', main_rng := RandomState H s'\<rparr>)"

text \<open>\<^verbatim>\<open>np.random.RandomState(seed)\<close> with a seed given: NumPy accepts the integers from
  0 to \<^verbatim>\<open>2**32 - 1\<close> and raises \<^verbatim>\<open>ValueError\<close> for any other.\<close>

definition new_RandomState :: "('r, 'x) hooks \<Rightarrow> int \<Rightarrow> error + 'r" where
  "new_RandomState H v = (if 0 \<le> v \<and> v < 2 ^ 32 then Inr (RandomState H v) else Inl ValueError)"

text \<open>\<^verbatim>\<open>BaseEnv.set_episode_rng(seed)\<close>: the seed is the argument or, without one, a draw
  of the main generator (NumPy's \<^verbatim>\<open>randint(2**32)\<close> draws a seed it accepts); the episode
  generator is made from it.\<close>

definition set_episode_rng ::
  "('r, 'x) hooks \<Rightarrow> int option \<Rightarrow> ('r, 'x) env \<Rightarrow> error + ('r, 'x) env" where
  "set_episode_rng H s e =
     (case s of
        None \<Rightarrow>
          (case randint H (main_rng e) of
             (v, g) \<Rightarrow>
               ebind (new_RandomState H v)
                 (\<lambda>r. Inr (e\<lparr>main_rng := g, episode_seed := v, episode_rng := r\<rparr>)))
      | Some v \<Rightarrow>
          ebind (new_RandomState H v) (\<lambda>r. Inr (e\<lparr>episode_seed := v, episode_rng := r\<rparr>)))"

subsection \<open>Reconfigure\<close>

definition blank_actor :: actor_body where
  "blank_actor =
     \<lparr>actor_name = '''', actor_type = ''static'', pose_p = (0, 0, 0), pose_q = (1, 0, 0, 0),
      velocity = (0, 0, 0), angular_velocity = (0, 0, 0)\<rparr>"

definition blank_articulation :: articulation_body where
  "blank_articulation =
     \<lparr>articulation_name = '''', links = [], root_pose_p = (0, 0, 0),
      root_pose_q = (1, 0, 0, 0), root_velocity = (0, 0, 0),
      root_angular_velocity = (0, 0, 0), joints = []\<rparr>"

text \<open>A scene as \<^verbatim>\<open>engine.create_scene\<close> returns it: nothing in it.\<close>

definition empty_scene :: scene where
  "empty_scene =
     \<lparr>all_actors = [], all_articulations = [], actor_of = (\<lambda>h. blank_actor),
      articulation_of = (\<lambda>h. blank_articulation), scene_cameras = [], timestep = 0,
      lights = []\<rparr>"

text \<open>\<^verbatim>\<open>BaseEnv._clear\<close>: the viewer is closed, the agent, the cameras and the scene are
  dropped.\<close>

definition clear :: "('r, 'x) hooks \<Rightarrow> ('r, 'x) env \<Rightarrow> ('r, 'x) env" where
  "clear H e = e\<lparr>viewer := False, task := unset_agent H (task e), env_cameras := [],
                 the_scene := empty_scene\<rparr>"

text \<open>\<^verbatim>\<open>BaseEnv._setup_scene\<close>: a new scene whose time step is \<^verbatim>\<open>1.0 / self._sim_freq\<close>.\<close>

definition setup_scene :: "('r, 'x) env \<Rightarrow> error + ('r, 'x) env" where
  "setup_scene e =
     (if sim_freq e = 0 then Inl ZeroDivisionError
      else Inr (e\<lparr>the_scene := empty_scene\<lparr>timestep := 1 / real_of_int (sim_freq e)\<rparr>\<rparr>))"

text \<open>\<^verbatim>\<open>BaseEnv._setup_cameras\<close>: one \<^verbatim>\<open>Camera\<close> per configuration, in order.\<close>

fun setup_cameras_loop ::
  "(string \<times> camera_config) list \<Rightarrow> string \<Rightarrow> (string \<times> Camera) list \<Rightarrow> scene
     \<Rightarrow> error + ((string \<times> Camera) list \<times> scene)" where
  "setup_cameras_loop [] rtype cams sc = Inr (cams, sc)"
| "setup_cameras_loop ((uuid, cfg) # rest) rtype cams sc =
     ebind (Camera_init cfg sc rtype)
       (\<lambda>(c, sc'). setup_cameras_loop rest rtype (dict_set uuid c cams) sc')"

definition setup_cameras :: "('r, 'x) env \<Rightarrow> error + ('r, 'x) env" where
  "setup_cameras e =
     ebind (setup_cameras_loop (env_camera_cfgs e) (env_renderer_type e) [] (the_scene e))
       (\<lambda>(cams, sc). Inr (e\<lparr>env_cameras := cams, the_scene := sc\<rparr>))"

text \<open>\<^verbatim>\<open>BaseEnv._setup_lighting\<close>: two directional lights; only the first can have a
  shadow.\<close>

definition setup_lighting :: "('r, 'x) env \<Rightarrow> ('r, 'x) env" where
  "setup_lighting e = e\<lparr>the_scene := (the_scene e)\<lparr>lights := [enable_shadow e, False]\<rparr>\<rparr>"

text \<open>\<^verbatim>\<open>BaseEnv.reconfigure\<close>. (\<^verbatim>\<open>_clear\<close> has closed the viewer, so the test
  \<^verbatim>\<open>self._viewer is not None\<close> fails and \<^verbatim>\<open>_setup_viewer\<close>, which changes nothing here,
  is not called.) The last two statements cache the scene's enumeration of actors and
  articulations.\<close>

definition reconfigure :: "('r, 'x) hooks \<Rightarrow> ('r, 'x) env \<Rightarrow> error + ('r, 'x) env" where
  "reconfigure H e =
     ebind (setup_scene (clear H e)) (\<lambda>e1.
       (let e2 = run (load_articulations H) (run (load_actors H) (run (load_agent H) e1))
        in ebind (setup_cameras e2) (\<lambda>e3.
             (let e4 = setup_lighting e3
              in Inr (e4\<lparr>actors := all_actors (the_scene e4),
                         articulations := all_articulations (the_scene e4)\<rparr>)))))"

subsection \<open>Reset\<close>

text \<open>\<^verbatim>\<open>BaseEnv._clear_sim_state\<close>: velocities of all non-static actors and of all
  articulations of the scene are zeroed; poses and joint positions stay.\<close>

definition clear_actor :: "scene \<Rightarrow> handle \<Rightarrow> scene" where
  "clear_actor sc h =
     (if actor_type (actor_of sc h) \<noteq> ''static''
      then sc\<lparr>actor_of := (actor_of sc)
                (h := (actor_of sc h)\<lparr>velocity := (0, 0, 0), angular_velocity := (0, 0, 0)\<rparr>)\<rparr>
      else sc)"

definition clear_articulation :: "scene \<Rightarrow> handle \<Rightarrow> scene" where
  "clear_articulation sc h =
     sc\<lparr>articulation_of := (articulation_of sc)
          (h := (articulation_of sc h)
             \<lparr>root_velocity := (0, 0, 0), root_angular_velocity := (0, 0, 0),
              joints := map (\<lambda>(p, v). (p, 0)) (joints (articulation_of sc h))\<rparr>)\<rparr>"

definition clear_sim_state :: "scene \<Rightarrow> scene" where
  "clear_sim_state sc =
     (let sc1 = foldl clear_actor sc (all_actors sc)
      in foldl clear_articulation sc1 (all_articulations sc1))"

text \<open>\<^verbatim>\<open>BaseEnv.initialize_episode\<close>: the four initialisation hooks, in order.\<close>

definition initialize_episode :: "('r, 'x) hooks \<Rightarrow> ('r, 'x) env \<Rightarrow> ('r, 'x) env" where
  "initialize_episode H e =
     run (initialize_task H) (run (initialize_agent H)
       (run (initialize_articulations H) (run (initialize_actors H) e)))"

text \<open>What the observation methods read on an environment: its two flags, its
  \<^verbatim>\<open>_cameras\<close>, and the answers of the agent and the task in the current scene and task
  state.\<close>

definition env_sensing :: "('r, 'x) hooks \<Rightarrow> ('r, 'x) env \<Rightarrow> sensing" where
  "env_sensing H e =
     (let r = sense H (the_scene e) (task e)
      in \<lparr>enable_gt_seg = env_enable_gt_seg e, enable_kuafu = env_enable_kuafu e,
          cameras = env_cameras e,
          agent_get_camera_images = r_camera_images r,
          agent_get_camera_pcd = r_camera_pcd r,
          robot_link_ids = r_robot_link_ids r,
          get_proprioception = r_proprioception r,
          get_obs_extra = r_obs_extra r\<rparr>)"

text \<open>\<^verbatim>\<open>BaseEnv.get_obs\<close> on the environment: the dispatch on its observation mode.\<close>

definition env_get_obs :: "('r, 'x) hooks \<Rightarrow> ('r, 'x) env \<Rightarrow> error + observation" where
  "env_get_obs H e = get_obs (obs_mode e) (env_sensing H e)"

text \<open>\<^verbatim>\<open>BaseEnv.reset(seed=None, reconfigure=False)\<close>, in two parts. The first part runs up
  to the call of \<^verbatim>\<open>initialize_episode\<close>: the episode generator is set from the argument,
  the step counter is zeroed, the scene is rebuilt or its velocities cleared, and the
  episode generator is set again from the stored \<^verbatim>\<open>_episode_seed\<close>.\<close>

definition reset_prepare ::
  "('r, 'x) hooks \<Rightarrow> int option \<Rightarrow> bool \<Rightarrow> ('r, 'x) env \<Rightarrow> error + ('r, 'x) env" where
  "reset_prepare H s reconf e =
     ebind (set_episode_rng H s e) (\<lambda>e0.
       (let e1 = e0\<lparr>elapsed_steps := 0\<rparr>
        in ebind (if reconf then reconfigure H e1
                  else Inr (e1\<lparr>the_scene := clear_sim_state (the_scene e1)\<rparr>))
             (\<lambda>e2. set_episode_rng H (Some (episode_seed e2)) e2)))"

text \<open>The second part initialises the episode and returns the first observation.\<close>

definition reset ::
  "('r, 'x) hooks \<Rightarrow> int option \<Rightarrow> bool \<Rightarrow> ('r, 'x) env \<Rightarrow> error + (observation \<times> ('r, 'x) env)" where
  "reset H s reconf e =
     ebind (reset_prepare H s reconf e) (\<lambda>e3.
       (let e4 = initialize_episode H e3
        in ebind (env_get_obs H e4) (\<lambda>obs. Inr (obs, e4))))"

subsection \<open>Step\<close>

text \<open>An action: \<^verbatim>\<open>None\<close>, an array, a dictionary with \<^verbatim>\<open>control_mode\<close> and \<^verbatim>\<open>action\<close>,
  or a value of any other type.\<close>

datatype action = NoAction | ArrayAction "real list" | DictAction string "real list" | OtherAction

text \<open>\<^verbatim>\<open>for _ in range(n): body\<close>: the body runs \<open>n\<close> times, and not at all when \<open>n\<close> is
  negative.\<close>

fun repeat :: "nat \<Rightarrow> ('s \<Rightarrow> 's) \<Rightarrow> 's \<Rightarrow> 's" where
  "repeat 0 body s = s"
| "repeat (Suc n) body s = repeat n body (body s)"

definition for_range :: "int \<Rightarrow> ('s \<Rightarrow> 's) \<Rightarrow> 's \<Rightarrow> 's" where
  "for_range n body s = repeat (nat n) body s"

text \<open>One physics substep: the agent's hook, the engine's tick, the task's hook.\<close>

definition sim_step :: "('r, 'x) hooks \<Rightarrow> ('r, 'x) env \<Rightarrow> ('r, 'x) env" where
  "sim_step H e =
     run (after_simulation_step H) (run (scene_step H) (run (agent_before_simulation_step H) e))"

text \<open>The first part of \<^verbatim>\<open>BaseEnv.step_action\<close>: the action is handed to the agent, after
  a switch of the control mode when a dictionary names another one than the current.\<close>

definition apply_action :: "('r, 'x) hooks \<Rightarrow> action \<Rightarrow> ('r, 'x) env \<Rightarrow> error + ('r, 'x) env" where
  "apply_action H a e =
     (case a of
        NoAction \<Rightarrow> Inr e
      | ArrayAction v \<Rightarrow> Inr (run (agent_set_action H v) e)
      | DictAction m v \<Rightarrow>
          Inr (run (agent_set_action H v)
                (if m \<noteq> agent_control_mode H (task e)
                 then run (agent_set_control_mode H m) e else e))
      | OtherAction \<Rightarrow> Inl TypeError)"

text \<open>\<^verbatim>\<open>BaseEnv.step_action\<close>: then the hook before the control step and the loop
  \<^verbatim>\<open>for _ in range(self._sim_steps_per_control)\<close> over the physics substeps.\<close>

definition step_action :: "('r, 'x) hooks \<Rightarrow> action \<Rightarrow> ('r, 'x) env \<Rightarrow> error + ('r, 'x) env" where
  "step_action H a e =
     ebind (apply_action H a e)
       (\<lambda>e1. Inr (for_range (sim_steps_per_control e1) (sim_step H)
                    (run (before_control_step H) e1)))"

text \<open>\<^verbatim>\<open>BaseEnv.get_reward\<close>.\<close>

definition get_reward :: "('r, 'x) hooks \<Rightarrow> ('r, 'x) env \<Rightarrow> error + real" where
  "get_reward H e =
     (if reward_mode e = ''sparse''
        then Inr (if evaluate H (the_scene e) (task e) then 1 else 0)
      else if reward_mode e = ''dense''
        then Inr (compute_dense_reward H (the_scene e) (task e))
      else Inl NotImplementedError)"

text \<open>\<^verbatim>\<open>BaseEnv.step\<close>: the result is the observation, the reward, the done flag and the
  info (the step count and the success flag), with the new state.\<close>

definition step ::
  "('r, 'x) hooks \<Rightarrow> action \<Rightarrow> ('r, 'x) env
     \<Rightarrow> error + ((observation \<times> real \<times> bool \<times> (int \<times> bool)) \<times> ('r, 'x) env)" where
  "step H a e =
     ebind (step_action H a e) (\<lambda>e1.
       (let e2 = e1\<lparr>elapsed_steps := elapsed_steps e1 + 1\<rparr>
        in ebind (env_get_obs H e2) (\<lambda>obs.
             (let success = evaluate H (the_scene e2) (task e2);
                  info = (elapsed_steps e2, success)
              in ebind (get_reward H e2) (\<lambda>reward.
                   Inr ((obs, reward, success, info), e2))))))"

subsection \<open>Construction\<close>

definition SUPPORTED_OBS_MODES :: "string list" where
  "SUPPORTED_OBS_MODES =
     [''state'', ''state_dict'', ''none'', ''rgbd'', ''pointcloud'', ''rgbd_robot_seg'',
      ''pointcloud_robot_seg'']"

definition SUPPORTED_REWARD_MODES :: "string list" where
  "SUPPORTED_REWARD_MODES = [''dense'', ''sparse'']"

record init_args =
  a_obs_mode :: "string option"
  a_reward_mode :: "string option"
  a_control_mode :: pyval
  a_sim_freq :: int
  a_control_freq :: int
  a_renderer_type :: string
  a_enable_shadow :: bool

text \<open>The defaults of the constructor's signature.\<close>

definition default_args :: init_args where
  "default_args =
     \<lparr>a_obs_mode = None, a_reward_mode = None, a_control_mode = PNone, a_sim_freq = 500,
      a_control_freq = 20, a_renderer_type = ''vulkan'', a_enable_shadow = False\<rparr>"

text \<open>The frequency part of the constructor: \<^verbatim>\<open>sim_freq % control_freq\<close> raises
  \<^verbatim>\<open>ZeroDivisionError\<close> for a zero divisor; a remainder is logged as a warning; the
  number of substeps is the floor quotient.\<close>

definition set_frequencies :: "int \<Rightarrow> int \<Rightarrow> warning list \<Rightarrow> error + (int \<times> warning list)" where
  "set_frequencies sim ctl logged =
     (if ctl = 0 then Inl ZeroDivisionError
      else Inr (sim div ctl,
                if sim mod ctl \<noteq> 0 then logged @ [NotDivisible sim ctl] else logged))"

text \<open>The object as the constructor has it just before it calls \<^verbatim>\<open>seed\<close>: the
  configuration is stored; the attributes that \<^verbatim>\<open>seed\<close>, \<^verbatim>\<open>reset\<close> and \<^verbatim>\<open>reconfigure\<close>
  assign do not exist yet, and the record holds blanks for them, which are overwritten
  before they are read. The constructor assigns neither \<^verbatim>\<open>_enable_gt_seg\<close> nor
  \<^verbatim>\<open>_enable_kuafu\<close>, whatever the renderer type is.\<close>

definition new_env ::
  "('r, 'x) hooks \<Rightarrow> init_args \<Rightarrow> string \<Rightarrow> string \<Rightarrow> int \<Rightarrow> warning list \<Rightarrow> ('r, 'x) env" where
  "new_env H a om rm steps logged =
     \<lparr>env_renderer_type = a_renderer_type a,
      sim_freq = a_sim_freq a, control_freq = a_control_freq a,
      sim_steps_per_control = steps, obs_mode = om, reward_mode = rm,
      control_mode = a_control_mode a, env_camera_cfgs = get_camera_cfgs H,
      enable_shadow = a_enable_shadow a,
      env_enable_gt_seg = None, env_enable_kuafu = None, warnings = logged,
      main_seed = 0, main_rng = RandomState H 0,
      episode_seed = 0, episode_rng = RandomState H 0,
      elapsed_steps = 0, the_scene = empty_scene, env_cameras = [], viewer = False,
      actors = [], articulations = [], task = set_agent_cfg H\<rparr>"

text \<open>\<^verbatim>\<open>BaseEnv.__init__\<close>. The renderer type and the modes are validated, the agent and
  camera configurations are taken from the task, the main generator is seeded with 2022
  and the first reset reconfigures the scene. (The observation and action spaces derived
  from the first observation and from the agent are not part of the state here.)\<close>

definition init :: "('r, 'x) hooks \<Rightarrow> int \<Rightarrow> init_args \<Rightarrow> error + ('r, 'x) env" where
  "init H entropy a =
     (if a_renderer_type a \<noteq> ''vulkan'' \<and> a_renderer_type a \<noteq> ''kuafu''
      then Inl NotImplementedError
      else
        ebind (set_frequencies (a_sim_freq a) (a_control_freq a)
                 (if a_renderer_type a = ''kuafu'' then [OnlyRgbSupported] else []))
          (\<lambda>(steps, logged).
            (let om = (case a_obs_mode a of None \<Rightarrow> hd SUPPORTED_OBS_MODES | Some m \<Rightarrow> m)
             in if om \<notin> set SUPPORTED_OBS_MODES then Inl NotImplementedError
                else
                  (let rm = (case a_reward_mode a of
                               None \<Rightarrow> hd SUPPORTED_REWARD_MODES | Some m \<Rightarrow> m)
                   in if rm \<notin> set SUPPORTED_REWARD_MODES then Inl NotImplementedError
                      else
                        ebind (reset H None True
                                 (seed H entropy (Some 2022) (new_env H a om rm steps logged)))
                          (\<lambda>(obs, e). Inr e)))))"

subsection \<open>Simulation state\<close>

text \<open>Modelled from the spec: \<^verbatim>\<open>get_actor_state\<close>, \<^verbatim>\<open>get_articulation_state\<close>,
  \<^verbatim>\<open>set_actor_state\<close> and \<^verbatim>\<open>set_articulation_state\<close> of
  \<^verbatim>\<open>mani_skill2.utils.sapien_utils\<close> are not among the sources. An actor contributes a
  13-wide segment (position 3, orientation 4, linear velocity 3, angular velocity 3); an
  articulation contributes its 13-wide root segment, then its joint positions, then its
  joint velocities. Writing a segment back is the inverse and fails with a shape
  mismatch on a segment of another width.\<close>

definition vec3_list :: "vec3 \<Rightarrow> real list" where
  "vec3_list v = (case v of (x, y, z) \<Rightarrow> [x, y, z])"

definition quat_list :: "quat \<Rightarrow> real list" where
  "quat_list q = (case q of (w, x, y, z) \<Rightarrow> [w, x, y, z])"

definition get_actor_state :: "actor_body \<Rightarrow> real list" where
  "get_actor_state a =
     vec3_list (pose_p a) @ quat_list (pose_q a) @ vec3_list (velocity a)
       @ vec3_list (angular_velocity a)"

definition get_articulation_state :: "articulation_body \<Rightarrow> real list" where
  "get_articulation_state a =
     vec3_list (root_pose_p a) @ quat_list (root_pose_q a) @ vec3_list (root_velocity a)
       @ vec3_list (root_angular_velocity a) @ qpos a @ qvel a"

fun kinematic_of :: "real list \<Rightarrow> (vec3 \<times> quat \<times> vec3 \<times> vec3) option" where
  "kinematic_of [px, py, pz, qw, qx, qy, qz, vx, vy, vz, wx, wy, wz] =
     Some ((px, py, pz), (qw, qx, qy, qz), (vx, vy, vz), (wx, wy, wz))"
| "kinematic_of _ = None"

definition set_actor_state :: "handle \<Rightarrow> real list \<Rightarrow> scene \<Rightarrow> error + scene" where
  "set_actor_state h state sc =
     (case kinematic_of state of
        None \<Rightarrow> Inl ShapeMismatchError
      | Some (p, q, v, w) \<Rightarrow>
          Inr (sc\<lparr>actor_of := (actor_of sc)
                 (h := (actor_of sc h)\<lparr>pose_p := p, pose_q := q, velocity := v,
                                        angular_velocity := w\<rparr>)\<rparr>))"

definition set_articulation_state :: "handle \<Rightarrow> real list \<Rightarrow> scene \<Rightarrow> error + scene" where
  "set_articulation_state h state sc =
     (let n = dof (articulation_of sc h)
      in if length state \<noteq> 13 + 2 * n then Inl ShapeMismatchError
         else
           (case kinematic_of (take 13 state) of
              None \<Rightarrow> Inl ShapeMismatchError
            | Some (p, q, v, w) \<Rightarrow>
                Inr (sc\<lparr>articulation_of := (articulation_of sc)
                       (h := (articulation_of sc h)
                          \<lparr>root_pose_p := p, root_pose_q := q, root_velocity := v,
                           root_angular_velocity := w,
                           joints := zip (take n (drop 13 state)) (drop (13 + n) state)\<rparr>)\<rparr>)))"

text \<open>\<^verbatim>\<open>np.hstack\<close> of a list of one-dimensional arrays: their concatenation; NumPy
  raises \<^verbatim>\<open>ValueError\<close> when the list is empty.\<close>

definition hstack :: "real list list \<Rightarrow> error + real list" where
  "hstack arrays = (if arrays = [] then Inl ValueError else Inr (concat arrays))"

text \<open>\<^verbatim>\<open>BaseEnv.get_sim_state\<close>: the cached actors, then the cached articulations.\<close>

definition get_sim_state :: "('r, 'x) env \<Rightarrow> error + real list" where
  "get_sim_state e =
     hstack (map (\<lambda>h. get_actor_state (actor_of (the_scene e) h)) (actors e)
             @ map (\<lambda>h. get_articulation_state (articulation_of (the_scene e) h))
                 (articulations e))"

text \<open>The two loops of \<^verbatim>\<open>BaseEnv.set_sim_state\<close>. A slice \<^verbatim>\<open>state[start : start + n]\<close>
  never raises: it is cut at the end of the array.\<close>

definition KINEMANTIC_DIM :: nat where
  "KINEMANTIC_DIM = 13"

fun set_actors_loop :: "handle list \<Rightarrow> real list \<Rightarrow> nat \<Rightarrow> scene \<Rightarrow> error + (nat \<times> scene)" where
  "set_actors_loop [] state start sc = Inr (start, sc)"
| "set_actors_loop (h # hs) state start sc =
     ebind (set_actor_state h (take KINEMANTIC_DIM (drop start state)) sc)
       (\<lambda>sc'. set_actors_loop hs state (start + KINEMANTIC_DIM) sc')"

fun set_articulations_loop ::
  "handle list \<Rightarrow> real list \<Rightarrow> nat \<Rightarrow> scene \<Rightarrow> error + (nat \<times> scene)" where
  "set_articulations_loop [] state start sc = Inr (start, sc)"
| "set_articulations_loop (h # hs) state start sc =
     (let ndim = KINEMANTIC_DIM + 2 * dof (articulation_of sc h)
      in ebind (set_articulation_state h (take ndim (drop start state)) sc)
           (\<lambda>sc'. set_articulations_loop hs state (start + ndim) sc'))"

text \<open>\<^verbatim>\<open>BaseEnv.set_sim_state\<close>; \<open>set_sim_state_consumed\<close> also reports the final value of
  \<^verbatim>\<open>start\<close>, the number of values the loops have walked over.\<close>

definition set_sim_state_consumed :: "('r, 'x) env \<Rightarrow> real list \<Rightarrow> error + (nat \<times> ('r, 'x) env)" where
  "set_sim_state_consumed e state =
     ebind (set_actors_loop (actors e) state 0 (the_scene e)) (\<lambda>(start, sc).
     ebind (set_articulations_loop (articulations e) state start sc) (\<lambda>(start', sc').
       Inr (start', e\<lparr>the_scene := sc'\<rparr>)))"

definition set_sim_state :: "('r, 'x) env \<Rightarrow> real list \<Rightarrow> error + ('r, 'x) env" where
  "set_sim_state e state = map_sum id snd (set_sim_state_consumed e state)"

text \<open>The length of the layout that the cached snapshot implies.\<close>

definition layout_length :: "('r, 'x) env \<Rightarrow> nat" where
  "layout_length e =
     13 * length (actors e)
       + sum_list (map (\<lambda>h. 13 + 2 * dof (articulation_of (the_scene e) h)) (articulations e))"

subsection \<open>A concrete task\<close>

text \<open>A toy generator (its state is a number; seeding stores the seed, a draw returns a
  value computed from the state and advances it) and a small task: the robot
  articulation of two joints, one cube whose position the episode generator decides, a
  goal drawn from the episode generator, and a counter of physics ticks. The task state
  is the pair of the tick counter and the goal.\<close>

definition example_hooks :: "(int, nat \<times> real) hooks" where
  "example_hooks =
     \<lparr>RandomState = (\<lambda>s. s),
      randint = (\<lambda>g. ((g * 1103515245 + 12345) mod 4294967296, g + 1)),
      set_agent_cfg = (0, 0),
      get_camera_cfgs = [(''cam1'', example_cfg ''cam1'')],
      unset_agent = (\<lambda>x. x),
      load_agent = (\<lambda>w. w\<lparr>w_scene := (w_scene w)
          \<lparr>all_articulations := [2],
           articulation_of := (articulation_of (w_scene w))(2 := example_articulation)\<rparr>\<rparr>),
      load_actors = (\<lambda>w. w\<lparr>w_scene := (w_scene w)
          \<lparr>all_actors := [1],
           actor_of := (actor_of (w_scene w))(1 := example_actor ''cube'')\<rparr>\<rparr>),
      load_articulations = (\<lambda>w. w),
      initialize_actors = (\<lambda>w. w\<lparr>w_episode_rng := w_episode_rng w + 1,
          w_scene := (w_scene w)\<lparr>actor_of := (actor_of (w_scene w))
            (1 := (example_actor ''cube'')\<lparr>pose_p := (real_of_int (w_episode_rng w), 0, 0)\<rparr>)\<rparr>\<rparr>),
      initialize_articulations = (\<lambda>w. w),
      initialize_agent = (\<lambda>w. w\<lparr>w_scene := (w_scene w)
          \<lparr>articulation_of := (articulation_of (w_scene w))(2 := example_articulation)\<rparr>\<rparr>),
      initialize_task = (\<lambda>w. w\<lparr>w_episode_rng := w_episode_rng w + 1,
          w_task := (fst (w_task w), real_of_int (w_episode_rng w))\<rparr>),
      agent_control_mode = (\<lambda>x. ''pd_joint_pos''),
      agent_set_control_mode = (\<lambda>m w. w),
      agent_set_action = (\<lambda>v w. w),
      before_control_step = (\<lambda>w. w),
      agent_before_simulation_step = (\<lambda>w. w),
      scene_step = (\<lambda>w. w\<lparr>w_task := (Suc (fst (w_task w)), snd (w_task w))\<rparr>),
      after_simulation_step = (\<lambda>w. w),
      evaluate = (\<lambda>sc x. False),
      compute_dense_reward = (\<lambda>sc x. 0),
      sense = (\<lambda>sc x.
          \<lparr>r_camera_images = agent_get_camera_images (example_sensing False),
           r_camera_pcd = agent_get_camera_pcd (example_sensing False),
           r_robot_link_ids = [1, 2],
           r_proprioception = Dict [(''qpos'', Arr (qpos (articulation_of sc 2)))],
           r_obs_extra = Dict [(''goal'', Arr [snd x]),
                               (''cube'', Arr (vec3_list (pose_p (actor_of sc 1))))]\<rparr>)\<rparr>"

subsection \<open>Episode initialisation as a function of the world\<close>

text \<open>The world an environment presents to its hooks, and the four initialisation hooks
  of \<^verbatim>\<open>initialize_episode\<close> composed on it.\<close>

definition world_of :: "('r, 'x) env \<Rightarrow> ('r, 'x) world" where
  "world_of e =
     \<lparr>w_main_rng = main_rng e, w_episode_rng = episode_rng e, w_scene = the_scene e,
      w_task = task e\<rparr>"

definition initialize_world :: "('r, 'x) hooks \<Rightarrow> ('r, 'x) world \<Rightarrow> ('r, 'x) world" where
  "initialize_world H w =
     initialize_task H (initialize_agent H (initialize_articulations H (initialize_actors H w)))"

text \<open>The contract of the initialisation hooks: what the sensors read after them is
  decided by the episode generator they start from, and by nothing else of the world.\<close>

definition episode_rng_driven :: "('r, 'x) hooks \<Rightarrow> bool" where
  "episode_rng_driven H =
     (\<forall>w w'. w_episode_rng w = w_episode_rng w' \<longrightarrow>
        sense H (w_scene (initialize_world H w)) (w_task (initialize_world H w))
          = sense H (w_scene (initialize_world H w')) (w_task (initialize_world H w')))"

subsection \<open>A concrete environment\<close>

text \<open>The environment of the concrete task with the default arguments, as a reconfigure
  leaves it: the scene holds the cube and the robot, and both are in the cached
  snapshot.\<close>

definition example_env :: "(int, nat \<times> real) env" where
  "example_env =
     (new_env example_hooks default_args ''state'' ''dense'' 25 [])
       \<lparr>the_scene := example_scene, actors := [1], articulations := [2]\<rparr>"

text \<open>The concrete task with the initialisation hooks of \<^verbatim>\<open>BaseEnv\<close> itself, which are
  \<^verbatim>\<open>pass\<close>, and with a physics tick that lets the cube fall by one unit.\<close>

definition pass_hooks :: "(int, nat \<times> real) hooks" where
  "pass_hooks = example_hooks
     \<lparr>initialize_actors := (\<lambda>w. w), initialize_articulations := (\<lambda>w. w),
      initialize_agent := (\<lambda>w. w), initialize_task := (\<lambda>w. w),
      scene_step := (\<lambda>w. w\<lparr>w_scene := (w_scene w)\<lparr>actor_of := (actor_of (w_scene w))
         (1 := (actor_of (w_scene w) 1)
            \<lparr>pose_p := (case pose_p (actor_of (w_scene w) 1) of (x, y, z) \<Rightarrow> (x, y, z - 1))\<rparr>)\<rparr>\<rparr>)\<rparr>"

text \<open>A task that loads nothing: the hooks of \<^verbatim>\<open>BaseEnv\<close> itself, which are \<^verbatim>\<open>pass\<close>.\<close>

definition empty_hooks :: "(int, nat \<times> real) hooks" where
  "empty_hooks = example_hooks\<lparr>load_agent := (\<lambda>w. w), load_actors := (\<lambda>w. w)\<rparr>"

section \<open>Properties\<close>

lemma mul_mask_isin_row:
  "map (\<lambda>(x, b). x * of_bool b) (zip row (map (\<lambda>x. uint x \<in> set ids) row))
     = map (\<lambda>x. if uint x \<in> set ids then x else 0) (row :: 32 word list)"
  by (induction row) auto

lemma get_robot_seg_pointwise:
  "get_robot_seg ids a = map (map (\<lambda>x. if uint x \<in> set ids then x else 0)) a"
proof -
  have "map (\<lambda>(row, mrow). map (\<lambda>(x, b). x * of_bool b) (zip row mrow))
          (zip a (map (map (\<lambda>x. uint x \<in> set ids)) a))
        = map (map (\<lambda>x. if uint x \<in> set ids then x else 0)) a"
    by (induction a) (simp_all add: mul_mask_isin_row)
  then show ?thesis
    by (simp add: get_robot_seg_def mul_mask_def isin_def)
qed

subsection \<open>Dictionaries\<close>

lemma map_of_dict_set: "map_of (dict_set k v d) = (map_of d)(k \<mapsto> v)"
  by (induction d) (auto simp: fun_eq_iff)

subsection \<open>Renderer capability and the observation modes\<close>

lemma scene_camera_images_Inr:
  "scene_camera_images cams r d v a obs_dict = Inr ims \<Longrightarrow> cams = [] \<and> ims = obs_dict"
  by (cases cams) (auto simp: get_camera_images_params_def ebind_def)

lemma scene_camera_pcds_Inr:
  "scene_camera_pcds cams kw pcds = Inr ps \<Longrightarrow> cams = [] \<and> ps = pcds"
  by (cases cams) (auto simp: get_camera_pcd_world_def ebind_def)

lemma get_obs_rgbd_Inr:
  assumes "get_obs_rgbd s kw = Inr obs"
  shows "enable_gt_seg s \<noteq> None \<and> enable_kuafu s \<noteq> None \<and> cameras s = []"
  using assms
  by (auto simp: get_obs_rgbd_def get_obs_images_def read_attribute_def ebind_def Let_def
      split: option.splits sum.splits dest: scene_camera_images_Inr)

lemma get_obs_pointcloud_Inr:
  assumes "get_obs_pointcloud s kw = Inr obs"
  shows "enable_gt_seg s \<noteq> None \<and> enable_kuafu s = Some False \<and> cameras s = []"
  using assms
  by (auto simp: get_obs_pointcloud_def read_attribute_def ebind_def Let_def
      split: option.splits sum.splits if_splits dest: scene_camera_pcds_Inr)

lemma get_obs_rgbd_unassigned:
  "enable_gt_seg s = None \<or> enable_kuafu s = None \<Longrightarrow> get_obs_rgbd s kw = Inl AttributeError"
  by (auto simp: get_obs_rgbd_def read_attribute_def ebind_def split: option.splits)

lemma get_obs_pointcloud_unassigned:
  "enable_gt_seg s = None \<or> enable_kuafu s = None \<Longrightarrow>
     get_obs_pointcloud s kw = Inl AttributeError"
  by (auto simp: get_obs_pointcloud_def read_attribute_def ebind_def split: option.splits)

lemma get_obs_image_modes_unassigned:
  assumes "enable_gt_seg s = None \<or> enable_kuafu s = None"
    and "m \<in> {''rgbd'', ''pointcloud'', ''rgbd_robot_seg'', ''pointcloud_robot_seg''}"
  shows "get_obs m s = Inl AttributeError"
  using assms(2)
  by (auto simp: get_obs_def get_obs_rgbd_robot_seg_def get_obs_pointcloud_robot_seg_def
      get_obs_rgbd_unassigned [OF assms(1)] get_obs_pointcloud_unassigned [OF assms(1)])

lemma get_obs_rgbd_scene_camera:
  "cameras s \<noteq> [] \<Longrightarrow> \<exists>e. get_obs_rgbd s kw = Inl e"
  using get_obs_rgbd_Inr [of s kw] by (cases "get_obs_rgbd s kw") auto

lemma get_obs_rgbd_kuafu:
  "enable_gt_seg s = Some g \<Longrightarrow> enable_kuafu s = Some True \<Longrightarrow> cameras s = [] \<Longrightarrow>
     get_obs_rgbd s kw =
       Inr \<lparr>obs_image = agent_get_camera_images s (kw_default True (kw_rgb kw)) False False False,
            obs_agent = get_proprioception s, obs_extra = get_obs_extra s\<rparr>"
  by (simp add: get_obs_rgbd_def get_obs_images_def read_attribute_def ebind_def Let_def
      kw_default_def)

lemma get_obs_pointcloud_kuafu:
  "enable_gt_seg s = Some g \<Longrightarrow> enable_kuafu s = Some True \<Longrightarrow>
     get_obs_pointcloud s kw = Inl NotImplementedError"
  by (simp add: get_obs_pointcloud_def read_attribute_def ebind_def Let_def)

subsection \<open>The robot segmentation mask\<close>

lemma robot_seg_images_Inr:
  "robot_seg_images ids ims = Inr ims' \<Longrightarrow>
     ims' = map (\<lambda>(n, im). (n, im\<lparr>actor_seg := None,
                 robot_seg := map_option (get_robot_seg ids) (actor_seg im)\<rparr>)) ims
     \<and> list_all (\<lambda>(n, im). actor_seg im \<noteq> None) ims"
  by (induction ids ims arbitrary: ims' rule: robot_seg_images.induct)
     (auto split: option.splits sum.splits)

lemma example_rgbd:
  "get_obs_rgbd (example_sensing False) (no_kwargs\<lparr>kw_actor_seg := Some True\<rparr>) =
   Inr \<lparr>obs_image = [(''hand_camera'',
           \<lparr>rgb = Some [[1, 0]], depth = Some [[2, 3]], visual_seg = None,
            actor_seg = Some [[0, 1], [2, 5]],
            robot_seg = None, camera_intrinsic = Some [[1]],
            camera_extrinsic = Some [[1]]\<rparr>)],
        obs_agent = Dict [(''qpos'', Arr [0])], obs_extra = Dict []\<rparr>"
  by (simp add: example_sensing_def get_obs_rgbd_def get_obs_images_def read_attribute_def
      ebind_def no_kwargs_def kw_default_def Let_def)

lemma example_rgbd_robot_seg:
  "get_obs_rgbd_robot_seg (example_sensing False) =
   Inr \<lparr>obs_image = [(''hand_camera'',
           \<lparr>rgb = Some [[1, 0]], depth = Some [[2, 3]], visual_seg = None, actor_seg = None,
            robot_seg = Some [[0, 1], [2, 0]], camera_intrinsic = Some [[1]],
            camera_extrinsic = Some [[1]]\<rparr>)],
        obs_agent = Dict [(''qpos'', Arr [0])], obs_extra = Dict []\<rparr>"
  by (simp add: get_obs_rgbd_robot_seg_def example_rgbd get_robot_seg_pointwise)
     (simp add: example_sensing_def)

lemma example_pointcloud:
  "get_obs_pointcloud (example_sensing False) (no_kwargs\<lparr>kw_actor_seg := Some True\<rparr>) =
   Inr \<lparr>pointcloud = \<lparr>xyzw = [[4, 5], [6, 7], [8, 9], [1, 1]],
          pcd_rgb = Some [[0], [0], [0], [0]], pcd_visual_seg = None,
          pcd_actor_seg = Some [[0], [1], [2], [5]], pcd_robot_seg = None\<rparr>,
        pc_agent = Dict [(''qpos'', Arr [0])], pc_extra = Dict []\<rparr>"
  by (simp add: example_sensing_def get_obs_pointcloud_def read_attribute_def ebind_def
      merge_dicts_def no_kwargs_def kw_default_def Let_def)

lemma example_pointcloud_robot_seg:
  "get_obs_pointcloud_robot_seg (example_sensing False) =
   Inr \<lparr>pointcloud = \<lparr>xyzw = [[4, 5], [6, 7], [8, 9], [1, 1]],
          pcd_rgb = Some [[0], [0], [0], [0]], pcd_visual_seg = None, pcd_actor_seg = None,
          pcd_robot_seg = Some [[0], [1], [2], [0]]\<rparr>,
        pc_agent = Dict [(''qpos'', Arr [0])], pc_extra = Dict []\<rparr>"
  by (simp add: get_obs_pointcloud_robot_seg_def example_pointcloud get_robot_seg_pointwise)
     (simp add: example_sensing_def)

text \<open>Claim C9, as the code has it. The derived mask has the shape of the raw
  actor-id array; it keeps the raw id where that id is one of the agent's link ids and is
  zero everywhere else, so it is nonzero exactly where the raw id is a nonzero member of
  the agent's id set. For raw ids 0, 1, 2, 5 and agent ids 1, 2 it is nonzero only at the
  ids 1 and 2. Where a robot-seg mode returns, the base mode has returned, the raw
  \<^verbatim>\<open>actor_seg\<close> channel is gone and \<^verbatim>\<open>robot_seg\<close> holds the mask of that raw channel (per
  image in the rgbd variant, on the fused point set in the pointcloud variant).\<close>

theorem robot_seg_mask:
  "shape (get_robot_seg ids a) = shape a
   \<and> get_robot_seg ids a = map (map (\<lambda>x. if uint x \<in> set ids then x else 0)) a
   \<and> map (map (\<lambda>x. x \<noteq> 0)) (get_robot_seg ids a)
       = map (map (\<lambda>x. uint x \<in> set ids \<and> x \<noteq> 0)) a
   \<and> get_robot_seg [1, 2] [[0, 1], [2, 5]] = [[0, 1], [2, 0]]
   \<and> (get_obs_rgbd_robot_seg s = Inr obs \<longrightarrow>
        (\<exists>base. get_obs_rgbd s (no_kwargs\<lparr>kw_actor_seg := Some True\<rparr>) = Inr base
           \<and> obs_image obs = map (\<lambda>(n, im). (n, im\<lparr>actor_seg := None,
                 robot_seg := map_option (get_robot_seg (robot_link_ids s)) (actor_seg im)\<rparr>))
               (obs_image base)))
   \<and> (get_obs_pointcloud_robot_seg s = Inr pobs \<longrightarrow>
        (\<exists>base raw. get_obs_pointcloud s (no_kwargs\<lparr>kw_actor_seg := Some True\<rparr>) = Inr base
           \<and> pcd_actor_seg (pointcloud base) = Some raw
           \<and> pointcloud pobs = (pointcloud base)\<lparr>pcd_actor_seg := None,
                 pcd_robot_seg := Some (get_robot_seg (robot_link_ids s) raw)\<rparr>))"
proof -
  have p: "get_robot_seg ids a = map (map (\<lambda>x. if uint x \<in> set ids then x else 0)) a"
    for ids a
    by (rule get_robot_seg_pointwise)
  have a: "shape (get_robot_seg ids a) = shape a"
    by (simp add: p shape_def)
  have c: "map (map (\<lambda>x. x \<noteq> 0)) (get_robot_seg ids a)
       = map (map (\<lambda>x. uint x \<in> set ids \<and> x \<noteq> 0)) a"
    by (simp add: p)
  have d: "get_robot_seg [1, 2] [[0, 1], [2, 5]] = [[0, 1], [2, 0]]"
    by (simp add: p)
  have e: "get_obs_rgbd_robot_seg s = Inr obs \<longrightarrow>
        (\<exists>base. get_obs_rgbd s (no_kwargs\<lparr>kw_actor_seg := Some True\<rparr>) = Inr base
           \<and> obs_image obs = map (\<lambda>(n, im). (n, im\<lparr>actor_seg := None,
                 robot_seg := map_option (get_robot_seg (robot_link_ids s)) (actor_seg im)\<rparr>))
               (obs_image base))"
    by (auto simp: get_obs_rgbd_robot_seg_def split: sum.splits dest: robot_seg_images_Inr)
  have f: "get_obs_pointcloud_robot_seg s = Inr pobs \<longrightarrow>
        (\<exists>base raw. get_obs_pointcloud s (no_kwargs\<lparr>kw_actor_seg := Some True\<rparr>) = Inr base
           \<and> pcd_actor_seg (pointcloud base) = Some raw
           \<and> pointcloud pobs = (pointcloud base)\<lparr>pcd_actor_seg := None,
                 pcd_robot_seg := Some (get_robot_seg (robot_link_ids s) raw)\<rparr>)"
    by (auto simp: get_obs_pointcloud_robot_seg_def split: sum.splits option.splits)
  from a p c d e f show ?thesis by blast
qed

text \<open>Witness for C9: on the example rig both robot-seg modes return, without the raw
  channel and with the mask of the ids 0, 1, 2, 5 against the agent ids 1, 2.\<close>

theorem robot_seg_mask_witness:
  "(\<exists>obs. get_obs_rgbd_robot_seg (example_sensing False) = Inr obs
       \<and> map (\<lambda>(n, im). (n, actor_seg im, robot_seg im)) (obs_image obs)
           = [(''hand_camera'', None, Some [[0, 1], [2, 0]])])
   \<and> (\<exists>pobs. get_obs_pointcloud_robot_seg (example_sensing False) = Inr pobs
       \<and> pcd_actor_seg (pointcloud pobs) = None
       \<and> pcd_robot_seg (pointcloud pobs) = Some [[0], [1], [2], [0]])"
proof -
  obtain obs where o: "get_obs_rgbd_robot_seg (example_sensing False) = Inr obs"
    by (simp add: example_rgbd_robot_seg)
  obtain pobs where p: "get_obs_pointcloud_robot_seg (example_sensing False) = Inr pobs"
    by (simp add: example_pointcloud_robot_seg)
  note m = robot_seg_mask [of "[1, 2]" "[[0, 1], [2, 5]]" "example_sensing False" obs pobs]
  from m o obtain rbase where
    rb: "get_obs_rgbd (example_sensing False) (no_kwargs\<lparr>kw_actor_seg := Some True\<rparr>) = Inr rbase"
      "obs_image obs = map (\<lambda>(n, im). (n, im\<lparr>actor_seg := None,
            robot_seg := map_option (get_robot_seg (robot_link_ids (example_sensing False)))
              (actor_seg im)\<rparr>)) (obs_image rbase)"
    by blast
  from rb(1) have "obs_image rbase = [(''hand_camera'',
           \<lparr>rgb = Some [[1, 0]], depth = Some [[2, 3]], visual_seg = None,
            actor_seg = Some [[0, 1], [2, 5]],
            robot_seg = None, camera_intrinsic = Some [[1]],
            camera_extrinsic = Some [[1]]\<rparr>)]"
    by (auto simp add: example_rgbd)
  with rb(2) have 1: "map (\<lambda>(n, im). (n, actor_seg im, robot_seg im)) (obs_image obs)
           = [(''hand_camera'', None, Some [[0, 1], [2, 0]])]"
    by (simp add: example_sensing_def get_robot_seg_pointwise)
  from m p obtain base raw where
    b: "get_obs_pointcloud (example_sensing False) (no_kwargs\<lparr>kw_actor_seg := Some True\<rparr>)
          = Inr base"
       "pcd_actor_seg (pointcloud base) = Some raw"
       "pointcloud pobs = (pointcloud base)\<lparr>pcd_actor_seg := None,
          pcd_robot_seg := Some (get_robot_seg (robot_link_ids (example_sensing False)) raw)\<rparr>"
    by blast
  from b(1) have "pointcloud base =
        \<lparr>xyzw = [[4, 5], [6, 7], [8, 9], [1, 1]], pcd_rgb = Some [[0], [0], [0], [0]],
         pcd_visual_seg = None, pcd_actor_seg = Some [[0], [1], [2], [5]],
         pcd_robot_seg = None\<rparr>"
    by (auto simp add: example_pointcloud)
  with b(2,3) have 2: "pcd_actor_seg (pointcloud pobs) = None
       \<and> pcd_robot_seg (pointcloud pobs) = Some [[0], [1], [2], [0]]"
    by (auto simp: example_sensing_def get_robot_seg_pointwise)
  show ?thesis
  proof (intro conjI)
    show "\<exists>obs. get_obs_rgbd_robot_seg (example_sensing False) = Inr obs
       \<and> map (\<lambda>(n, im). (n, actor_seg im, robot_seg im)) (obs_image obs)
           = [(''hand_camera'', None, Some [[0, 1], [2, 0]])]"
      using o 1 by (intro exI [of _ obs] conjI)
    show "\<exists>pobs. get_obs_pointcloud_robot_seg (example_sensing False) = Inr pobs
       \<and> pcd_actor_seg (pointcloud pobs) = None
       \<and> pcd_robot_seg (pointcloud pobs) = Some [[0], [1], [2], [0]]"
      using p 2 by (intro exI [of _ pobs]) simp
  qed
qed

text \<open>Counterexample to C9 as stated: the raw id 0 belongs to the agent's id set \<open>{0}\<close>,
  yet the mask is zero at that pixel, since the mask is the product of the raw id with
  the membership flag.\<close>

theorem robot_seg_mask_counterexample:
  "uint (([[0]] :: seg) ! 0 ! 0) \<in> set [0::int] \<and> get_robot_seg [0] [[0]] ! 0 ! 0 = 0"
  by (simp add: get_robot_seg_pointwise)

subsection \<open>Merging camera overrides\<close>

lemma map_of_dict_update: "map_of (dict_update cfg d) = map_of cfg ++ map_of (rev d)"
proof (induction d arbitrary: cfg)
  case Nil
  then show ?case by simp
next
  case (Cons a d)
  obtain k v where a: "a = (k, v)" by (cases a)
  show ?case
    by (auto simp: a Cons.IH map_of_dict_set fun_eq_iff map_add_def split: option.splits)
qed

lemma dict_update_append: "dict_update cfg (d1 @ d2) = dict_update (dict_update cfg d1) d2"
  by (induction cfg d1 rule: dict_update.induct) simp_all

lemma set_fst_dict_set: "fst ` set (dict_set k v d) = insert k (fst ` set d)"
proof (induction d)
  case Nil
  then show ?case by simp
next
  case (Cons a d)
  obtain k' v' where a: "a = (k', v')" by (cases a)
  show ?case using Cons.IH by (cases "k' = k") (auto simp: a)
qed

lemma setattr_Inr: "setattr cfg k v = Inr cfg' \<Longrightarrow> cfg' = dict_set k v cfg"
  by (auto simp: setattr_def split: if_splits pyval.splits)

lemma setattr_plain:
  "k \<notin> {''pose'', ''__weakref__'', ''__class__'', ''__dict__''} \<Longrightarrow>
     setattr cfg k v = Inr (dict_set k v cfg)"
  by (simp add: setattr_def)

lemma apply_to_all_None:
  "apply_to_all k v cfgs = (cfgs', None) \<Longrightarrow>
     cfgs' = map (\<lambda>(n, c). (n, dict_set k v c)) cfgs"
  by (induction k v cfgs arbitrary: cfgs' rule: apply_to_all.induct)
     (auto split: if_splits sum.splits prod.splits dest: setattr_Inr)

lemma apply_to_all_ok:
  "list_all (\<lambda>(n, c). hasattr c k) cfgs \<Longrightarrow>
   k \<notin> {''pose'', ''__weakref__'', ''__class__'', ''__dict__''} \<Longrightarrow>
     apply_to_all k v cfgs = (map (\<lambda>(n, c). (n, dict_set k v c)) cfgs, None)"
  by (induction k v cfgs rule: apply_to_all.induct) (auto simp: setattr_plain)

lemma map_fst_map_snd: "map fst (map (\<lambda>(n, c). (n, f c)) cfgs) = map fst cfgs"
  by (induction cfgs) auto

lemma apply_global_None:
  "apply_global items cfgs = (cfgs', None) \<Longrightarrow>
     cfgs' = map (\<lambda>(n, c). (n, dict_update c (global_items cfgs items))) cfgs"
proof (induction items cfgs arbitrary: cfgs' rule: apply_global.induct)
  case (1 camera_cfgs)
  then show ?case by (simp add: global_items_def)
next
  case (2 k v items camera_cfgs)
  show ?case
  proof (cases "k \<in> set (map fst camera_cfgs)")
    case True
    with 2 show ?thesis by (simp add: global_items_def)
  next
    case False
    with "2.prems" obtain c1 where
      a: "apply_to_all k v camera_cfgs = (c1, None)" and g: "apply_global items c1 = (cfgs', None)"
      by (auto split: prod.splits option.splits)
    from apply_to_all_None [OF a] have c1: "c1 = map (\<lambda>(n, c). (n, dict_set k v c)) camera_cfgs" .
    have names: "map fst c1 = map fst camera_cfgs" by (simp only: c1 map_fst_map_snd)
    from "2.IH"(2) [OF False a [symmetric] refl g] have "cfgs' = map (\<lambda>(n, c). (n, dict_update c (global_items c1 items))) c1"
      by simp
    then show ?thesis using False names
      by (simp add: c1 global_items_def case_prod_unfold)
  qed
qed

lemma map_of_map_snd:
  "map_of (map (\<lambda>(n, c). (n, f c)) cfgs) name = map_option f (map_of cfgs name)"
  by (induction cfgs) auto

lemma check_names_Inr:
  "check_names cfg xs = Inr ns \<Longrightarrow> xs = map PStr ns \<and> list_all (hasattr cfg) ns"
proof (induction xs arbitrary: ns)
  case Nil
  then show ?case by simp
next
  case (Cons x xs)
  from Cons.prems obtain n where x: "x = PStr n" and h: "hasattr cfg n"
    and m: "map_sum id ((#) n) (check_names cfg xs) = Inr ns"
    by (auto split: pyval.splits if_splits)
  from m obtain ns' where r: "check_names cfg xs = Inr ns'" and ns: "ns = n # ns'"
    by (cases "check_names cfg xs") auto
  from Cons.IH [OF r] show ?case by (simp add: x h ns)
qed

lemma check_names_error_kind:
  "check_names cfg xs = Inl e \<Longrightarrow> e = AssertionError \<or> e = TypeError"
proof (induction xs)
  case Nil
  then show ?case by simp
next
  case (Cons x xs)
  then show ?case
    by (cases "check_names cfg xs") (auto split: pyval.splits if_splits)
qed

lemma check_names_unknown:
  "list_ex (\<lambda>kk. \<not> hasattr cfg kk) (map fst d) \<Longrightarrow>
     \<exists>e. check_names cfg (map (PStr \<circ> fst) d) = Inl e"
proof (induction d)
  case Nil
  then show ?case by simp
next
  case (Cons a d)
  show ?case
  proof (cases "hasattr cfg (fst a)")
    case False
    then show ?thesis by simp
  next
    case True
    with Cons.prems have "list_ex (\<lambda>kk. \<not> hasattr cfg kk) (map fst d)" by simp
    from Cons.IH [OF this] obtain e where "check_names cfg (map (PStr \<circ> fst) d) = Inl e" ..
    then show ?thesis using True by (simp add: comp_def)
  qed
qed

lemma update_pairs_None:
  "update_pairs cfg ns = (cfg', None) \<Longrightarrow>
     cfg' = dict_update cfg (concat (map pair_of ns)) \<and> list_all (\<lambda>n. length n = 2) ns"
proof (induction ns arbitrary: cfg)
  case Nil
  then show ?case by simp
next
  case (Cons n ns)
  from Cons.prems obtain a b where n: "n = [a, b]"
    and r: "update_pairs (dict_set [a] (PStr [b]) cfg) ns = (cfg', None)"
    by (auto split: list.splits)
  from Cons.IH [OF r] show ?case by (simp add: n pair_of_def)
qed

lemma update_pairs_error_kind: "snd (update_pairs cfg ns) \<in> {None, Some ValueError}"
proof (induction ns arbitrary: cfg)
  case Nil
  then show ?case by simp
next
  case (Cons n ns)
  show ?case using Cons.IH by (auto split: list.splits)
qed

lemma block_pairs_names: "block_pairs (PList (map PStr ns)) = concat (map pair_of ns)"
  by (induction ns) (simp_all add: block_pairs_def)

lemma specific_step:
  assumes c: "ebind (iterate v) (check_names cfg) = Inr ns"
    and u: "dict_update_from cfg v ns = (cfg', None)"
  shows "cfg' = dict_update cfg (block_pairs v)"
proof (cases v)
  case (PDict d)
  with u show ?thesis by (simp add: dict_update_from_def block_pairs_def)
next
  case (PList xs)
  with c have "check_names cfg xs = Inr ns" by (simp add: iterate_def ebind_def)
  from check_names_Inr [OF this] have xs: "xs = map PStr ns" by simp
  from u PList have "update_pairs cfg ns = (cfg', None)" by (simp add: dict_update_from_def)
  from update_pairs_None [OF this] show ?thesis
    by (simp add: PList xs block_pairs_names)
next
  case (PStr s)
  with c have "check_names cfg (map (\<lambda>c. PStr [c]) s) = Inr ns" by (simp add: iterate_def ebind_def)
  from check_names_Inr [OF this] have "map (\<lambda>c. PStr [c]) s = map PStr ns" by simp
  then have ns: "ns = map (\<lambda>c. [c]) s" by (induction s arbitrary: ns) auto
  from u PStr have "update_pairs cfg ns = (cfg', None)" by (simp add: dict_update_from_def)
  from update_pairs_None [OF this] have "cfg' = dict_update cfg (concat (map pair_of ns))"
    and "list_all (\<lambda>n. length n = 2) ns" by simp_all
  then have "s = []" and "cfg' = cfg" using ns by (cases s; simp)+
  then show ?thesis by (simp add: PStr block_pairs_def)
next
  case PNone
  with c show ?thesis by (simp add: iterate_def ebind_def)
next
  case (PInt i)
  with c show ?thesis by (simp add: iterate_def ebind_def)
next
  case (PFloat r)
  with c show ?thesis by (simp add: iterate_def ebind_def)
qed

lemma apply_specific_None:
  "apply_specific items cfgs = (cfgs', None) \<Longrightarrow>
     map_of cfgs' name = map_option (\<lambda>c. dict_update c (block_items name items)) (map_of cfgs name)"
proof (induction items arbitrary: cfgs)
  case Nil
  then show ?case by (simp add: option.map_ident)
next
  case (Cons a items)
  obtain n v where a: "a = (n, v)" by (cases a)
  show ?case
  proof (cases "map_of cfgs n")
    case None
    with Cons.prems have "apply_specific items cfgs = (cfgs', None)" by (simp add: a)
    from Cons.IH [OF this] show ?thesis using None by (auto simp: a)
  next
    case (Some cfg)
    with Cons.prems obtain ns cfg1 where c: "ebind (iterate v) (check_names cfg) = Inr ns"
      and u: "dict_update_from cfg v ns = (cfg1, None)"
      and r: "apply_specific items (dict_set n cfg1 cfgs) = (cfgs', None)"
      by (auto simp: a split: sum.splits prod.splits option.splits)
    from specific_step [OF c u] have cfg1: "cfg1 = dict_update cfg (block_pairs v)" .
    from Cons.IH [OF r] show ?thesis using Some
      by (auto simp: a cfg1 map_of_dict_set dict_update_append)
  qed
qed

lemma update_None:
  assumes "update_camera_cfgs_from_dict camera_cfgs cfg_dict = (camera_cfgs', None)"
  shows "map_of camera_cfgs' name =
     map_option (\<lambda>c. dict_update (dict_update c (global_items camera_cfgs cfg_dict)) (block_items name cfg_dict))
       (map_of camera_cfgs name)"
proof -
  from assms obtain c1 where g: "apply_global cfg_dict camera_cfgs = (c1, None)"
    and s: "apply_specific cfg_dict c1 = (camera_cfgs', None)"
    by (auto simp: update_camera_cfgs_from_dict_def split: prod.splits option.splits)
  show ?thesis
    by (simp add: apply_specific_None [OF s] apply_global_None [OF g] map_of_map_snd option.map_comp comp_def)
qed

lemma fst_image_map_snd: "fst ` (\<lambda>(n, c). (n, f c)) ` A = fst ` A"
  by force

lemma block_items_other: "k \<noteq> name \<Longrightarrow> block_items name ((k, v) # items) = block_items name items"
  by simp

lemma near_example:
  assumes h: "list_all (\<lambda>(n, c). hasattr c ''near'') camera_cfgs"
    and nn: "''near'' \<notin> set (map fst camera_cfgs)"
    and c1: "''cam1'' \<in> set (map fst camera_cfgs)"
  shows "\<exists>camera_cfgs'.
     update_camera_cfgs_from_dict camera_cfgs
        [(''near'', v1), (''cam1'', PDict [(''near'', v2)])] = (camera_cfgs', None)
     \<and> (\<forall>n c. map_of camera_cfgs n = Some c \<longrightarrow>
           (\<exists>c'. map_of camera_cfgs' n = Some c'
              \<and> getattr c' ''near'' = Inr (if n = ''cam1'' then v2 else v1)))"
proof -
  let ?d = "[(''near'', v1), (''cam1'', PDict [(''near'', v2)])]"
  let ?c1 = "map (\<lambda>(n, c). (n, dict_set ''near'' v1 c)) camera_cfgs"
  have pl: "''near'' \<notin> {''pose'', ''__weakref__'', ''__class__'', ''__dict__''}" by simp
  have g: "apply_global ?d camera_cfgs = (?c1, None)"
    using nn c1 by (simp add: apply_to_all_ok [OF h pl] fst_image_map_snd)
  from c1 obtain c where c: "map_of camera_cfgs ''cam1'' = Some c"
    by (metis domD dom_map_of_conv_image_fst set_map)
  have n1: "map_of ?c1 ''near'' = None"
    using nn by (simp add: map_of_map_snd map_of_eq_None_iff)
  have m1: "map_of ?c1 ''cam1'' = Some (dict_set ''near'' v1 c)"
    by (simp add: map_of_map_snd c)
  have hs: "hasattr (dict_set ''near'' v1 c) ''near''"
    by (simp add: hasattr_def set_fst_dict_set)
  let ?r = "dict_set ''cam1'' (dict_update (dict_set ''near'' v1 c) [(''near'', v2)]) ?c1"
  have s: "apply_specific ?d ?c1 = (?r, None)"
    by (simp add: n1 m1 hs iterate_def ebind_def dict_update_from_def
        del: dict_update.simps dict_set.simps)
  have r: "update_camera_cfgs_from_dict camera_cfgs ?d = (?r, None)"
    by (simp add: update_camera_cfgs_from_dict_def g s
        del: apply_global.simps apply_specific.simps dict_update.simps dict_set.simps)
  have gi: "global_items camera_cfgs ?d = [(''near'', v1)]"
    using nn c1 by (simp add: global_items_def)
  have "\<exists>c'. map_of ?r n = Some c' \<and> getattr c' ''near'' = Inr (if n = ''cam1'' then v2 else v1)"
    if n: "map_of camera_cfgs n = Some c0" for n c0
  proof -
    have "map_of ?r n = Some (dict_update (dict_update c0 [(''near'', v1)]) (block_items n ?d))"
      using update_None [OF r, of n] by (simp only: gi n option.map)
    moreover have "n \<noteq> ''near''"
      using n nn by (metis domI dom_map_of_conv_image_fst set_map)
    then have "getattr (dict_update (dict_update c0 [(''near'', v1)]) (block_items n ?d)) ''near''
        = Inr (if n = ''cam1'' then v2 else v1)"
      by (simp add: getattr_def map_of_dict_set block_pairs_def)
    ultimately show ?thesis by blast
  qed
  with r show ?thesis by blast
qed

lemma hasattr_dict_set: "hasattr c k \<Longrightarrow> hasattr (dict_set k v c) = hasattr c"
  by (auto simp: hasattr_def fun_eq_iff set_fst_dict_set)

lemma hasattr_dict_update:
  "list_all (hasattr c) (map fst d) \<Longrightarrow> hasattr (dict_update c d) = hasattr c"
  by (induction c d rule: dict_update.induct) (simp_all add: hasattr_dict_set)

lemma signature_apply_to_all: "signature (fst (apply_to_all k v cfgs)) = signature cfgs"
proof (induction k v cfgs rule: apply_to_all.induct)
  case (1 k v)
  then show ?case by simp
next
  case (2 k v name cfg rest)
  show ?case
  proof (cases "hasattr cfg k")
    case False
    then show ?thesis by simp
  next
    case True
    show ?thesis
    proof (cases "setattr cfg k v")
      case (Inl e)
      then show ?thesis using True by simp
    next
      case (Inr cfg')
      from setattr_Inr [OF Inr] have "hasattr cfg' = hasattr cfg"
        by (simp add: hasattr_dict_set True)
      with "2.IH" [OF _ Inr] True show ?thesis
        by (auto simp: Inr signature_def split: prod.splits)
    qed
  qed
qed

lemma signature_apply_global: "signature (fst (apply_global items cfgs)) = signature cfgs"
proof (induction items cfgs rule: apply_global.induct)
  case (1 camera_cfgs)
  then show ?case by simp
next
  case (2 k v items camera_cfgs)
  show ?case
  proof (cases "k \<in> set (map fst camera_cfgs)")
    case True
    with 2 show ?thesis by simp
  next
    case False
    obtain c1 r where a: "apply_to_all k v camera_cfgs = (c1, r)" by (cases "apply_to_all k v camera_cfgs")
    have s1: "signature c1 = signature camera_cfgs"
      using signature_apply_to_all [of k v camera_cfgs] by (simp add: a)
    show ?thesis
    proof (cases r)
      case None
      from "2.IH"(2) [OF False a [symmetric] None] s1 show ?thesis
        using False by (simp add: a None)
    next
      case (Some e)
      then show ?thesis using False s1 by (simp add: a)
    qed
  qed
qed

lemma map_of_signature: "map_of (signature cfgs) name = map_option hasattr (map_of cfgs name)"
  by (simp add: signature_def map_of_map_snd)

lemma names_signature: "map fst (signature cfgs) = map fst cfgs"
  unfolding signature_def by (rule map_fst_map_snd)

lemma list_ex_signature:
  "list_ex (\<lambda>(n, c). \<not> hasattr c k) cfgs = list_ex (\<lambda>(n, h). \<not> h k) (signature cfgs)"
  by (induction cfgs) (auto simp: signature_def)

lemma unknown_global_signature:
  assumes "signature c1 = signature cfgs"
  shows "unknown_global c1 items = unknown_global cfgs items"
proof -
  from assms have "map fst c1 = map fst cfgs" by (metis names_signature)
  then show ?thesis
    by (simp add: unknown_global_def list_ex_signature assms)
qed

lemma unknown_specific_cong:
  assumes "\<And>k. k \<in> fst ` set items \<Longrightarrow>
     map_option hasattr (map_of c1 k) = map_option hasattr (map_of c2 k)"
  shows "unknown_specific c1 items = unknown_specific c2 items"
  using assms
proof (induction items)
  case Nil
  then show ?case by (simp add: unknown_specific_def)
next
  case (Cons a items)
  obtain k v where a: "a = (k, v)" by (cases a)
  from Cons.prems [of k] have e: "map_option hasattr (map_of c1 k) = map_option hasattr (map_of c2 k)"
    by (simp add: a)
  have h: "(case (map_of c1 k, v) of
          (Some c, PDict d) \<Rightarrow> list_ex (\<lambda>kk. \<not> hasattr c kk) (map fst d)
        | _ \<Rightarrow> False) = (case (map_of c2 k, v) of
          (Some c, PDict d) \<Rightarrow> list_ex (\<lambda>kk. \<not> hasattr c kk) (map fst d)
        | _ \<Rightarrow> False)"
    using e by (cases "map_of c1 k"; cases "map_of c2 k"; cases v) auto
  have "unknown_specific c1 items = unknown_specific c2 items"
    by (rule Cons.IH) (simp add: Cons.prems)
  then show ?case using h by (simp add: unknown_specific_def a)
qed

lemma unknown_specific_signature:
  assumes "signature c1 = signature cfgs"
  shows "unknown_specific c1 items = unknown_specific cfgs items"
  by (rule unknown_specific_cong) (metis assms map_of_signature)

lemma reseats_names:
  "map fst c1 = map fst cfgs \<Longrightarrow> reseats c1 items = reseats cfgs items"
  by (simp add: reseats_def)

lemma apply_to_all_unknown:
  "list_ex (\<lambda>(n, c). \<not> hasattr c k) cfgs \<Longrightarrow> snd (apply_to_all k v cfgs) \<noteq> None"
  by (induction k v cfgs rule: apply_to_all.induct) (auto split: sum.splits prod.splits)

lemma apply_global_unknown:
  "unknown_global cfgs items \<Longrightarrow> snd (apply_global items cfgs) \<noteq> None"
proof (induction items cfgs rule: apply_global.induct)
  case (1 camera_cfgs)
  then show ?case by (simp add: unknown_global_def)
next
  case (2 k v items camera_cfgs)
  show ?case
  proof (cases "k \<in> set (map fst camera_cfgs)")
    case True
    with 2 show ?thesis by (simp add: unknown_global_def)
  next
    case False
    obtain c1 r where a: "apply_to_all k v camera_cfgs = (c1, r)" by (cases "apply_to_all k v camera_cfgs")
    have s1: "signature c1 = signature camera_cfgs"
      using signature_apply_to_all [of k v camera_cfgs] by (simp add: a)
    show ?thesis
    proof (cases r)
      case (Some e)
      then show ?thesis using False by (simp add: a)
    next
      case None
      with apply_to_all_unknown [of k camera_cfgs v] a
      have "\<not> list_ex (\<lambda>(n, c). \<not> hasattr c k) camera_cfgs" by auto
      with "2.prems" have "unknown_global camera_cfgs items"
        by (auto simp: unknown_global_def)
      then have "unknown_global c1 items" by (simp add: unknown_global_signature [OF s1])
      from "2.IH"(2) [OF False a [symmetric] None this] show ?thesis
        using False by (simp add: a None)
    qed
  qed
qed

lemma map_of_dict_set_other: "k \<noteq> n \<Longrightarrow> map_of (dict_set n c cfgs) k = map_of cfgs k"
  by (simp add: map_of_dict_set)

lemma apply_specific_unknown:
  "distinct (map fst items) \<Longrightarrow> unknown_specific cfgs items \<Longrightarrow>
     snd (apply_specific items cfgs) \<noteq> None"
proof (induction items arbitrary: cfgs)
  case Nil
  then show ?case by (simp add: unknown_specific_def)
next
  case (Cons a items)
  obtain n v where a: "a = (n, v)" by (cases a)
  from Cons.prems(1) have d: "distinct (map fst items)" and nn: "n \<notin> fst ` set items"
    by (simp_all add: a)
  show ?case
  proof (cases "map_of cfgs n")
    case None
    with Cons.prems(2) have "unknown_specific cfgs items" by (simp add: unknown_specific_def a)
    from Cons.IH [OF d this] show ?thesis using None by (simp add: a)
  next
    case (Some cfg)
    show ?thesis
    proof (cases "ebind (iterate v) (check_names cfg)")
      case (Inl e)
      then show ?thesis using Some by (simp add: a)
    next
      case (Inr ns)
      obtain cfg1 r where u: "dict_update_from cfg v ns = (cfg1, r)"
        by (cases "dict_update_from cfg v ns")
      show ?thesis
      proof (cases r)
        case (Some e)
        then show ?thesis using \<open>map_of cfgs n = Some cfg\<close> Inr u by (simp add: a)
      next
        case None
        have head: "\<not> (case (map_of cfgs n, v) of
            (Some c, PDict d) \<Rightarrow> list_ex (\<lambda>kk. \<not> hasattr c kk) (map fst d) | _ \<Rightarrow> False)"
        proof (cases v)
          case (PDict dd)
          with Inr have "check_names cfg (map (PStr \<circ> fst) dd) = Inr ns"
            by (simp add: iterate_def ebind_def)
          with check_names_unknown [of cfg dd]
          have "\<not> list_ex (\<lambda>kk. \<not> hasattr cfg kk) (map fst dd)" by auto
          then show ?thesis using \<open>map_of cfgs n = Some cfg\<close> by (simp add: PDict)
        qed (simp_all add: \<open>map_of cfgs n = Some cfg\<close>)
        with Cons.prems(2) have "unknown_specific cfgs items"
          by (simp add: unknown_specific_def a)
        moreover have "unknown_specific (dict_set n cfg1 cfgs) items = unknown_specific cfgs items"
        proof (rule unknown_specific_cong)
          fix k assume "k \<in> fst ` set items"
          with nn have "k \<noteq> n" by auto
          then show "map_option hasattr (map_of (dict_set n cfg1 cfgs) k)
              = map_option hasattr (map_of cfgs k)"
            by (simp add: map_of_dict_set_other)
        qed
        ultimately have "unknown_specific (dict_set n cfg1 cfgs) items" by simp
        from Cons.IH [OF d this] show ?thesis
          using \<open>map_of cfgs n = Some cfg\<close> Inr u None by (simp add: a)
      qed
    qed
  qed
qed

lemma update_unknown:
  assumes "unknown_global cfgs cfg_dict \<or> unknown_specific cfgs cfg_dict"
    and "distinct (map fst cfg_dict)"
  shows "snd (update_camera_cfgs_from_dict cfgs cfg_dict) \<noteq> None"
proof -
  obtain c1 r where g: "apply_global cfg_dict cfgs = (c1, r)" by (cases "apply_global cfg_dict cfgs")
  have s1: "signature c1 = signature cfgs" using signature_apply_global [of cfg_dict cfgs] by (simp add: g)
  show ?thesis
  proof (cases r)
    case (Some e)
    then show ?thesis by (simp add: update_camera_cfgs_from_dict_def g)
  next
    case None
    with apply_global_unknown [of cfgs cfg_dict] g have "\<not> unknown_global cfgs cfg_dict" by auto
    with assms have "unknown_specific cfgs cfg_dict" by simp
    then have "unknown_specific c1 cfg_dict" by (simp add: unknown_specific_signature [OF s1])
    from apply_specific_unknown [OF assms(2) this] show ?thesis
      by (simp add: update_camera_cfgs_from_dict_def g None)
  qed
qed

lemma setattr_error_kind:
  "setattr cfg k v = Inl e \<Longrightarrow>
     (e = AttributeError \<or> e = TypeError)
     \<or> (e = SharedDictionary \<and> k = ''__dict__'' \<and> (case v of PDict d \<Rightarrow> True | _ \<Rightarrow> False))"
  by (auto simp: setattr_def split: if_splits pyval.splits)

lemma apply_to_all_error_kind:
  "snd (apply_to_all k v cfgs) = Some e \<Longrightarrow>
     e \<in> {AssertionError, AttributeError, TypeError}
     \<or> (e = SharedDictionary \<and> k = ''__dict__'' \<and> (case v of PDict d \<Rightarrow> True | _ \<Rightarrow> False))"
proof (induction k v cfgs rule: apply_to_all.induct)
  case (1 k v)
  then show ?case by simp
next
  case (2 k v name cfg rest)
  show ?case
  proof (cases "hasattr cfg k")
    case False
    with "2.prems" show ?thesis by simp
  next
    case True
    show ?thesis
    proof (cases "setattr cfg k v")
      case (Inl e')
      with "2.prems" True have "e' = e" by simp
      with setattr_error_kind [OF Inl] show ?thesis by auto
    next
      case (Inr cfg')
      with "2.prems" True have "snd (apply_to_all k v rest) = Some e"
        by (auto split: prod.splits)
      from "2.IH" [OF _ Inr this] True show ?thesis by simp
    qed
  qed
qed

lemma apply_global_error_kind:
  "snd (apply_global items cfgs) = Some e \<Longrightarrow>
     e \<in> {AssertionError, AttributeError, TypeError}
     \<or> (e = SharedDictionary \<and> reseats cfgs items)"
proof (induction items cfgs rule: apply_global.induct)
  case (1 camera_cfgs)
  then show ?case by simp
next
  case (2 k v items camera_cfgs)
  show ?case
  proof (cases "k \<in> set (map fst camera_cfgs)")
    case True
    with "2.prems" have "snd (apply_global items camera_cfgs) = Some e" by simp
    from "2.IH"(1) [OF True this]
    have "e \<in> {AssertionError, AttributeError, TypeError}
        \<or> (e = SharedDictionary \<and> reseats camera_cfgs items)" .
    moreover have "reseats camera_cfgs items \<Longrightarrow> reseats camera_cfgs ((k, v) # items)"
      by (simp add: reseats_def)
    ultimately show ?thesis by blast
  next
    case False
    obtain c1 r where a: "apply_to_all k v camera_cfgs = (c1, r)"
      by (cases "apply_to_all k v camera_cfgs")
    have names: "map fst c1 = map fst camera_cfgs"
      using signature_apply_to_all [of k v camera_cfgs] a by (metis fst_conv names_signature)
    show ?thesis
    proof (cases r)
      case None
      with "2.prems" False a have "snd (apply_global items c1) = Some e" by simp
      from "2.IH"(2) [OF False a [symmetric] None this]
      have "e \<in> {AssertionError, AttributeError, TypeError}
          \<or> (e = SharedDictionary \<and> reseats c1 items)" .
      moreover have "reseats c1 items = reseats camera_cfgs items"
        by (rule reseats_names [OF names])
      moreover have "reseats camera_cfgs items \<Longrightarrow> reseats camera_cfgs ((k, v) # items)"
        by (simp add: reseats_def)
      ultimately show ?thesis by blast
    next
      case (Some e')
      with "2.prems" False a have "e' = e" by simp
      with apply_to_all_error_kind [of k v camera_cfgs e] a Some False show ?thesis
        by (auto simp: reseats_def)
    qed
  qed
qed

lemma apply_specific_error_kind:
  "snd (apply_specific items cfgs) \<in> {None, Some AssertionError, Some TypeError, Some ValueError}"
proof (induction items arbitrary: cfgs)
  case Nil
  then show ?case by simp
next
  case (Cons a items)
  obtain n v where a: "a = (n, v)" by (cases a)
  show ?case
  proof (cases "map_of cfgs n")
    case None
    with Cons.IH [of cfgs] show ?thesis by (simp add: a)
  next
    case (Some cfg)
    show ?thesis
    proof (cases "ebind (iterate v) (check_names cfg)")
      case (Inl e)
      then have "e = AssertionError \<or> e = TypeError"
        by (cases "iterate v")
           (auto simp: ebind_def iterate_def split: pyval.splits dest: check_names_error_kind)
      then show ?thesis using Some Inl by (auto simp: a)
    next
      case (Inr ns)
      obtain cfg1 r where u: "dict_update_from cfg v ns = (cfg1, r)"
        by (cases "dict_update_from cfg v ns")
      have "r \<in> {None, Some ValueError}"
        using u update_pairs_error_kind [of cfg ns]
        by (auto simp: dict_update_from_def split: pyval.splits)
      with Cons.IH [of "dict_set n cfg1 cfgs"] show ?thesis
        using Some Inr u by (cases r) (auto simp: a)
    qed
  qed
qed

lemma update_error_kind:
  assumes "\<not> reseats cfgs cfg_dict"
  shows "snd (update_camera_cfgs_from_dict cfgs cfg_dict)
     \<in> {None, Some AssertionError, Some AttributeError, Some TypeError, Some ValueError}"
proof -
  obtain c1 r where g: "apply_global cfg_dict cfgs = (c1, r)" by (cases "apply_global cfg_dict cfgs")
  show ?thesis
  proof (cases r)
    case None
    then show ?thesis
      using apply_specific_error_kind [of cfg_dict c1]
      by (auto simp add: update_camera_cfgs_from_dict_def g)
  next
    case (Some e)
    with apply_global_error_kind [of cfg_dict cfgs e] g assms
    have "e \<in> {AssertionError, AttributeError, TypeError}" by auto
    then show ?thesis using Some
      by (auto simp add: update_camera_cfgs_from_dict_def g)
  qed
qed

lemma map_fst_dict_set: "map_of cfgs n = Some c \<Longrightarrow> map fst (dict_set n c' cfgs) = map fst cfgs"
  by (induction cfgs) (auto split: if_splits)

lemma names_apply_specific: "map fst (fst (apply_specific items cfgs)) = map fst cfgs"
proof (induction items arbitrary: cfgs)
  case Nil
  then show ?case by simp
next
  case (Cons a items)
  obtain n v where a: "a = (n, v)" by (cases a)
  show ?case
  proof (cases "map_of cfgs n")
    case None
    with Cons.IH [of cfgs] show ?thesis by (simp add: a)
  next
    case (Some cfg)
    show ?thesis
    proof (cases "ebind (iterate v) (check_names cfg)")
      case (Inl e)
      then show ?thesis using Some by (simp add: a)
    next
      case (Inr ns)
      obtain cfg1 r where u: "dict_update_from cfg v ns = (cfg1, r)"
        by (cases "dict_update_from cfg v ns")
      from Cons.IH [of "dict_set n cfg1 cfgs"] map_fst_dict_set [OF Some, of cfg1]
      show ?thesis using Some Inr u by (cases r) (auto simp: a)
    qed
  qed
qed

lemma names_update:
  "map fst (fst (update_camera_cfgs_from_dict cfgs cfg_dict)) = map fst cfgs"
proof -
  obtain c1 r where g: "apply_global cfg_dict cfgs = (c1, r)" by (cases "apply_global cfg_dict cfgs")
  have n1: "map fst c1 = map fst cfgs"
    using signature_apply_global [of cfg_dict cfgs] g by (metis fst_conv names_signature)
  show ?thesis
    using n1 names_apply_specific [of cfg_dict c1]
    by (cases r) (simp_all add: update_camera_cfgs_from_dict_def g)
qed

lemma apply_global_no_cameras: "apply_global items [] = ([], None)"
  by (induction items) auto

lemma apply_specific_no_cameras: "apply_specific items [] = ([], None)"
  by (induction items) auto

lemma update_no_cameras: "update_camera_cfgs_from_dict [] cfg_dict = ([], None)"
  by (simp add: update_camera_cfgs_from_dict_def apply_global_no_cameras apply_specific_no_cameras)

lemma map_of_dict_update_cases:
  "map_of (dict_update (dict_update cfg g) b) a =
     (case map_of (rev b) a of Some v \<Rightarrow> Some v
      | None \<Rightarrow> (case map_of (rev g) a of Some v \<Rightarrow> Some v | None \<Rightarrow> map_of cfg a))"
  by (simp add: map_of_dict_update map_add_def split: option.splits)

text \<open>Claim C7. When the merge succeeds, the configuration of every camera is its old
  one overlaid first with the global overrides (the keys of the override dictionary that
  name no camera, so each of them reaches every camera) and then with the entries of the
  blocks keyed by that camera's name: for each attribute, the camera's own block wins over
  a global value, which wins over the old value. In the scenario of the claim (every
  camera has the attribute \<^verbatim>\<open>near\<close>, one camera is called \<^verbatim>\<open>cam1\<close>) the merge of the global
  \<^verbatim>\<open>{near: 0.05}\<close> with the block \<^verbatim>\<open>{"cam1": {near: 0.2}}\<close> succeeds and leaves
  \<^verbatim>\<open>near = 0.2\<close> on \<^verbatim>\<open>cam1\<close> and \<^verbatim>\<open>near = 0.05\<close> on every other camera.\<close>

theorem override_precedence:
  "(update_camera_cfgs_from_dict camera_cfgs cfg_dict = (camera_cfgs', None) \<longrightarrow>
    map_of camera_cfgs name = Some cfg \<longrightarrow>
      (\<exists>cfg'. map_of camera_cfgs' name = Some cfg'
         \<and> cfg' = dict_update (dict_update cfg (global_items camera_cfgs cfg_dict))
                    (block_items name cfg_dict)
         \<and> (\<forall>a. map_of cfg' a =
               (case map_of (rev (block_items name cfg_dict)) a of
                  Some v \<Rightarrow> Some v
                | None \<Rightarrow> (case map_of (rev (global_items camera_cfgs cfg_dict)) a of
                             Some v \<Rightarrow> Some v
                           | None \<Rightarrow> map_of cfg a)))))
   \<and> (list_all (\<lambda>(n, c). hasattr c ''near'') camera_cfgs \<longrightarrow>
      ''near'' \<notin> set (map fst camera_cfgs) \<longrightarrow> ''cam1'' \<in> set (map fst camera_cfgs) \<longrightarrow>
       (\<exists>r. update_camera_cfgs_from_dict camera_cfgs
               [(''near'', PFloat 0.05), (''cam1'', PDict [(''near'', PFloat 0.2)])] = (r, None)
          \<and> (\<forall>n c. map_of camera_cfgs n = Some c \<longrightarrow>
                (\<exists>c'. map_of r n = Some c'
                   \<and> getattr c' ''near'' = Inr (if n = ''cam1'' then PFloat 0.2 else PFloat 0.05)))))"
proof (intro conjI impI)
  assume u: "update_camera_cfgs_from_dict camera_cfgs cfg_dict = (camera_cfgs', None)"
    and m: "map_of camera_cfgs name = Some cfg"
  let ?c = "dict_update (dict_update cfg (global_items camera_cfgs cfg_dict))
                    (block_items name cfg_dict)"
  have "map_of camera_cfgs' name = Some ?c"
    using update_None [OF u, of name] by (simp add: m)
  moreover have "\<forall>a. map_of ?c a =
               (case map_of (rev (block_items name cfg_dict)) a of
                  Some v \<Rightarrow> Some v
                | None \<Rightarrow> (case map_of (rev (global_items camera_cfgs cfg_dict)) a of
                             Some v \<Rightarrow> Some v
                           | None \<Rightarrow> map_of cfg a))"
    by (simp add: map_of_dict_update_cases)
  ultimately show "\<exists>cfg'. map_of camera_cfgs' name = Some cfg'
         \<and> cfg' = ?c
         \<and> (\<forall>a. map_of cfg' a =
               (case map_of (rev (block_items name cfg_dict)) a of
                  Some v \<Rightarrow> Some v
                | None \<Rightarrow> (case map_of (rev (global_items camera_cfgs cfg_dict)) a of
                             Some v \<Rightarrow> Some v
                           | None \<Rightarrow> map_of cfg a)))"
    by blast
next
  assume "list_all (\<lambda>(n, c). hasattr c ''near'') camera_cfgs"
    "''near'' \<notin> set (map fst camera_cfgs)" "''cam1'' \<in> set (map fst camera_cfgs)"
  from near_example [OF this, of "PFloat 0.05" "PFloat 0.2"]
  show "\<exists>r. update_camera_cfgs_from_dict camera_cfgs
               [(''near'', PFloat 0.05), (''cam1'', PDict [(''near'', PFloat 0.2)])] = (r, None)
          \<and> (\<forall>n c. map_of camera_cfgs n = Some c \<longrightarrow>
                (\<exists>c'. map_of r n = Some c'
                   \<and> getattr c' ''near'' = Inr (if n = ''cam1'' then PFloat 0.2 else PFloat 0.05)))"
    by blast
qed

text \<open>Witness for C7: two cameras built by the constructor with \<^verbatim>\<open>near = 0.01\<close>; after the
  merge \<^verbatim>\<open>cam1\<close> has 0.2, \<^verbatim>\<open>cam2\<close> has 0.05 and an attribute no override names keeps its
  value.\<close>

theorem override_precedence_witness:
  "\<exists>r c1 c2. update_camera_cfgs_from_dict example_cfgs
        [(''near'', PFloat 0.05), (''cam1'', PDict [(''near'', PFloat 0.2)])] = (r, None)
     \<and> map_of r ''cam1'' = Some c1 \<and> getattr c1 ''near'' = Inr (PFloat 0.2)
     \<and> map_of r ''cam2'' = Some c2 \<and> getattr c2 ''near'' = Inr (PFloat 0.05)
     \<and> getattr c2 ''far'' = Inr (PFloat 10)"
proof -
  have h: "list_all (\<lambda>(n, c). hasattr c ''near'') example_cfgs"
    by (simp add: example_cfgs_def example_cfg_def CameraConfig_def hasattr_def)
  have nn: "''near'' \<notin> set (map fst example_cfgs)" by (simp add: example_cfgs_def)
  have c1: "''cam1'' \<in> set (map fst example_cfgs)" by (simp add: example_cfgs_def)
  have m1: "map_of example_cfgs ''cam1'' = Some (example_cfg ''cam1'')"
    and m2: "map_of example_cfgs ''cam2'' = Some (example_cfg ''cam2'')"
    by (simp_all add: example_cfgs_def)
  note t = override_precedence [of example_cfgs _ _ _ _]
  from t h nn c1 obtain r where
    r: "update_camera_cfgs_from_dict example_cfgs
               [(''near'', PFloat 0.05), (''cam1'', PDict [(''near'', PFloat 0.2)])] = (r, None)"
    and all: "\<forall>n c. map_of example_cfgs n = Some c \<longrightarrow>
                (\<exists>c'. map_of r n = Some c'
                   \<and> getattr c' ''near'' = Inr (if n = ''cam1'' then PFloat 0.2 else PFloat 0.05))"
    by blast
  from all m1 obtain k1 where k1: "map_of r ''cam1'' = Some k1" "getattr k1 ''near'' = Inr (PFloat 0.2)"
    by fastforce
  from all m2 obtain k2 where k2: "map_of r ''cam2'' = Some k2" "getattr k2 ''near'' = Inr (PFloat 0.05)"
    by fastforce
  from override_precedence [of example_cfgs _ r "''cam2''" "example_cfg ''cam2''"] r m2
  have "k2 = dict_update (dict_update (example_cfg ''cam2'')
       (global_items example_cfgs [(''near'', PFloat 0.05), (''cam1'', PDict [(''near'', PFloat 0.2)])]))
       (block_items ''cam2'' [(''near'', PFloat 0.05), (''cam1'', PDict [(''near'', PFloat 0.2)])])"
    using k2(1) by auto
  then have "getattr k2 ''far'' = Inr (PFloat 10)"
    by (simp add: global_items_def example_cfgs_def example_cfg_def CameraConfig_def getattr_def)
  with r k1 k2 show ?thesis by blast
qed

lemma example_signature:
  "hasattr (example_cfg u) k =
     (k \<in> set [''uuid'', ''p'', ''q'', ''width'', ''height'', ''fov'', ''near'', ''far'',
                ''articulation_uuid'', ''actor_uuid'', ''texture_names'']
      \<or> k \<in> set class_attributes \<or> k \<in> set object_attributes)"
  by (simp add: hasattr_def example_cfg_def CameraConfig_def)

lemma bogus_unknown: "\<not> hasattr (example_cfg u) ''bogus''"
  by (simp add: example_signature class_attributes_def object_attributes_def)

text \<open>Overrides with names that \<^verbatim>\<open>object\<close> provides: \<^verbatim>\<open>__doc__\<close> is accepted and stored on
  every camera; \<^verbatim>\<open>__class__\<close> and \<^verbatim>\<open>__weakref__\<close> pass the check and fail in the
  assignment. A per-camera block that is an empty list or an empty string changes
  nothing; a block that is a number cannot be iterated.\<close>

lemma special_overrides:
  "update_camera_cfgs_from_dict example_cfgs [(''__doc__'', PInt 1)]
     = (map (\<lambda>(n, c). (n, dict_set ''__doc__'' (PInt 1) c)) example_cfgs, None)
   \<and> update_camera_cfgs_from_dict example_cfgs [(''__class__'', PInt 1)]
       = (example_cfgs, Some TypeError)
   \<and> update_camera_cfgs_from_dict example_cfgs [(''__weakref__'', PInt 1)]
       = (example_cfgs, Some AttributeError)
   \<and> update_camera_cfgs_from_dict example_cfgs [(''cam1'', PList [])] = (example_cfgs, None)
   \<and> update_camera_cfgs_from_dict example_cfgs [(''cam1'', PStr [])] = (example_cfgs, None)
   \<and> update_camera_cfgs_from_dict example_cfgs [(''cam1'', PStr ''p'')]
       = (example_cfgs, Some ValueError)
   \<and> update_camera_cfgs_from_dict example_cfgs [(''cam1'', PInt 3)]
       = (example_cfgs, Some TypeError)"
  by (simp add: update_camera_cfgs_from_dict_def example_cfgs_def example_signature
      class_attributes_def object_attributes_def setattr_def iterate_def ebind_def
      dict_update_from_def)

text \<open>Claim C8, as the code has it. When the override dictionary names an unknown
  attribute (a global key that some configured camera lacks, or a key in the block of a
  configured camera that this camera lacks) and no global key \<^verbatim>\<open>__dict__\<close> re-seats the
  instance dictionaries, the merge ends with an exception: an \<^verbatim>\<open>AssertionError\<close>, or an
  \<^verbatim>\<open>AttributeError\<close>, \<^verbatim>\<open>TypeError\<close> or \<^verbatim>\<open>ValueError\<close> that an earlier override raises.
  (The keys of the override dictionary are distinct, as those of a dictionary are.) The
  checks are made override by override, between the assignments, so nothing is promised
  about the configurations being untouched; what the merge never changes, failing or not,
  is the list of camera names. With no camera configured nothing is checked and the merge
  succeeds.\<close>

theorem unknown_attribute_fails:
  "(distinct (map fst cfg_dict) \<longrightarrow> \<not> reseats camera_cfgs cfg_dict \<longrightarrow>
    unknown_global camera_cfgs cfg_dict \<or> unknown_specific camera_cfgs cfg_dict \<longrightarrow>
      snd (update_camera_cfgs_from_dict camera_cfgs cfg_dict)
        \<in> {Some AssertionError, Some AttributeError, Some TypeError, Some ValueError})
   \<and> map fst (fst (update_camera_cfgs_from_dict camera_cfgs cfg_dict)) = map fst camera_cfgs
   \<and> update_camera_cfgs_from_dict [] cfg_dict = ([], None)"
proof (intro conjI impI)
  assume d: "distinct (map fst cfg_dict)" and r: "\<not> reseats camera_cfgs cfg_dict"
    and u: "unknown_global camera_cfgs cfg_dict \<or> unknown_specific camera_cfgs cfg_dict"
  from update_unknown [OF u d] update_error_kind [OF r]
  show "snd (update_camera_cfgs_from_dict camera_cfgs cfg_dict)
        \<in> {Some AssertionError, Some AttributeError, Some TypeError, Some ValueError}"
    by auto
next
  show "map fst (fst (update_camera_cfgs_from_dict camera_cfgs cfg_dict)) = map fst camera_cfgs"
    by (rule names_update)
next
  show "update_camera_cfgs_from_dict [] cfg_dict = ([], None)"
    by (rule update_no_cameras)
qed

text \<open>Witness for C8: an unknown global key and an unknown key in the block of
  \<^verbatim>\<open>cam2\<close>, each on the two-camera configuration set; both merges end with
  \<^verbatim>\<open>AssertionError\<close>.\<close>

theorem unknown_attribute_fails_witness:
  "distinct (map fst [(''bogus'', PInt 1)])
   \<and> \<not> reseats example_cfgs [(''bogus'', PInt 1)]
   \<and> unknown_global example_cfgs [(''bogus'', PInt 1)]
   \<and> unknown_specific example_cfgs [(''cam2'', PDict [(''near'', PFloat 0.2), (''bogus'', PInt 1)])]
   \<and> snd (update_camera_cfgs_from_dict example_cfgs [(''bogus'', PInt 1)])
       \<in> {Some AssertionError, Some AttributeError, Some TypeError, Some ValueError}
   \<and> snd (update_camera_cfgs_from_dict example_cfgs
        [(''cam2'', PDict [(''near'', PFloat 0.2), (''bogus'', PInt 1)])])
       \<in> {Some AssertionError, Some AttributeError, Some TypeError, Some ValueError}"
proof -
  have a: "unknown_global example_cfgs [(''bogus'', PInt 1)]"
    by (simp add: unknown_global_def example_cfgs_def bogus_unknown)
  have b: "unknown_specific example_cfgs [(''cam2'', PDict [(''near'', PFloat 0.2), (''bogus'', PInt 1)])]"
    by (simp add: unknown_specific_def example_cfgs_def bogus_unknown)
  have d: "distinct (map fst [(''bogus'', PInt 1)])"
    "distinct (map fst [(''cam2'', PDict [(''near'', PFloat 0.2), (''bogus'', PInt 1)])])"
    by simp_all
  have r: "\<not> reseats example_cfgs [(''bogus'', PInt 1)]"
    "\<not> reseats example_cfgs [(''cam2'', PDict [(''near'', PFloat 0.2), (''bogus'', PInt 1)])]"
    by (simp_all add: reseats_def)
  from a b d r unknown_attribute_fails [of "[(''bogus'', PInt 1)]" example_cfgs]
    unknown_attribute_fails [of "[(''cam2'', PDict [(''near'', PFloat 0.2), (''bogus'', PInt 1)])]" example_cfgs]
  show ?thesis by blast
qed

text \<open>Counterexample to C8 as stated: the global key \<^verbatim>\<open>near\<close> precedes the unknown key
  \<^verbatim>\<open>bogus\<close>. The merge raises \<^verbatim>\<open>AssertionError\<close>, and both cameras are left with
  \<^verbatim>\<open>near = 0.05\<close> instead of their 0.01. With an empty configuration set the unknown
  key raises nothing.\<close>

theorem unknown_attribute_counterexample:
  "snd (update_camera_cfgs_from_dict example_cfgs [(''near'', PFloat 0.05), (''bogus'', PInt 1)])
      = Some AssertionError
   \<and> map (\<lambda>(n, c). (n, getattr c ''near'')) example_cfgs
      = [(''cam1'', Inr (PFloat 0.01)), (''cam2'', Inr (PFloat 0.01))]
   \<and> map (\<lambda>(n, c). (n, getattr c ''near''))
        (fst (update_camera_cfgs_from_dict example_cfgs [(''near'', PFloat 0.05), (''bogus'', PInt 1)]))
      = [(''cam1'', Inr (PFloat 0.05)), (''cam2'', Inr (PFloat 0.05))]
   \<and> update_camera_cfgs_from_dict [] [(''bogus'', PInt 1)] = ([], None)"
  by (simp add: update_camera_cfgs_from_dict_def example_cfgs_def example_cfg_def CameraConfig_def
      hasattr_def class_attributes_def object_attributes_def setattr_def getattr_def)

subsection \<open>Mount resolution\<close>

lemma get_mount_actor_free_missing:
  "actor_uuid \<noteq> PNone \<Longrightarrow>
   \<forall>h \<in> set (all_actors sc). PStr (actor_name (actor_of sc h)) \<noteq> actor_uuid \<Longrightarrow>
   get_mount_actor sc PNone actor_uuid = Inr None"
  by (simp add: get_mount_actor_def get_entity_by_name_def find_None_iff)

text \<open>Claim C6 at its failing input: a configuration that names the free actor
  \<^verbatim>\<open>missing\<close> as mount, on a scene that has no such actor. \<^verbatim>\<open>get_mount_actor\<close> returns
  \<^verbatim>\<open>None\<close> and the constructor adds a free, world-fixed camera; nothing is raised. The
  lookups that succeed return the actor or link, and the branch with an articulation
  name raises for a missing link (\<^verbatim>\<open>RuntimeError\<close>) and for a missing articulation
  (\<^verbatim>\<open>AttributeError\<close>).\<close>

theorem mount_lookup_failure_free_camera:
  "get_mount_actor example_scene PNone (PStr ''missing'') = Inr None
   \<and> map_sum id (\<lambda>(c, sc). (actor c, ce_mount (camera c), map ce_mount (scene_cameras sc)))
        (Camera_init (mounted_cfg PNone (PStr ''missing'')) example_scene ''vulkan'')
       = Inr (None, None, [None])
   \<and> get_mount_actor example_scene PNone (PStr ''cube'') = Inr (Some 1)
   \<and> get_mount_actor example_scene (PStr ''robot'') (PStr ''hand'') = Inr (Some 11)
   \<and> get_mount_actor example_scene (PStr ''robot'') (PStr ''missing'') = Inl RuntimeError
   \<and> get_mount_actor example_scene (PStr ''nobody'') (PStr ''hand'') = Inl AttributeError"
  by (simp add: get_mount_actor_def get_entity_by_name_def example_scene_def example_actor_def
      example_articulation_def Camera_init_def mounted_cfg_def CameraConfig_def getattr_def
      ebind_def Let_def)

subsection \<open>The state codec: segment widths\<close>

lemma length_get_actor_state: "length (get_actor_state a) = 13"
  by (simp add: get_actor_state_def vec3_list_def quat_list_def split: prod.splits)

lemma length_get_articulation_state: "length (get_articulation_state a) = 13 + 2 * dof a"
  by (simp add: get_articulation_state_def vec3_list_def quat_list_def qpos_def qvel_def dof_def
      split: prod.splits)

lemma length_concat_actor_states:
  "length (concat (map (\<lambda>h. get_actor_state (f h)) hs)) = 13 * length hs"
  by (induction hs) (simp_all add: length_get_actor_state)

lemma length_concat_articulation_states:
  "length (concat (map (\<lambda>h. get_articulation_state (f h)) hs))
     = sum_list (map (\<lambda>h. 13 + 2 * dof (f h)) hs)"
  by (induction hs) (simp_all add: length_get_articulation_state)

lemma get_sim_state_eq:
  "get_sim_state e =
     (if actors e = [] \<and> articulations e = [] then Inl ValueError
      else Inr (concat (map (\<lambda>h. get_actor_state (actor_of (the_scene e) h)) (actors e))
                @ concat (map (\<lambda>h. get_articulation_state (articulation_of (the_scene e) h))
                    (articulations e))))"
  by (simp add: get_sim_state_def hstack_def)

lemma get_sim_state_length:
  "get_sim_state e = Inr v \<Longrightarrow> length v = layout_length e"
  by (auto simp: get_sim_state_eq layout_length_def length_concat_actor_states
      length_concat_articulation_states split: if_splits)

lemma run_cache: "actors (run h e) = actors e" "articulations (run h e) = articulations e"
  by (simp_all add: run_def Let_def)

lemma reconfigure_caches:
  "reconfigure H e = Inr e' \<Longrightarrow>
     actors e' = all_actors (the_scene e') \<and> articulations e' = all_articulations (the_scene e')"
  by (auto simp: reconfigure_def ebind_def Let_def split: sum.splits)

subsection \<open>Reset and seeding\<close>

lemma run_frame:
  "episode_seed (run h e) = episode_seed e"
  "main_seed (run h e) = main_seed e"
  "sim_steps_per_control (run h e) = sim_steps_per_control e"
  "warnings (run h e) = warnings e"
  "obs_mode (run h e) = obs_mode e"
  "elapsed_steps (run h e) = elapsed_steps e"
  "env_enable_gt_seg (run h e) = env_enable_gt_seg e"
  "env_enable_kuafu (run h e) = env_enable_kuafu e"
  by (simp_all add: run_def Let_def)

lemma reconfigure_frame:
  assumes "reconfigure H e = Inr e'"
  shows "episode_seed e' = episode_seed e" "main_seed e' = main_seed e"
    "sim_steps_per_control e' = sim_steps_per_control e" "warnings e' = warnings e"
    "obs_mode e' = obs_mode e" "elapsed_steps e' = elapsed_steps e"
    "env_enable_gt_seg e' = env_enable_gt_seg e" "env_enable_kuafu e' = env_enable_kuafu e"
  using assms
  by (auto simp: reconfigure_def ebind_def Let_def setup_scene_def clear_def setup_cameras_def
      setup_lighting_def run_frame split: sum.splits if_splits prod.splits)

lemma set_episode_rng_Some:
  "set_episode_rng H (Some s) e =
     (if 0 \<le> s \<and> s < 2 ^ 32 then Inr (e\<lparr>episode_seed := s, episode_rng := RandomState H s\<rparr>)
      else Inl ValueError)"
  by (simp add: set_episode_rng_def new_RandomState_def ebind_def)

lemma set_episode_rng_None:
  "set_episode_rng H None e = Inr e' \<Longrightarrow>
     e' = e\<lparr>main_rng := snd (randint H (main_rng e)), episode_seed := fst (randint H (main_rng e)),
            episode_rng := RandomState H (fst (randint H (main_rng e)))\<rparr>
     \<and> 0 \<le> fst (randint H (main_rng e)) \<and> fst (randint H (main_rng e)) < 2 ^ 32"
  by (auto simp: set_episode_rng_def new_RandomState_def ebind_def split: prod.splits if_splits)

lemma set_episode_rng_frame:
  assumes "set_episode_rng H s e = Inr e'"
  shows "sim_steps_per_control e' = sim_steps_per_control e"
    "warnings e' = warnings e" "obs_mode e' = obs_mode e"
    "env_enable_gt_seg e' = env_enable_gt_seg e" "env_enable_kuafu e' = env_enable_kuafu e"
    "main_seed e' = main_seed e" "elapsed_steps e' = elapsed_steps e"
    "the_scene e' = the_scene e"
  using assms
  by (auto simp: set_episode_rng_def new_RandomState_def ebind_def
      split: option.splits prod.splits if_splits)

lemma reset_prepare_parts:
  assumes "reset_prepare H s reconf e = Inr e'"
  shows "\<exists>e0 e2. set_episode_rng H s e = Inr e0
     \<and> (if reconf then reconfigure H (e0\<lparr>elapsed_steps := 0\<rparr>)
         else Inr (e0\<lparr>elapsed_steps := 0,
                      the_scene := clear_sim_state (the_scene e0)\<rparr>)) = Inr e2
     \<and> set_episode_rng H (Some (episode_seed e2)) e2 = Inr e'"
  using assms
  by (cases "set_episode_rng H s e")
     (auto simp: reset_prepare_def Let_def ebind_def split: sum.splits if_splits)

lemma reset_prepare_seeded:
  assumes "reset_prepare H (Some s) reconf e = Inr e'"
  shows "episode_seed e' = s \<and> episode_rng e' = RandomState H s \<and> elapsed_steps e' = 0
     \<and> 0 \<le> s \<and> s < 2 ^ 32"
proof -
  from reset_prepare_parts [OF assms] obtain e0 e2 where
    s0: "set_episode_rng H (Some s) e = Inr e0"
    and m: "(if reconf then reconfigure H (e0\<lparr>elapsed_steps := 0\<rparr>)
         else Inr (e0\<lparr>elapsed_steps := 0,
                      the_scene := clear_sim_state (the_scene e0)\<rparr>)) = Inr e2"
    and s2: "set_episode_rng H (Some (episode_seed e2)) e2 = Inr e'" by blast
  from s0 have v: "0 \<le> s \<and> s < 2 ^ 32" and e0: "episode_seed e0 = s"
    by (auto simp: set_episode_rng_Some split: if_splits)
  have "episode_seed e2 = s \<and> elapsed_steps e2 = 0"
  proof (cases reconf)
    case True
    with m have r: "reconfigure H (e0\<lparr>elapsed_steps := 0\<rparr>) = Inr e2" by simp
    from reconfigure_frame(1,6) [OF r] e0 show ?thesis by simp
  next
    case False
    with m e0 show ?thesis by auto
  qed
  with s2 v show ?thesis by (auto simp: set_episode_rng_Some split: if_splits)
qed

lemma reset_prepare_no_reconfigure:
  "0 \<le> s \<Longrightarrow> s < 2 ^ 32 \<Longrightarrow> \<exists>e'. reset_prepare H (Some s) False e = Inr e'"
  by (simp add: reset_prepare_def Let_def ebind_def set_episode_rng_Some)

lemma set_episode_rng_invalid:
  "\<not> (0 \<le> s \<and> s < 2 ^ 32) \<Longrightarrow> set_episode_rng H (Some s) e = Inl ValueError"
  by (simp add: set_episode_rng_def new_RandomState_def ebind_def)

lemma reset_invalid_seed:
  assumes "\<not> (0 \<le> s \<and> s < 2 ^ 32)"
  shows "reset H (Some s) reconf e = Inl ValueError"
  unfolding reset_def reset_prepare_def set_episode_rng_invalid [OF assms]
  by (simp add: ebind_def)

lemma reset_prepare_drawn:
  assumes "reset_prepare H None reconf e = Inr e'"
  shows "episode_seed e' = fst (randint H (main_rng e))
     \<and> episode_rng e' = RandomState H (fst (randint H (main_rng e)))
     \<and> main_seed e' = main_seed e"
proof -
  from reset_prepare_parts [OF assms] obtain e0 e2 where
    s0: "set_episode_rng H None e = Inr e0"
    and m: "(if reconf then reconfigure H (e0\<lparr>elapsed_steps := 0\<rparr>)
         else Inr (e0\<lparr>elapsed_steps := 0,
                      the_scene := clear_sim_state (the_scene e0)\<rparr>)) = Inr e2"
    and s2: "set_episode_rng H (Some (episode_seed e2)) e2 = Inr e'" by blast
  from set_episode_rng_None [OF s0]
  have e0: "episode_seed e0 = fst (randint H (main_rng e))" "main_seed e0 = main_seed e"
    by simp_all
  have "episode_seed e2 = fst (randint H (main_rng e)) \<and> main_seed e2 = main_seed e"
  proof (cases reconf)
    case True
    with m have r: "reconfigure H (e0\<lparr>elapsed_steps := 0\<rparr>) = Inr e2" by simp
    from reconfigure_frame(1,2) [OF r] e0 show ?thesis by simp
  next
    case False
    with m e0 show ?thesis by auto
  qed
  with s2 show ?thesis by (auto simp: set_episode_rng_Some split: if_splits)
qed

lemma initialize_episode_frame:
  "episode_seed (initialize_episode H e) = episode_seed e"
  "main_seed (initialize_episode H e) = main_seed e"
  "sim_steps_per_control (initialize_episode H e) = sim_steps_per_control e"
  "warnings (initialize_episode H e) = warnings e"
  "obs_mode (initialize_episode H e) = obs_mode e"
  "env_enable_gt_seg (initialize_episode H e) = env_enable_gt_seg e"
  "env_enable_kuafu (initialize_episode H e) = env_enable_kuafu e"
  by (simp_all add: initialize_episode_def run_frame)

lemma reset_obs:
  assumes "reset H s reconf e = Inr (ob, e')"
  shows "\<exists>e3. reset_prepare H s reconf e = Inr e3 \<and> e' = initialize_episode H e3
     \<and> env_get_obs H e' = Inr ob"
  using assms by (auto simp: reset_def ebind_def Let_def split: sum.splits)

lemma world_of_run: "world_of (run h e) = h (world_of e)"
  by (simp add: world_of_def run_def Let_def)

lemma world_of_initialize_episode:
  "world_of (initialize_episode H e) = initialize_world H (world_of e)"
  by (simp add: initialize_episode_def initialize_world_def world_of_run)

lemma world_of_simps:
  "w_scene (world_of e) = the_scene e" "w_task (world_of e) = task e"
  "w_episode_rng (world_of e) = episode_rng e" "w_main_rng (world_of e) = main_rng e"
  by (simp_all add: world_of_def)

lemma reset_prepare_frame:
  assumes "reset_prepare H s reconf e = Inr e'"
  shows "sim_steps_per_control e' = sim_steps_per_control e" "warnings e' = warnings e"
    "obs_mode e' = obs_mode e"
    "env_enable_gt_seg e' = env_enable_gt_seg e" "env_enable_kuafu e' = env_enable_kuafu e"
proof -
  from reset_prepare_parts [OF assms] obtain e0 e2 where
    s0: "set_episode_rng H s e = Inr e0"
    and m: "(if reconf then reconfigure H (e0\<lparr>elapsed_steps := 0\<rparr>)
         else Inr (e0\<lparr>elapsed_steps := 0,
                      the_scene := clear_sim_state (the_scene e0)\<rparr>)) = Inr e2"
    and s2: "set_episode_rng H (Some (episode_seed e2)) e2 = Inr e'" by blast
  have "sim_steps_per_control e2 = sim_steps_per_control e0 \<and> warnings e2 = warnings e0
      \<and> obs_mode e2 = obs_mode e0 \<and> env_enable_gt_seg e2 = env_enable_gt_seg e0
      \<and> env_enable_kuafu e2 = env_enable_kuafu e0"
  proof (cases reconf)
    case True
    with m have r: "reconfigure H (e0\<lparr>elapsed_steps := 0\<rparr>) = Inr e2" by simp
    from reconfigure_frame(3,4,5,7,8) [OF r] show ?thesis by simp
  next
    case False
    with m show ?thesis by auto
  qed
  with set_episode_rng_frame(1-5) [OF s0] set_episode_rng_frame(1-5) [OF s2]
  show "sim_steps_per_control e' = sim_steps_per_control e" "warnings e' = warnings e"
    "obs_mode e' = obs_mode e"
    "env_enable_gt_seg e' = env_enable_gt_seg e" "env_enable_kuafu e' = env_enable_kuafu e"
    by simp_all
qed

lemma reset_frame:
  assumes "reset H s reconf e = Inr (ob, e')"
  shows "sim_steps_per_control e' = sim_steps_per_control e" "warnings e' = warnings e"
    "obs_mode e' = obs_mode e"
    "env_enable_gt_seg e' = env_enable_gt_seg e" "env_enable_kuafu e' = env_enable_kuafu e"
proof -
  from reset_obs [OF assms] obtain e3 where
    p: "reset_prepare H s reconf e = Inr e3" and e': "e' = initialize_episode H e3" by blast
  from reset_prepare_frame [OF p]
  show "sim_steps_per_control e' = sim_steps_per_control e" "warnings e' = warnings e"
    "obs_mode e' = obs_mode e"
    "env_enable_gt_seg e' = env_enable_gt_seg e" "env_enable_kuafu e' = env_enable_kuafu e"
    by (simp_all add: e' initialize_episode_frame)
qed

lemma map_sum_Inr: "map_sum id f x = Inr y \<Longrightarrow> \<exists>z. x = Inr z \<and> y = f z"
  by (cases x) auto

lemma get_obs_Inr_cameras:
  assumes "get_obs m s = Inr ob"
    and "m \<in> {''rgbd'', ''pointcloud'', ''rgbd_robot_seg'', ''pointcloud_robot_seg''}"
  shows "cameras s = []"
proof -
  have r: "cameras s = []" if "get_obs_rgbd s kw = Inr x" for kw x
    using get_obs_rgbd_Inr [OF that] by simp
  have p: "cameras s = []" if "get_obs_pointcloud s kw = Inr x" for kw x
    using get_obs_pointcloud_Inr [OF that] by simp
  from assms show ?thesis
    by (auto simp: get_obs_def get_obs_rgbd_robot_seg_def get_obs_pointcloud_robot_seg_def
        split: sum.splits if_splits dest!: map_sum_Inr dest: r p)
qed

lemma get_obs_state_modes:
  "m \<notin> {''rgbd'', ''pointcloud'', ''rgbd_robot_seg'', ''pointcloud_robot_seg''} \<Longrightarrow>
     get_obs m (s\<lparr>cameras := c\<rparr>) = get_obs m s"
  by (simp add: get_obs_def get_obs_state_dict_def)

lemma get_obs_cameras:
  assumes "get_obs m s = Inr o1" and "get_obs m (s\<lparr>cameras := c\<rparr>) = Inr o2"
  shows "o1 = o2"
proof (cases "m \<in> {''rgbd'', ''pointcloud'', ''rgbd_robot_seg'', ''pointcloud_robot_seg''}")
  case True
  from get_obs_Inr_cameras [OF assms(1) True] get_obs_Inr_cameras [OF assms(2) True]
  have "s\<lparr>cameras := c\<rparr> = s" by simp
  with assms show ?thesis by simp
next
  case False
  from get_obs_state_modes [OF False, where s = s and c = c] assms show ?thesis by simp
qed

lemma reset_same_obs:
  assumes d: "episode_rng_driven H" and m: "obs_mode e1 = obs_mode e2"
    and g: "env_enable_gt_seg e1 = env_enable_gt_seg e2"
    and k: "env_enable_kuafu e1 = env_enable_kuafu e2"
    and r1: "reset H (Some s) r1 e1 = Inr (o1, a)" and r2: "reset H (Some s) r2 e2 = Inr (o2, b)"
  shows "o1 = o2"
proof -
  from reset_obs [OF r1] obtain p1 where
    p1: "reset_prepare H (Some s) r1 e1 = Inr p1" "a = initialize_episode H p1"
      "env_get_obs H a = Inr o1" by blast
  from reset_obs [OF r2] obtain p2 where
    p2: "reset_prepare H (Some s) r2 e2 = Inr p2" "b = initialize_episode H p2"
      "env_get_obs H b = Inr o2" by blast
  from reset_prepare_seeded [OF p1(1)] reset_prepare_seeded [OF p2(1)]
  have "w_episode_rng (world_of p1) = w_episode_rng (world_of p2)"
    by (simp add: world_of_simps)
  with d have "sense H (w_scene (initialize_world H (world_of p1))) (w_task (initialize_world H (world_of p1)))
      = sense H (w_scene (initialize_world H (world_of p2))) (w_task (initialize_world H (world_of p2)))"
    unfolding episode_rng_driven_def by blast
  then have se: "sense H (the_scene a) (task a) = sense H (the_scene b) (task b)"
    by (simp add: p1(2) p2(2) world_of_initialize_episode [symmetric] world_of_simps)
  have om: "obs_mode a = obs_mode b"
    using reset_frame(3) [OF r1] reset_frame(3) [OF r2] m by simp
  have fl: "env_enable_gt_seg a = env_enable_gt_seg b" "env_enable_kuafu a = env_enable_kuafu b"
    using reset_frame(4,5) [OF r1] reset_frame(4,5) [OF r2] g k by simp_all
  have "env_sensing H b = (env_sensing H a)\<lparr>cameras := env_cameras b\<rparr>"
    by (simp add: env_sensing_def Let_def se fl)
  with p1(3) p2(3) om have "get_obs (obs_mode a) (env_sensing H a) = Inr o1"
    "get_obs (obs_mode a) ((env_sensing H a)\<lparr>cameras := env_cameras b\<rparr>) = Inr o2"
    by (simp_all add: env_get_obs_def)
  then show ?thesis by (rule get_obs_cameras)
qed

text \<open>Claim C1, as the code has it. Whatever the environment's state before and whether
  or not the reset reconfigures, a reset with the explicit seed \<open>s\<close> that reaches episode
  initialisation reaches it with \<^verbatim>\<open>_episode_seed = s\<close> and with the episode generator
  freshly made from \<open>s\<close>: two such resets start initialisation from the same generator
  state. For a seed NumPy accepts (0 to \<^verbatim>\<open>2**32 - 1\<close>) a reset without reconfigure always
  reaches it; for any other seed the reset raises \<^verbatim>\<open>ValueError\<close>. The first observations
  of two such resets are equal when the task's initialisation hooks are driven by the
  episode generator (what the agent and the task answer after them is decided by the
  generator they start from); the hooks of \<^verbatim>\<open>BaseEnv\<close> itself are not.\<close>

theorem reset_same_seed_same_start:
  "(reset_prepare H (Some s) r1 e1 = Inr a \<longrightarrow> reset_prepare H (Some s) r2 e2 = Inr b \<longrightarrow>
      episode_rng a = RandomState H s \<and> episode_rng b = RandomState H s
      \<and> episode_seed a = s \<and> episode_seed b = s)
   \<and> (0 \<le> s \<and> s < 2 ^ 32 \<longrightarrow> (\<exists>p. reset_prepare H (Some s) False e1 = Inr p))
   \<and> (\<not> (0 \<le> s \<and> s < 2 ^ 32) \<longrightarrow> reset H (Some s) r1 e1 = Inl ValueError)
   \<and> (episode_rng_driven H \<longrightarrow> obs_mode e1 = obs_mode e2 \<longrightarrow>
        env_enable_gt_seg e1 = env_enable_gt_seg e2 \<longrightarrow>
        env_enable_kuafu e1 = env_enable_kuafu e2 \<longrightarrow>
        reset H (Some s) r1 e1 = Inr (o1, a') \<longrightarrow> reset H (Some s) r2 e2 = Inr (o2, b') \<longrightarrow>
        o1 = o2)"
  using reset_prepare_seeded [of H s r1 e1 a] reset_prepare_seeded [of H s r2 e2 b]
    reset_prepare_no_reconfigure [of s H e1] reset_invalid_seed [of s H r1 e1]
    reset_same_obs [of H e1 e2 s r1 o1 a' r2 o2 b']
  by blast

lemma init_reset:
  assumes "init H en a = Inr e"
  shows "\<exists>rm lg ob.
     reset H None True (seed H en (Some 2022)
        (new_env H a (case a_obs_mode a of None \<Rightarrow> hd SUPPORTED_OBS_MODES | Some m \<Rightarrow> m) rm
           (a_sim_freq a div a_control_freq a) lg)) = Inr (ob, e)
     \<and> a_control_freq a \<noteq> 0
     \<and> lg = (if a_renderer_type a = ''kuafu'' then [OnlyRgbSupported] else [])
          @ (if a_sim_freq a mod a_control_freq a \<noteq> 0
             then [NotDivisible (a_sim_freq a) (a_control_freq a)] else [])"
proof -
  let ?l0 = "if a_renderer_type a = ''kuafu'' then [OnlyRgbSupported] else []"
  from assms obtain steps lg where f: "set_frequencies (a_sim_freq a) (a_control_freq a) ?l0 = Inr (steps, lg)"
    by (auto simp: init_def ebind_def split: if_splits sum.splits)
  then have c: "a_control_freq a \<noteq> 0" and st: "steps = a_sim_freq a div a_control_freq a"
    and lg: "lg = ?l0 @ (if a_sim_freq a mod a_control_freq a \<noteq> 0
             then [NotDivisible (a_sim_freq a) (a_control_freq a)] else [])"
    by (auto simp: set_frequencies_def split: if_splits)
  from assms f obtain rm ob where
    "reset H None True (seed H en (Some 2022)
       (new_env H a (case a_obs_mode a of None \<Rightarrow> hd SUPPORTED_OBS_MODES | Some m \<Rightarrow> m) rm
          steps lg)) = Inr (ob, e)"
    by (auto simp: init_def ebind_def Let_def split: if_splits sum.splits prod.splits)
  with c st lg show ?thesis by blast
qed

lemma seed_Some: "seed H en (Some s) e = e\<lparr>main_seed := s, main_rng := RandomState H s\<rparr>"
  by (simp add: seed_def)

lemma init_entropy: "init H en1 a = init H en2 a"
  unfolding init_def Let_def seed_Some by (rule refl)

lemma init_seed:
  assumes "init H en a = Inr e"
  shows "main_seed e = 2022 \<and> episode_seed e = fst (randint H (RandomState H 2022))"
proof -
  from init_reset [OF assms] obtain om rm lg ob where
    r: "reset H None True (seed H en (Some 2022)
        (new_env H a om rm (a_sim_freq a div a_control_freq a) lg)) = Inr (ob, e)" by blast
  from reset_obs [OF r] obtain e3 where
    p: "reset_prepare H None True (seed H en (Some 2022)
        (new_env H a om rm (a_sim_freq a div a_control_freq a) lg)) = Inr e3"
    and e: "e = initialize_episode H e3" by blast
  from reset_prepare_drawn [OF p] show ?thesis
    by (simp add: e initialize_episode_frame seed_Some)
qed

text \<open>The constructor assigns neither flag, and every image mode reads them: no
  environment can be constructed in the modes \<^verbatim>\<open>rgbd\<close>, \<^verbatim>\<open>pointcloud\<close>,
  \<^verbatim>\<open>rgbd_robot_seg\<close> and \<^verbatim>\<open>pointcloud_robot_seg\<close>, whatever the task and the renderer
  type.\<close>

lemma init_image_mode_fails:
  assumes "a_obs_mode a = Some m"
    and "m \<in> {''rgbd'', ''pointcloud'', ''rgbd_robot_seg'', ''pointcloud_robot_seg''}"
  shows "init H en a \<noteq> Inr e"
proof
  assume i: "init H en a = Inr e"
  from init_reset [OF i] assms(1) obtain rm lg ob where
    r: "reset H None True (seed H en (Some 2022)
        (new_env H a m rm (a_sim_freq a div a_control_freq a) lg)) = Inr (ob, e)" by auto
  from reset_frame(3,4) [OF r] have om: "obs_mode e = m" and fl: "env_enable_gt_seg e = None"
    by (simp_all add: seed_Some new_env_def)
  from reset_obs [OF r] have "env_get_obs H e = Inr ob" by blast
  moreover have "env_get_obs H e = Inl AttributeError"
    unfolding env_get_obs_def om
    by (rule get_obs_image_modes_unassigned [OF _ assms(2)]) (simp add: env_sensing_def Let_def fl)
  ultimately show False by simp
qed

text \<open>Claim C10. The constructor never consults fresh entropy: its result is the same
  whatever an unseeded generator would have drawn, so two constructions with the same
  arguments (and the same task) give the same state, main generator included. A
  constructed environment has the main seed 2022, and the episode seed of its first reset
  is the first draw of the generator made from 2022, whatever the arguments. (A later
  call of \<^verbatim>\<open>seed\<close> without an argument does use fresh entropy; with an argument it stores
  that argument.)\<close>

theorem constructor_seeds_2022:
  "init H en1 a = init H en2 a
   \<and> (init H en a = Inr e \<longrightarrow>
        main_seed e = 2022 \<and> episode_seed e = fst (randint H (RandomState H 2022)))
   \<and> main_seed (seed H en None e0) = en \<and> main_seed (seed H en (Some s) e0) = s"
  using init_entropy [of H en1 a en2] init_seed [of H en a e]
  by (simp add: seed_def)

lemma repeat_funpow: "repeat n f s = (f ^^ n) s"
  by (induction n f s rule: repeat.induct) (simp_all add: funpow_swap1)

lemma apply_action_frame:
  "apply_action H act e = Inr e1 \<Longrightarrow> sim_steps_per_control e1 = sim_steps_per_control e"
  by (auto simp: apply_action_def run_frame split: action.splits)

lemma step_action_substeps:
  assumes "apply_action H act e = Inr e1"
  shows "step_action H act e
     = Inr ((sim_step H ^^ nat (sim_steps_per_control e)) (run (before_control_step H) e1))"
  using assms apply_action_frame [OF assms]
  by (simp add: step_action_def ebind_def for_range_def repeat_funpow)

lemma init_frequencies:
  assumes "init H en a = Inr e"
  shows "a_control_freq a \<noteq> 0 \<and> sim_steps_per_control e = a_sim_freq a div a_control_freq a
     \<and> ((NotDivisible (a_sim_freq a) (a_control_freq a) \<in> set (warnings e))
          = (a_sim_freq a mod a_control_freq a \<noteq> 0))"
proof -
  from init_reset [OF assms] obtain om rm lg ob where
    r: "reset H None True (seed H en (Some 2022)
        (new_env H a om rm (a_sim_freq a div a_control_freq a) lg)) = Inr (ob, e)"
    and c: "a_control_freq a \<noteq> 0"
    and w: "lg = (if a_renderer_type a = ''kuafu'' then [OnlyRgbSupported] else [])
          @ (if a_sim_freq a mod a_control_freq a \<noteq> 0
             then [NotDivisible (a_sim_freq a) (a_control_freq a)] else [])" by blast
  from reset_frame(1,2) [OF r] c w show ?thesis
    by (auto simp: seed_Some new_env_def)
qed

text \<open>Claim C5, as the code has it. For a control frequency other than zero the
  frequency setup does not raise: it yields the floor quotient as the number of substeps
  and logs a warning exactly when the division leaves a remainder (500 and 20 give 25,
  100 and 20 give 5, without a warning). A constructed environment therefore has a nonzero
  control frequency, holds that quotient, and has the warning in its log exactly when the
  control frequency does not divide the simulation frequency. A step whose action is
  accepted runs the substep (agent hook, physics tick, task hook) as many times as the
  stored quotient says, and not at all when the quotient is negative.\<close>

theorem substeps_per_step:
  "(ctl \<noteq> 0 \<longrightarrow> set_frequencies sim ctl lg
        = Inr (sim div ctl, if sim mod ctl \<noteq> 0 then lg @ [NotDivisible sim ctl] else lg))
   \<and> set_frequencies 500 20 [] = Inr (25, []) \<and> set_frequencies 100 20 [] = Inr (5, [])
   \<and> (init H en a = Inr e \<longrightarrow>
        a_control_freq a \<noteq> 0
        \<and> sim_steps_per_control e = a_sim_freq a div a_control_freq a
        \<and> ((NotDivisible (a_sim_freq a) (a_control_freq a) \<in> set (warnings e))
             = (a_sim_freq a mod a_control_freq a \<noteq> 0)))
   \<and> (apply_action H act e' = Inr e1 \<longrightarrow>
        step_action H act e'
          = Inr ((sim_step H ^^ nat (sim_steps_per_control e'))
                   (run (before_control_step H) e1)))"
  using init_frequencies [of H en a e] step_action_substeps [of H act e' e1]
  by (simp add: set_frequencies_def)

subsection \<open>The concrete task\<close>

lemmas example_defs = example_hooks_def example_cfg_def CameraConfig_def
  example_articulation_def example_actor_def

lemmas reset_defs = reset_def reset_prepare_def set_episode_rng_def new_RandomState_def
  reconfigure_def clear_def setup_scene_def setup_cameras_def Camera_init_def getattr_def
  get_mount_actor_def setup_lighting_def run_def initialize_episode_def env_get_obs_def
  env_sensing_def get_obs_def get_obs_state_dict_def ebind_def Let_def qpos_def vec3_list_def
  filter_color_def

lemma example_init:
  assumes "sf \<noteq> 0" "cf \<noteq> 0"
  shows "\<exists>e. init example_hooks en (default_args\<lparr>a_sim_freq := sf, a_control_freq := cf\<rparr>) = Inr e
     \<and> sim_steps_per_control e = sf div cf
     \<and> warnings e = (if sf mod cf \<noteq> 0 then [NotDivisible sf cf] else [])
     \<and> fst (task e) = 0 \<and> obs_mode e = ''state'' \<and> sim_freq e = sf
     \<and> env_camera_cfgs e = [(''cam1'', example_cfg ''cam1'')]
     \<and> actors e = [1] \<and> articulations e = [2]
     \<and> dof (articulation_of (the_scene e) 2) = 2
     \<and> main_seed e = 2022 \<and> episode_seed e = 2219811111"
  using assms
  by (simp add: init_def new_env_def default_args_def set_frequencies_def SUPPORTED_OBS_MODES_def
      SUPPORTED_REWARD_MODES_def seed_def reset_defs example_defs dof_def)

lemma example_reset:
  assumes "obs_mode e = ''state''" "sim_freq e \<noteq> 0"
    "env_camera_cfgs e = [(''cam1'', example_cfg ''cam1'')]" "0 \<le> s" "s < 2 ^ 32"
  shows "\<exists>b. reset example_hooks (Some s) reconf e
       = Inr (ObsState [1 / 2, 1 / 4, real_of_int (s + 1), real_of_int s, 0, 0], b)
     \<and> obs_mode b = ''state'' \<and> sim_freq b = sim_freq e
     \<and> env_camera_cfgs b = env_camera_cfgs e
     \<and> env_enable_gt_seg b = env_enable_gt_seg e \<and> env_enable_kuafu b = env_enable_kuafu e"
  using assms
  by (cases reconf) (simp_all add: reset_defs example_defs)

lemma example_driven: "episode_rng_driven example_hooks"
  by (simp add: episode_rng_driven_def initialize_world_def example_hooks_def)

text \<open>Witness for C1: the concrete task is driven by the episode generator; an
  environment is constructed, reset with seed 42 and reconfigure, and reset again with
  seed 42 without reconfigure. Both resets begin initialisation with the generator made
  from 42 and return the same state vector. A reset with the seed -1 raises
  \<^verbatim>\<open>ValueError\<close>.\<close>

theorem reset_same_seed_same_start_witness:
  "episode_rng_driven example_hooks
   \<and> (\<exists>e o1 a o2 b p q. init example_hooks 0 default_args = Inr e
        \<and> reset example_hooks (Some 42) True e = Inr (o1, a)
        \<and> reset example_hooks (Some 42) False a = Inr (o2, b)
        \<and> obs_mode e = obs_mode a
        \<and> env_enable_gt_seg e = env_enable_gt_seg a \<and> env_enable_kuafu e = env_enable_kuafu a
        \<and> o1 = o2 \<and> o1 = ObsState [1 / 2, 1 / 4, 43, 42, 0, 0]
        \<and> reset_prepare example_hooks (Some 42) True e = Inr p
        \<and> reset_prepare example_hooks (Some 42) False a = Inr q
        \<and> episode_rng p = 42 \<and> episode_rng q = 42
        \<and> reset example_hooks (Some (- 1)) True e = Inl ValueError)"
proof -
  from example_init [of 500 20 0] obtain e where
    e: "init example_hooks 0 default_args = Inr e" "obs_mode e = ''state''" "sim_freq e = 500"
      "env_camera_cfgs e = [(''cam1'', example_cfg ''cam1'')]"
    by (auto simp: default_args_def)
  from example_reset [of e 42 True] e obtain a where
    a: "reset example_hooks (Some 42) True e = Inr (ObsState [1 / 2, 1 / 4, 43, 42, 0, 0], a)"
      "obs_mode a = ''state''" "sim_freq a = 500"
      "env_camera_cfgs a = [(''cam1'', example_cfg ''cam1'')]"
      "env_enable_gt_seg a = env_enable_gt_seg e" "env_enable_kuafu a = env_enable_kuafu e"
    by auto
  from example_reset [of a 42 False] a obtain b where
    b: "reset example_hooks (Some 42) False a = Inr (ObsState [1 / 2, 1 / 4, 43, 42, 0, 0], b)"
    by auto
  from reset_obs [OF a(1)] obtain p where
    p: "reset_prepare example_hooks (Some 42) True e = Inr p" by blast
  note t = reset_same_seed_same_start [where H = example_hooks and s = 42 and ?r1.0 = True
      and ?e1.0 = a and ?r2.0 = True and ?e2.0 = e and a = e and b = e and ?o1.0 = ObsEmpty
      and ?o2.0 = ObsEmpty and a' = e and b' = e]
  from t obtain q where q: "reset_prepare example_hooks (Some 42) False a = Inr q"
    by auto
  note u = reset_same_seed_same_start [where H = example_hooks and s = 42 and ?r1.0 = True
      and ?e1.0 = e and a = p and ?r2.0 = False and ?e2.0 = a and b = q and ?o1.0 = ObsEmpty
      and ?o2.0 = ObsEmpty and a' = e and b' = e]
  from u p q have "episode_rng p = RandomState example_hooks 42"
    "episode_rng q = RandomState example_hooks 42" by blast+
  then have pq: "episode_rng p = 42" "episode_rng q = 42" by (simp_all add: example_hooks_def)
  note v = reset_same_seed_same_start [where H = example_hooks and s = "- 1" and ?r1.0 = True
      and ?e1.0 = e and a = e and ?r2.0 = True and ?e2.0 = e and b = e and ?o1.0 = ObsEmpty
      and ?o2.0 = ObsEmpty and a' = e and b' = e]
  from v have n: "reset example_hooks (Some (- 1)) True e = Inl ValueError" by simp
  have mo: "obs_mode e = obs_mode a" using e(2) a(2) by simp
  show ?thesis
  proof (intro conjI)
    show "episode_rng_driven example_hooks" by (rule example_driven)
    show "\<exists>e o1 a o2 b p q. init example_hooks 0 default_args = Inr e
        \<and> reset example_hooks (Some 42) True e = Inr (o1, a)
        \<and> reset example_hooks (Some 42) False a = Inr (o2, b)
        \<and> obs_mode e = obs_mode a
        \<and> env_enable_gt_seg e = env_enable_gt_seg a \<and> env_enable_kuafu e = env_enable_kuafu a
        \<and> o1 = o2 \<and> o1 = ObsState [1 / 2, 1 / 4, 43, 42, 0, 0]
        \<and> reset_prepare example_hooks (Some 42) True e = Inr p
        \<and> reset_prepare example_hooks (Some 42) False a = Inr q
        \<and> episode_rng p = 42 \<and> episode_rng q = 42
        \<and> reset example_hooks (Some (- 1)) True e = Inl ValueError"
      using e(1) a(1) b p q pq n mo a(5,6)
      by (intro exI [of _ e] exI [of _ a] exI [of _ b] exI [of _ p] exI [of _ q]
          exI [of _ "ObsState [1 / 2, 1 / 4, 43, 42, 0, 0]"]) simp
  qed
qed

text \<open>Counterexample to C1 as stated: a task that keeps the initialisation hooks of
  \<^verbatim>\<open>BaseEnv\<close>, which are \<^verbatim>\<open>pass\<close>. The environment is constructed (one physics tick per
  step) and stepped once, so that the cube has fallen by one unit; it is then reset with
  seed 42 without reconfigure, and reset again with seed 42 with reconfigure. The hooks
  being \<^verbatim>\<open>pass\<close>, the episode generator after each reset is as it was when initialisation
  began: made from 42, both times. Yet the first reset observes the cube where the step
  has left it and the second where the rebuilt scene has put it.\<close>

theorem reset_same_seed_counterexample:
  "ebind (init pass_hooks 0 (default_args\<lparr>a_sim_freq := 20\<rparr>)) (\<lambda>e.
     ebind (step_action pass_hooks NoAction e) (\<lambda>e1.
       ebind (reset pass_hooks (Some 42) False e1) (\<lambda>(o1, e2).
         ebind (reset pass_hooks (Some 42) True e2) (\<lambda>(o2, e3).
           Inr (o1, episode_rng e2, o2, episode_rng e3)))))
   = Inr (ObsState [1 / 2, 1 / 4, 0, 0, 0, - 1], 42, ObsState [1 / 2, 1 / 4, 0, 0, 0, 0], 42)"
  by (simp add: init_def new_env_def default_args_def set_frequencies_def SUPPORTED_OBS_MODES_def
      SUPPORTED_REWARD_MODES_def seed_def reset_defs example_defs pass_hooks_def
      step_action_def apply_action_def for_range_def sim_step_def clear_sim_state_def
      clear_actor_def clear_articulation_def)

text \<open>Witness for C10: the concrete task constructed with the default arguments.\<close>

theorem constructor_seeds_2022_witness:
  "\<exists>e. init example_hooks 7 default_args = Inr e \<and> main_seed e = 2022
     \<and> episode_seed e = 2219811111"
proof -
  from example_init [of 500 20 7] obtain e where
    e: "init example_hooks 7 default_args = Inr e"
    by (auto simp: default_args_def)
  from constructor_seeds_2022 [of example_hooks 7 default_args 7 7 e] e
  have "main_seed e = 2022 \<and> episode_seed e = fst (randint example_hooks (RandomState example_hooks 2022))"
    by blast
  then have "main_seed e = 2022 \<and> episode_seed e = 2219811111"
    by (simp add: example_hooks_def)
  with e show ?thesis by blast
qed

lemma example_ticks:
  "fst (task ((sim_step example_hooks ^^ n) e)) = fst (task e) + n"
  by (induction n) (simp_all add: sim_step_def run_def example_hooks_def)

text \<open>Witness for C5: the concrete task counts the physics ticks. With 500 and 20 a step
  makes 25 ticks and nothing is logged; with 50 and 20 construction succeeds, the warning
  is logged and a step makes 2 ticks.\<close>

theorem substeps_per_step_witness:
  "(\<exists>e c. init example_hooks 0 default_args = Inr e \<and> sim_steps_per_control e = 25
        \<and> warnings e = []
        \<and> step_action example_hooks NoAction e = Inr c \<and> fst (task c) = 25)
   \<and> (\<exists>e c. init example_hooks 0 (default_args\<lparr>a_sim_freq := 50\<rparr>) = Inr e
        \<and> sim_steps_per_control e = 2 \<and> warnings e = [NotDivisible 50 20]
        \<and> step_action example_hooks NoAction e = Inr c \<and> fst (task c) = 2)"
proof -
  have w: "\<exists>e c. init example_hooks 0 (default_args\<lparr>a_sim_freq := sf\<rparr>) = Inr e
        \<and> sim_steps_per_control e = sf div 20
        \<and> warnings e = (if sf mod 20 \<noteq> 0 then [NotDivisible sf 20] else [])
        \<and> step_action example_hooks NoAction e = Inr c \<and> fst (task c) = nat (sf div 20)"
    if sf: "sf \<noteq> 0" for sf
  proof -
    from example_init [of sf 20 0] sf obtain e where
      e: "init example_hooks 0 (default_args\<lparr>a_sim_freq := sf\<rparr>) = Inr e"
        "warnings e = (if sf mod 20 \<noteq> 0 then [NotDivisible sf 20] else [])" "fst (task e) = 0"
      by (auto simp: default_args_def)
    have ap: "apply_action example_hooks NoAction e = Inr e" by (simp add: apply_action_def)
    from substeps_per_step [of _ _ _ example_hooks 0 "default_args\<lparr>a_sim_freq := sf\<rparr>" e NoAction e e] e ap
    have s: "sim_steps_per_control e = sf div 20"
      and st: "step_action example_hooks NoAction e
          = Inr ((sim_step example_hooks ^^ nat (sim_steps_per_control e))
                   (run (before_control_step example_hooks) e))"
      by (auto simp: default_args_def)
    have "fst (task ((sim_step example_hooks ^^ nat (sim_steps_per_control e))
                   (run (before_control_step example_hooks) e))) = nat (sf div 20)"
      using e(3) by (simp add: example_ticks s) (simp add: run_def example_hooks_def)
    with e s st show ?thesis by blast
  qed
  from w [of 500] w [of 50] show ?thesis by (simp add: default_args_def)
qed

text \<open>Counterexample to C5 as stated: with the control frequency 0 construction fails
  with \<^verbatim>\<open>ZeroDivisionError\<close>; and with the frequencies -100 and 20 the floor quotient is
  -5, while a loop over \<^verbatim>\<open>range(-5)\<close> runs its body not once.\<close>

theorem substeps_per_step_counterexample:
  "init example_hooks 0 (default_args\<lparr>a_control_freq := 0\<rparr>) = Inl ZeroDivisionError
   \<and> set_frequencies (- 100) 20 [] = Inr (- 5, [])
   \<and> for_range (- 5) Suc (0 :: nat) = 0"
  by (simp add: init_def default_args_def set_frequencies_def ebind_def for_range_def)

text \<open>Claim C2 at its failing input: the concrete task constructed with the renderer type
  \<^verbatim>\<open>kuafu\<close> and the observation mode \<^verbatim>\<open>rgbd\<close>. The first observation is taken by
  \<^verbatim>\<open>_get_obs_rgbd\<close>, which reads \<^verbatim>\<open>self._enable_gt_seg\<close>, an attribute nothing has
  assigned: construction ends with \<^verbatim>\<open>AttributeError\<close> instead of returning the colour
  images. The same happens in the mode \<^verbatim>\<open>pointcloud\<close>, before the \<^verbatim>\<open>raise
  NotImplementedError\<close> is reached. On a rig whose flags have been assigned, the KuaFu flag
  being set, the mode \<^verbatim>\<open>rgbd\<close> still raises \<^verbatim>\<open>AttributeError\<close> as soon as one scene camera
  is configured, since the \<^verbatim>\<open>Camera\<close> wrapper has no \<^verbatim>\<open>get_intrinsic_matrix\<close>; only
  without scene cameras does it return the agent's images with colour alone, and there
  the mode \<^verbatim>\<open>pointcloud\<close> raises \<^verbatim>\<open>NotImplementedError\<close>.\<close>

theorem kuafu_rgbd_raises_attribute_error:
  "init example_hooks 0 (default_args\<lparr>a_obs_mode := Some ''rgbd'', a_renderer_type := ''kuafu''\<rparr>)
     = Inl AttributeError
   \<and> init example_hooks 0
       (default_args\<lparr>a_obs_mode := Some ''pointcloud'', a_renderer_type := ''kuafu''\<rparr>)
     = Inl AttributeError
   \<and> get_obs ''rgbd''
       ((example_sensing True)\<lparr>cameras := [(''base_camera'', example_camera ''kuafu'')]\<rparr>)
     = Inl AttributeError
   \<and> get_obs ''rgbd'' (example_sensing True)
     = Inr (ObsRGBD
         \<lparr>obs_image = [(''hand_camera'',
            \<lparr>rgb = Some [[1, 0]], depth = None, visual_seg = None, actor_seg = None,
             robot_seg = None, camera_intrinsic = Some [[1]],
             camera_extrinsic = Some [[1]]\<rparr>)],
          obs_agent = Dict [(''qpos'', Arr [0])], obs_extra = Dict []\<rparr>)
   \<and> get_obs ''pointcloud'' (example_sensing True) = Inl NotImplementedError"
proof (intro conjI)
  show "init example_hooks 0
      (default_args\<lparr>a_obs_mode := Some ''rgbd'', a_renderer_type := ''kuafu''\<rparr>)
     = Inl AttributeError"
    by (simp add: init_def new_env_def default_args_def set_frequencies_def
        SUPPORTED_OBS_MODES_def SUPPORTED_REWARD_MODES_def seed_def reset_defs example_defs
        get_obs_rgbd_def read_attribute_def)
  show "init example_hooks 0
       (default_args\<lparr>a_obs_mode := Some ''pointcloud'', a_renderer_type := ''kuafu''\<rparr>)
     = Inl AttributeError"
    by (simp add: init_def new_env_def default_args_def set_frequencies_def
        SUPPORTED_OBS_MODES_def SUPPORTED_REWARD_MODES_def seed_def reset_defs example_defs
        get_obs_pointcloud_def read_attribute_def)
  show "get_obs ''rgbd''
       ((example_sensing True)\<lparr>cameras := [(''base_camera'', example_camera ''kuafu'')]\<rparr>)
     = Inl AttributeError"
    by (simp add: get_obs_def get_obs_rgbd_def get_obs_images_def get_camera_images_params_def
        read_attribute_def ebind_def Let_def example_sensing_def)
  show "get_obs ''rgbd'' (example_sensing True)
     = Inr (ObsRGBD
         \<lparr>obs_image = [(''hand_camera'',
            \<lparr>rgb = Some [[1, 0]], depth = None, visual_seg = None, actor_seg = None,
             robot_seg = None, camera_intrinsic = Some [[1]],
             camera_extrinsic = Some [[1]]\<rparr>)],
          obs_agent = Dict [(''qpos'', Arr [0])], obs_extra = Dict []\<rparr>)"
    by (simp add: get_obs_def get_obs_rgbd_def get_obs_images_def read_attribute_def ebind_def
        Let_def example_sensing_def no_kwargs_def kw_default_def)
  show "get_obs ''pointcloud'' (example_sensing True) = Inl NotImplementedError"
    by (simp add: get_obs_def get_obs_pointcloud_def read_attribute_def ebind_def Let_def
        example_sensing_def)
qed

subsection \<open>The state codec: encoding\<close>

lemma get_sim_state_live_enumeration:
  "get_sim_state (e\<lparr>the_scene := (the_scene e)\<lparr>all_actors := xs, all_articulations := ys\<rparr>\<rparr>)
     = get_sim_state e"
  by (simp add: get_sim_state_def)

text \<open>Claim C3. For a snapshot that holds at least one actor or articulation,
  \<^verbatim>\<open>get_sim_state\<close> returns the segments of the cached actors first (13 wide each), then
  those of the cached articulations (13 + 2 \<times> dof each), so the vector has the length
  13 \<times> |actors| + \<Sum> (13 + 2 \<times> dof) over the cached snapshot; and any vector it returns
  has that length. Only the cached handles decide the layout: the scene's live
  enumeration can change without any effect on the result; a reconfigure that succeeds
  fills the cache with the scene's enumeration at that moment.\<close>

theorem sim_state_layout:
  "(actors e \<noteq> [] \<or> articulations e \<noteq> [] \<longrightarrow>
      get_sim_state e =
        Inr (concat (map (\<lambda>h. get_actor_state (actor_of (the_scene e) h)) (actors e))
             @ concat (map (\<lambda>h. get_articulation_state (articulation_of (the_scene e) h))
                 (articulations e))))
   \<and> length (get_actor_state a) = 13
   \<and> length (get_articulation_state b) = 13 + 2 * dof b
   \<and> (get_sim_state e = Inr v \<longrightarrow>
        length v = 13 * length (actors e)
          + sum_list (map (\<lambda>h. 13 + 2 * dof (articulation_of (the_scene e) h))
              (articulations e)))
   \<and> get_sim_state (e\<lparr>the_scene := (the_scene e)\<lparr>all_actors := xs, all_articulations := ys\<rparr>\<rparr>)
       = get_sim_state e
   \<and> (reconfigure H e0 = Inr e \<longrightarrow>
        actors e = all_actors (the_scene e) \<and> articulations e = all_articulations (the_scene e))"
  using get_sim_state_eq [of e] length_get_actor_state [of a] length_get_articulation_state [of b]
    get_sim_state_length [of e v] get_sim_state_live_enumeration [where e=e and xs=xs and ys=ys]
    reconfigure_caches [of H e0 e]
  by (auto simp add: layout_length_def)

lemma example_reconfigure:
  "\<exists>e. reconfigure example_hooks example_env = Inr e \<and> actors e = [1] \<and> articulations e = [2]
     \<and> actor_of (the_scene e) 1 = example_actor ''cube''
     \<and> articulation_of (the_scene e) 2 = example_articulation"
  by (simp add: example_env_def new_env_def default_args_def reset_defs example_defs)

text \<open>Witness for C3: after a reconfigure of the concrete task the snapshot holds the
  cube and the two-joint robot; the state has 13 + 17 = 30 values, cube first, and stays
  the same when the scene's enumeration is changed afterwards.\<close>

theorem sim_state_layout_witness:
  "\<exists>e v. reconfigure example_hooks example_env = Inr e \<and> actors e = [1] \<and> articulations e = [2]
     \<and> get_sim_state e = Inr v \<and> length v = 30
     \<and> v = [0, 0, 0, 1, 0, 0, 0, 0, 0, 0, 0, 0, 0,
            0, 0, 0, 1, 0, 0, 0, 0, 0, 0, 0, 0, 0, 1 / 2, 1 / 4, 0, 0]
     \<and> get_sim_state (e\<lparr>the_scene := (the_scene e)\<lparr>all_actors := [1, 5], all_articulations := []\<rparr>\<rparr>)
         = Inr v"
proof -
  from example_reconfigure obtain e where
    e: "reconfigure example_hooks example_env = Inr e" "actors e = [1]" "articulations e = [2]"
      "actor_of (the_scene e) 1 = example_actor ''cube''"
      "articulation_of (the_scene e) 2 = example_articulation"
    by blast
  let ?v = "[0, 0, 0, 1, 0, 0, 0, 0, 0, 0, 0, 0, 0,
            0, 0, 0, 1, 0, 0, 0, 0, 0, 0, 0, 0, 0, 1 / 2, 1 / 4, 0, 0] :: real list"
  note t = sim_state_layout [where e=e and v="?v" and xs="[1, 5]" and ys="[]"
      and H=example_hooks and ?e0.0=example_env]
  from t e(2) have eq: "get_sim_state e =
      Inr (concat (map (\<lambda>h. get_actor_state (actor_of (the_scene e) h)) (actors e))
           @ concat (map (\<lambda>h. get_articulation_state (articulation_of (the_scene e) h))
               (articulations e)))"
    and live: "get_sim_state (e\<lparr>the_scene := (the_scene e)\<lparr>all_actors := [1, 5], all_articulations := []\<rparr>\<rparr>)
       = get_sim_state e"
    by simp_all
  from eq e have v: "get_sim_state e = Inr ?v"
    by (simp add: get_actor_state_def get_articulation_state_def vec3_list_def quat_list_def
        qpos_def qvel_def example_actor_def example_articulation_def)
  have "length ?v = 30" by simp
  with live v have "length ?v = 30"
    and "get_sim_state (e\<lparr>the_scene := (the_scene e)\<lparr>all_actors := [1, 5], all_articulations := []\<rparr>\<rparr>)
         = Inr ?v"
    by simp_all
  with e v show ?thesis by blast
qed

text \<open>The snapshot is empty only for a task that loads no agent, no actor and no
  articulation. There \<^verbatim>\<open>np.hstack\<close> is called with an empty list and raises
  \<^verbatim>\<open>ValueError\<close>, so that no vector is returned.\<close>

lemma get_sim_state_empty_snapshot:
  "map_sum id (\<lambda>e. (actors e, articulations e, get_sim_state e))
      (reconfigure empty_hooks example_env)
     = Inr ([], [], Inl ValueError)"
  by (simp add: empty_hooks_def example_env_def new_env_def default_args_def reset_defs
      example_defs get_sim_state_def hstack_def empty_scene_def)

subsection \<open>The state codec: decoding\<close>

lemma kinematic_of_length: "kinematic_of xs = Some k \<Longrightarrow> length xs = 13"
  by (cases xs rule: kinematic_of.cases) auto

lemma kinematic_of_13: "length xs = 13 \<Longrightarrow> \<exists>k. kinematic_of xs = Some k"
  by (cases xs rule: kinematic_of.cases) auto

lemma kinematic_of_None: "length xs \<noteq> 13 \<Longrightarrow> kinematic_of xs = None"
  using kinematic_of_length by (cases "kinematic_of xs") auto

lemma set_actor_state_ok:
  "length st = 13 \<Longrightarrow>
     \<exists>sc'. set_actor_state h st sc = Inr sc' \<and> articulation_of sc' = articulation_of sc"
  using kinematic_of_13 [of st] by (auto simp: set_actor_state_def)

lemma set_actor_state_bad:
  "length st \<noteq> 13 \<Longrightarrow> set_actor_state h st sc = Inl ShapeMismatchError"
  by (simp add: set_actor_state_def kinematic_of_None)

lemma set_actors_loop_ok:
  "start + 13 * length hs \<le> length v \<Longrightarrow>
     \<exists>sc'. set_actors_loop hs v start sc = Inr (start + 13 * length hs, sc')
        \<and> articulation_of sc' = articulation_of sc"
proof (induction hs arbitrary: start sc)
  case Nil
  then show ?case by simp
next
  case (Cons h hs)
  then have "length (take 13 (drop start v)) = 13" by simp
  from set_actor_state_ok [OF this, of h sc] obtain sc1 where
    s: "set_actor_state h (take 13 (drop start v)) sc = Inr sc1"
      "articulation_of sc1 = articulation_of sc" by blast
  from Cons.prems have "(start + 13) + 13 * length hs \<le> length v" by simp
  from Cons.IH [OF this, of sc1] s show ?case
    by (auto simp: ebind_def KINEMANTIC_DIM_def)
qed

lemma set_actors_loop_bad:
  "start \<le> length v \<Longrightarrow> length v < start + 13 * length hs \<Longrightarrow>
     set_actors_loop hs v start sc = Inl ShapeMismatchError"
proof (induction hs arbitrary: start sc)
  case Nil
  then show ?case by simp
next
  case (Cons h hs)
  show ?case
  proof (cases "start + 13 \<le> length v")
    case True
    then have "length (take 13 (drop start v)) = 13" by simp
    from set_actor_state_ok [OF this, of h sc] obtain sc1 where
      s: "set_actor_state h (take 13 (drop start v)) sc = Inr sc1" by blast
    from Cons.prems have "length v < (start + 13) + 13 * length hs" by simp
    from Cons.IH [OF True this, of sc1] s show ?thesis
      by (simp add: ebind_def KINEMANTIC_DIM_def)
  next
    case False
    then have "length (take 13 (drop start v)) \<noteq> 13" by simp
    from set_actor_state_bad [OF this] show ?thesis
      by (simp add: ebind_def KINEMANTIC_DIM_def)
  qed
qed

lemma set_articulation_state_ok:
  "length st = 13 + 2 * dof (articulation_of sc h) \<Longrightarrow>
     \<exists>sc'. set_articulation_state h st sc = Inr sc'
        \<and> (\<forall>h'. dof (articulation_of sc' h') = dof (articulation_of sc h'))"
  using kinematic_of_13 [of "take 13 st"]
  by (auto simp: set_articulation_state_def Let_def dof_def)

lemma set_articulation_state_bad:
  "length st \<noteq> 13 + 2 * dof (articulation_of sc h) \<Longrightarrow>
     set_articulation_state h st sc = Inl ShapeMismatchError"
  by (simp add: set_articulation_state_def Let_def)

lemma set_articulation_state_dof:
  "set_articulation_state h st sc = Inr sc' \<Longrightarrow>
     dof (articulation_of sc' h') = dof (articulation_of sc h')"
  using set_articulation_state_ok [of st sc h] set_articulation_state_bad [of st sc h]
  by (cases "length st = 13 + 2 * dof (articulation_of sc h)") auto

lemma sum_dof_cong:
  "(\<And>h'. dof (articulation_of sc' h') = dof (articulation_of sc h')) \<Longrightarrow>
     sum_list (map (\<lambda>h. 13 + 2 * dof (articulation_of sc' h)) hs)
       = sum_list (map (\<lambda>h. 13 + 2 * dof (articulation_of sc h)) hs)"
  by simp

lemma set_articulations_loop_ok:
  "start + sum_list (map (\<lambda>h. 13 + 2 * dof (articulation_of sc h)) hs) \<le> length v \<Longrightarrow>
     \<exists>sc'. set_articulations_loop hs v start sc
        = Inr (start + sum_list (map (\<lambda>h. 13 + 2 * dof (articulation_of sc h)) hs), sc')"
proof (induction hs arbitrary: start sc)
  case Nil
  then show ?case by simp
next
  case (Cons h hs)
  let ?n = "13 + 2 * dof (articulation_of sc h)"
  from Cons.prems have "length (take ?n (drop start v)) = ?n" by simp
  from set_articulation_state_ok [OF this] obtain sc1 where
    s: "set_articulation_state h (take ?n (drop start v)) sc = Inr sc1"
    and d: "\<And>h'. dof (articulation_of sc1 h') = dof (articulation_of sc h')" by blast
  from Cons.prems
  have "(start + ?n) + sum_list (map (\<lambda>h. 13 + 2 * dof (articulation_of sc1 h)) hs) \<le> length v"
    by (simp add: d)
  from Cons.IH [OF this] s show ?case
    by (auto simp: ebind_def KINEMANTIC_DIM_def Let_def d)
qed

lemma set_articulations_loop_bad:
  "start \<le> length v \<Longrightarrow>
   length v < start + sum_list (map (\<lambda>h. 13 + 2 * dof (articulation_of sc h)) hs) \<Longrightarrow>
     set_articulations_loop hs v start sc = Inl ShapeMismatchError"
proof (induction hs arbitrary: start sc)
  case Nil
  then show ?case by simp
next
  case (Cons h hs)
  let ?n = "13 + 2 * dof (articulation_of sc h)"
  show ?case
  proof (cases "start + ?n \<le> length v")
    case True
    then have "length (take ?n (drop start v)) = ?n" by simp
    from set_articulation_state_ok [OF this] obtain sc1 where
      s: "set_articulation_state h (take ?n (drop start v)) sc = Inr sc1"
      and d: "\<And>h'. dof (articulation_of sc1 h') = dof (articulation_of sc h')" by blast
    from Cons.prems
    have "length v < (start + ?n) + sum_list (map (\<lambda>h. 13 + 2 * dof (articulation_of sc1 h)) hs)"
      by (simp add: d)
    from Cons.IH [OF True this] s show ?thesis
      by (simp add: ebind_def KINEMANTIC_DIM_def Let_def)
  next
    case False
    then have "length (take ?n (drop start v)) \<noteq> ?n" by simp
    from set_articulation_state_bad [OF this] show ?thesis
      by (simp add: ebind_def KINEMANTIC_DIM_def Let_def)
  qed
qed

lemma slice_take:
  "start + n \<le> L \<Longrightarrow> take n (drop start (take L v)) = take n (drop start v)"
  by (simp add: drop_take min_def)

lemma set_actors_loop_take:
  "start + 13 * length hs \<le> L \<Longrightarrow>
     set_actors_loop hs (take L v) start sc = set_actors_loop hs v start sc"
proof (induction hs arbitrary: start sc)
  case Nil
  then show ?case by simp
next
  case (Cons h hs)
  then have sl: "take 13 (drop start (take L v)) = take 13 (drop start v)"
    by (simp add: slice_take)
  from Cons.prems have "(start + 13) + 13 * length hs \<le> L" by simp
  from Cons.IH [OF this] show ?case
    by (cases "set_actor_state h (take 13 (drop start v)) sc")
       (simp_all add: KINEMANTIC_DIM_def sl ebind_def)
qed

lemma set_articulations_loop_take:
  "start + sum_list (map (\<lambda>h. 13 + 2 * dof (articulation_of sc h)) hs) \<le> L \<Longrightarrow>
     set_articulations_loop hs (take L v) start sc = set_articulations_loop hs v start sc"
proof (induction hs arbitrary: start sc)
  case Nil
  then show ?case by simp
next
  case (Cons h hs)
  let ?n = "13 + 2 * dof (articulation_of sc h)"
  from Cons.prems have sl: "take ?n (drop start (take L v)) = take ?n (drop start v)"
    by (simp add: slice_take)
  show ?case
  proof (cases "set_articulation_state h (take ?n (drop start v)) sc")
    case (Inl err)
    then show ?thesis by (simp add: KINEMANTIC_DIM_def Let_def sl ebind_def)
  next
    case (Inr sc1)
    from set_articulation_state_dof [OF Inr]
    have d: "\<And>h'. dof (articulation_of sc1 h') = dof (articulation_of sc h')" .
    from Cons.prems
    have "(start + ?n) + sum_list (map (\<lambda>h. 13 + 2 * dof (articulation_of sc1 h)) hs) \<le> L"
      by (simp add: d)
    from Cons.IH [OF this] Inr show ?thesis
      by (simp add: KINEMANTIC_DIM_def Let_def sl ebind_def)
  qed
qed

lemma consumed_ok:
  assumes "layout_length e \<le> length v"
  shows "\<exists>e'. set_sim_state_consumed e v = Inr (layout_length e, e')"
proof -
  let ?A = "13 * length (actors e)"
  let ?B = "sum_list (map (\<lambda>h. 13 + 2 * dof (articulation_of (the_scene e) h)) (articulations e))"
  from assms have a: "0 + ?A \<le> length v" by (simp add: layout_length_def)
  from set_actors_loop_ok [OF a, of "the_scene e"] obtain sc1 where
    s1: "set_actors_loop (actors e) v 0 (the_scene e) = Inr (?A, sc1)"
    and f: "articulation_of sc1 = articulation_of (the_scene e)" by auto
  from assms have "?A + sum_list (map (\<lambda>h. 13 + 2 * dof (articulation_of sc1 h)) (articulations e))
      \<le> length v"
    by (simp add: layout_length_def f)
  from set_articulations_loop_ok [OF this] obtain sc2 where
    "set_articulations_loop (articulations e) v ?A sc1 = Inr (?A + ?B, sc2)"
    by (auto simp: f)
  with s1 show ?thesis
    by (simp add: set_sim_state_consumed_def ebind_def layout_length_def)
qed

lemma consumed_bad:
  assumes "length v < layout_length e"
  shows "set_sim_state_consumed e v = Inl ShapeMismatchError"
proof (cases "13 * length (actors e) \<le> length v")
  case True
  let ?A = "13 * length (actors e)"
  from True have a: "0 + ?A \<le> length v" by simp
  from set_actors_loop_ok [OF a, of "the_scene e"] obtain sc1 where
    s1: "set_actors_loop (actors e) v 0 (the_scene e) = Inr (?A, sc1)"
    and f: "articulation_of sc1 = articulation_of (the_scene e)" by auto
  from assms have "length v < ?A + sum_list (map (\<lambda>h. 13 + 2 * dof (articulation_of sc1 h)) (articulations e))"
    by (simp add: layout_length_def f)
  from set_articulations_loop_bad [OF True this] s1 show ?thesis
    by (simp add: set_sim_state_consumed_def ebind_def)
next
  case False
  then have "length v < 0 + 13 * length (actors e)" by simp
  from set_actors_loop_bad [OF _ this] show ?thesis
    by (simp add: set_sim_state_consumed_def ebind_def)
qed

lemma consumed_take:
  "set_sim_state_consumed e (take (layout_length e) v) = set_sim_state_consumed e v"
proof -
  let ?L = "layout_length e"
  let ?A = "13 * length (actors e)"
  have a: "0 + ?A \<le> ?L" by (simp add: layout_length_def)
  have 1: "set_actors_loop (actors e) (take ?L v) 0 (the_scene e)
      = set_actors_loop (actors e) v 0 (the_scene e)"
    by (rule set_actors_loop_take [OF a])
  show ?thesis
  proof (cases "set_actors_loop (actors e) v 0 (the_scene e)")
    case (Inl err)
    then show ?thesis by (simp add: set_sim_state_consumed_def ebind_def 1)
  next
    case (Inr r)
    obtain n sc1 where r: "r = (n, sc1)" by (cases r)
    have "?A \<le> length v"
    proof (rule ccontr)
      assume "\<not> ?A \<le> length v"
      then have "length v < 0 + ?A" by simp
      from set_actors_loop_bad [OF _ this, of "the_scene e"] Inr show False by simp
    qed
    then have "0 + ?A \<le> length v" by simp
    from set_actors_loop_ok [OF this, of "the_scene e"] Inr r
    have n: "n = ?A" and f: "articulation_of sc1 = articulation_of (the_scene e)" by auto
    have "?A + sum_list (map (\<lambda>h. 13 + 2 * dof (articulation_of sc1 h)) (articulations e)) \<le> ?L"
      by (simp add: layout_length_def f)
    from set_articulations_loop_take [OF this]
    show ?thesis
      by (simp add: set_sim_state_consumed_def ebind_def 1 Inr r n)
  qed
qed

lemma layout_length_live_enumeration:
  "layout_length (e\<lparr>the_scene := (the_scene e)\<lparr>all_actors := xs, all_articulations := ys\<rparr>\<rparr>)
     = layout_length e"
  by (simp add: layout_length_def)

text \<open>Claim C4, as the code has it (with the segment writers as the spec describes
  them). \<^verbatim>\<open>set_sim_state\<close> succeeds exactly when the vector is at least as long as the
  layout of the cached snapshot: a shorter vector raises the shape mismatch of the
  segment that is cut short, a longer one is accepted. When it succeeds the loops have
  walked over exactly the layout's length, and the values beyond it are never read: the
  result is that for the vector cut to the layout's length. The layout depends on the
  cached handles only, not on the scene's live enumeration.\<close>

theorem set_sim_state_layout:
  "(set_sim_state_consumed e v = Inr (n, e') \<longrightarrow> n = layout_length e \<and> layout_length e \<le> length v)
   \<and> (layout_length e \<le> length v \<longrightarrow> (\<exists>e'. set_sim_state e v = Inr e'))
   \<and> (length v < layout_length e \<longrightarrow> set_sim_state e v = Inl ShapeMismatchError)
   \<and> set_sim_state e (take (layout_length e) v) = set_sim_state e v
   \<and> layout_length (e\<lparr>the_scene := (the_scene e)\<lparr>all_actors := xs, all_articulations := ys\<rparr>\<rparr>)
       = layout_length e"
proof -
  have 1: "n = layout_length e \<and> layout_length e \<le> length v"
    if c: "set_sim_state_consumed e v = Inr (n, e')"
  proof -
    have le: "layout_length e \<le> length v"
    proof (rule ccontr)
      assume "\<not> layout_length e \<le> length v"
      then have "length v < layout_length e" by simp
      from consumed_bad [OF this] c show False by simp
    qed
    from consumed_ok [OF le] c le show ?thesis by auto
  qed
  have 2: "\<exists>e'. set_sim_state e v = Inr e'" if "layout_length e \<le> length v"
    using consumed_ok [OF that] by (auto simp: set_sim_state_def)
  have 3: "set_sim_state e v = Inl ShapeMismatchError" if "length v < layout_length e"
    using consumed_bad [OF that] by (simp add: set_sim_state_def)
  have 4: "set_sim_state e (take (layout_length e) v) = set_sim_state e v"
    by (simp add: set_sim_state_def consumed_take)
  from 1 2 3 4 layout_length_live_enumeration [where e=e and xs=xs and ys=ys]
  show ?thesis by blast
qed

lemma example_layout: "layout_length example_env = 30"
  by (simp add: layout_length_def example_env_def new_env_def example_scene_def
      example_articulation_def dof_def)

text \<open>Witness for C4: the layout of the concrete environment has 30 values. A vector of
  30 is accepted, one of 29 raises, and one of 31 does what its first 30 values do.\<close>

theorem set_sim_state_layout_witness:
  "layout_length example_env = 30
   \<and> (\<exists>e'. set_sim_state example_env (replicate 30 1) = Inr e')
   \<and> set_sim_state example_env (replicate 29 1) = Inl ShapeMismatchError
   \<and> set_sim_state example_env (replicate 31 1) = set_sim_state example_env (replicate 30 1)"
proof -
  note l = example_layout
  from set_sim_state_layout [where e=example_env and v="replicate 30 1"] l
  have a: "\<exists>e'. set_sim_state example_env (replicate 30 1) = Inr e'" by simp
  from set_sim_state_layout [where e=example_env and v="replicate 29 1"] l
  have b: "set_sim_state example_env (replicate 29 1) = Inl ShapeMismatchError" by simp
  from set_sim_state_layout [where e=example_env and v="replicate 31 1"] l
  have c: "set_sim_state example_env (replicate 31 1) = set_sim_state example_env (replicate 30 1)"
    by simp
  from l a b c show ?thesis by blast
qed

text \<open>Counterexample to C4 as stated: the layout has 30 values and the vector 31;
  \<^verbatim>\<open>set_sim_state\<close> raises nothing and walks over 30 values, not over the vector's 31.\<close>

theorem set_sim_state_layout_counterexample:
  "layout_length example_env = 30 \<and> length (replicate 31 (1 :: real)) = 31
   \<and> map_sum id fst (set_sim_state_consumed example_env (replicate 31 1)) = Inr 30"
proof -
  have "layout_length example_env \<le> length (replicate 31 (1 :: real))"
    by (simp add: example_layout)
  from consumed_ok [OF this] show ?thesis
    by (auto simp: example_layout)
qed

end
